(* ===== verification/Prelude.thy ===== *)
theory Prelude
  imports Main "HOL-Library.Word" "HOL-Library.Signed_Division" "HOL-Library.Multiset"
begin

text \<open>
  Shared vocabulary of the development: Go's fixed-width integers with their wrap-around,
  the outcome of a Go call (a value, an \<open>error\<close>, a panic, or a lock that is never granted)
  and the state-passing programs built from it, with the small program logics every
  component uses: \<open>keeps\<close> (a predicate of the state survives every outcome, the
  error paths included) and \<open>wpR\<close> (the call returns, and returns this); \<open>triple\<close> joins
  the two views, with one condition for a return and one for every other outcome.
  The collections \<open>keeps_intros\<close> and \<open>wpR_intros\<close> hold their rules.
\<close>

named_theorems keeps_intros \<open>rules that a predicate survives a program\<close>
named_theorems wpR_intros \<open>rules that a program returns\<close>

section \<open>Machine integers\<close>

text \<open>
  A Go \<open>int64\<close>, \<open>int\<close> or \<open>time.Duration\<close> is an \<open>int\<close> between \<open>-2^63\<close> and \<open>2^63 - 1\<close>, and
  every arithmetic operation of the source that can leave the range is followed by \<open>i64\<close>,
  the two's complement wrap-around. \<open>i32\<close> is the conversion \<open>int32(x)\<close> and \<open>u32\<close> the
  conversion \<open>uint32(x)\<close>.
\<close>

definition in64 :: "int \<Rightarrow> bool" where
  "in64 x \<longleftrightarrow> - (2 ^ 63) \<le> x \<and> x < 2 ^ 63"

definition i64 :: "int \<Rightarrow> int" where
  "i64 x = (x + 2 ^ 63) mod 2 ^ 64 - 2 ^ 63"

definition i32 :: "int \<Rightarrow> int" where
  "i32 x = (x + 2 ^ 31) mod 2 ^ 32 - 2 ^ 31"

definition u32 :: "int \<Rightarrow> int" where
  "u32 x = x mod 2 ^ 32"

text \<open>\<open>time.Time.Sub\<close> (and so \<open>time.Since\<close>) saturates instead of wrapping.\<close>

definition sat64 :: "int \<Rightarrow> int" where
  "sat64 x = max (- (2 ^ 63)) (min (2 ^ 63 - 1) x)"

lemma i64_id [simp]: "in64 x \<Longrightarrow> i64 x = x"
  by (simp add: i64_def in64_def)

lemma in64_i64 [simp]: "in64 (i64 x)"
  by (simp add: i64_def in64_def)

lemma in64_sat64 [simp]: "in64 (sat64 x)"
  by (simp add: sat64_def in64_def)

lemma sat64_id [simp]: "in64 x \<Longrightarrow> sat64 x = x"
  by (simp add: sat64_def in64_def)

lemma i64_add_i64: "i64 (i64 x + y) = i64 (x + y)"
proof -
  have "i64 x + y + 2 ^ 63 = (x + 2 ^ 63) mod 2 ^ 64 + y" by (simp add: i64_def)
  moreover have "((x + 2 ^ 63) mod 2 ^ 64 + y) mod 2 ^ 64 = (x + 2 ^ 63 + y) mod 2 ^ 64"
    by (rule mod_add_left_eq)
  ultimately show ?thesis by (simp add: i64_def algebra_simps)
qed

lemma i64_eq_sint: "i64 x = sint (word_of_int x :: 64 word)"
proof -
  have "signed_take_bit 63 x = (x + 2 ^ 63) mod 2 ^ 64 - 2 ^ 63"
    by (simp add: signed_take_bit_eq_take_bit_shift take_bit_eq_mod)
  then show ?thesis by (simp add: i64_def signed_of_int)
qed

lemma i32_id: "- (2 ^ 31) \<le> x \<Longrightarrow> x < 2 ^ 31 \<Longrightarrow> i32 x = x"
  by (simp add: i32_def)

lemma u32_id: "0 \<le> x \<Longrightarrow> x < 2 ^ 32 \<Longrightarrow> u32 x = x"
  by (simp add: u32_def)

section \<open>Outcomes and programs\<close>

text \<open>
  \<open>Return\<close>, \<open>Error\<close> and \<open>Panic\<close> are the three ways a Go call ends. \<open>Blocked\<close> is a call that
  waits for a mutex nobody will release. The state is carried through every outcome:
  what a Go function wrote before it returned an error or panicked stays written.
\<close>

datatype ('a, 'e, 'p) outcome = Return 'a | Error 'e | Panic 'p | Blocked

type_synonym ('s, 'a, 'e, 'p) prog = "'s \<Rightarrow> ('a, 'e, 'p) outcome \<times> 's"

definition ret :: "'a \<Rightarrow> ('s, 'a, 'e, 'p) prog" where
  "ret a = (\<lambda>s. (Return a, s))"

definition throw :: "'e \<Rightarrow> ('s, 'a, 'e, 'p) prog" where
  "throw e = (\<lambda>s. (Error e, s))"

definition panic :: "'p \<Rightarrow> ('s, 'a, 'e, 'p) prog" where
  "panic p = (\<lambda>s. (Panic p, s))"

definition stuck :: "('s, 'a, 'e, 'p) prog" where
  "stuck = (\<lambda>s. (Blocked, s))"

definition gets :: "('s \<Rightarrow> 'a) \<Rightarrow> ('s, 'a, 'e, 'p) prog" where
  "gets f = (\<lambda>s. (Return (f s), s))"

definition modify :: "('s \<Rightarrow> 's) \<Rightarrow> ('s, unit, 'e, 'p) prog" where
  "modify f = (\<lambda>s. (Return (), f s))"

fun seq_outcome :: "('a, 'e, 'p) outcome \<times> 's \<Rightarrow> ('a \<Rightarrow> ('s, 'b, 'e, 'p) prog)
    \<Rightarrow> ('b, 'e, 'p) outcome \<times> 's" where
  "seq_outcome (Return a, s) f = f a s"
| "seq_outcome (Error e, s) f = (Error e, s)"
| "seq_outcome (Panic p, s) f = (Panic p, s)"
| "seq_outcome (Blocked, s) f = (Blocked, s)"

definition bindP :: "('s, 'a, 'e, 'p) prog \<Rightarrow> ('a \<Rightarrow> ('s, 'b, 'e, 'p) prog) \<Rightarrow> ('s, 'b, 'e, 'p) prog"
  where "bindP m f = (\<lambda>s. seq_outcome (m s) f)"

definition seqP :: "('s, 'a, 'e, 'p) prog \<Rightarrow> ('s, 'b, 'e, 'p) prog \<Rightarrow> ('s, 'b, 'e, 'p) prog" where
  "seqP m k = bindP m (\<lambda>_. k)"

text \<open>\<open>fmt.Errorf("...: %v", err)\<close> around a call; the Go idiom \<open>x, err := f()\<close> with \<open>err\<close> read later.\<close>

fun map_error :: "('e \<Rightarrow> 'e) \<Rightarrow> ('a, 'e, 'p) outcome \<Rightarrow> ('a, 'e, 'p) outcome" where
  "map_error f (Error e) = Error (f e)"
| "map_error f r = r"

definition wrap_error :: "('e \<Rightarrow> 'e) \<Rightarrow> ('s, 'a, 'e, 'p) prog \<Rightarrow> ('s, 'a, 'e, 'p) prog" where
  "wrap_error f m = (\<lambda>s. case m s of (r, t) \<Rightarrow> (map_error f r, t))"

fun reify_error :: "('a, 'e, 'p) outcome \<Rightarrow> ('e + 'a, 'e, 'p) outcome" where
  "reify_error (Return a) = Return (Inr a)"
| "reify_error (Error e) = Return (Inl e)"
| "reify_error (Panic p) = Panic p"
| "reify_error Blocked = Blocked"

definition attempt :: "('s, 'a, 'e, 'p) prog \<Rightarrow> ('s, 'e + 'a, 'e, 'p) prog" where
  "attempt m = (\<lambda>s. case m s of (r, t) \<Rightarrow> (reify_error r, t))"

definition lift_outcome :: "('a, 'e, 'p) outcome \<Rightarrow> ('s, 'a, 'e, 'p) prog" where
  "lift_outcome r = (\<lambda>s. (r, s))"

text \<open>The same sequencing for calls that only compute.\<close>

fun bindO :: "('a, 'e, 'p) outcome \<Rightarrow> ('a \<Rightarrow> ('b, 'e, 'p) outcome) \<Rightarrow> ('b, 'e, 'p) outcome" where
  "bindO (Return a) f = f a"
| "bindO (Error e) f = Error e"
| "bindO (Panic p) f = Panic p"
| "bindO Blocked f = Blocked"

text \<open>\<open>for _, x := range xs\<close>: the body for every element, up to the first that does not return.\<close>

fun foreach :: "('x \<Rightarrow> ('s, unit, 'e, 'p) prog) \<Rightarrow> 'x list \<Rightarrow> ('s, unit, 'e, 'p) prog" where
  "foreach f [] = ret ()"
| "foreach f (x # xs) = seqP (f x) (foreach f xs)"

text \<open>The same loop with \<open>ys = append(ys, f(x))\<close> in its body.\<close>

fun collect :: "('x \<Rightarrow> ('s, 'y, 'e, 'p) prog) \<Rightarrow> 'x list \<Rightarrow> ('s, 'y list, 'e, 'p) prog" where
  "collect f [] = ret []"
| "collect f (x # xs) = bindP (f x) (\<lambda>y. bindP (collect f xs) (\<lambda>ys. ret (y # ys)))"

lemmas prog_defs = ret_def throw_def panic_def stuck_def gets_def modify_def lift_outcome_def

lemma run_gets [simp]: "gets f s = (Return (f s), s)" by (simp add: gets_def)
lemma run_modify [simp]: "modify f s = (Return (), f s)" by (simp add: modify_def)

lemma run_pure_iff [simp]:
  "ret a s = (r, t) \<longleftrightarrow> r = Return a \<and> t = s"
  "throw e s = (r, t) \<longleftrightarrow> r = Error e \<and> t = s"
  "panic p s = (r, t) \<longleftrightarrow> r = Panic p \<and> t = s"
  "stuck s = (r, t) \<longleftrightarrow> r = Blocked \<and> t = s"
  "lift_outcome q s = (r, t) \<longleftrightarrow> q = r \<and> t = s"
  by (auto simp: prog_defs)

lemma run_pure_proj [simp]:
  "fst (ret a s) = Return a" "snd (ret a s) = s"
  "fst (throw e s) = Error e" "snd (throw e s) = s"
  "fst (panic p s) = Panic p" "snd (panic p s) = s"
  "fst (stuck s) = Blocked" "snd (stuck s) = s"
  "fst (lift_outcome q s) = q" "snd (lift_outcome q s) = s"
  by (simp_all add: prog_defs)

lemma run_pure_seq [simp]:
  "seq_outcome (ret a s) f = f a s"
  "seq_outcome (throw e s) g = (Error e, s)"
  "seq_outcome (panic p s) h = (Panic p, s)"
  "seq_outcome (stuck s) k = (Blocked, s)"
  by (simp_all add: prog_defs)

lemma run_bindP: "bindP m f s = seq_outcome (m s) f" by (simp add: bindP_def)
lemma run_seqP: "seqP m k s = seq_outcome (m s) (\<lambda>_. k)" by (simp add: seqP_def bindP_def)

lemma run_wrap_error: "wrap_error f m s = (map_error f (fst (m s)), snd (m s))"
  by (simp add: wrap_error_def split_def)

lemma run_attempt: "attempt m s = (reify_error (fst (m s)), snd (m s))"
  by (simp add: attempt_def split_def)

lemma seq_outcome_Return_iff:
  "seq_outcome r f = (Return b, t) \<longleftrightarrow> (\<exists>a u. r = (Return a, u) \<and> f a u = (Return b, t))"
  by (cases "(r, f)" rule: seq_outcome.cases) auto

lemma bindP_Return_iff:
  "bindP m f s = (Return b, t) \<longleftrightarrow> (\<exists>a u. m s = (Return a, u) \<and> f a u = (Return b, t))"
  by (simp add: run_bindP seq_outcome_Return_iff)

lemma seqP_Return_iff:
  "seqP m k s = (Return b, t) \<longleftrightarrow> (\<exists>a u. m s = (Return a, u) \<and> k u = (Return b, t))"
  by (simp add: seqP_def bindP_Return_iff)

lemma map_error_Return_iff [simp]: "map_error f r = Return a \<longleftrightarrow> r = Return a"
  by (cases r) auto

lemma wrap_error_Return_iff: "wrap_error f m s = (Return a, t) \<longleftrightarrow> m s = (Return a, t)"
  by (auto simp: run_wrap_error prod_eq_iff)

lemma attempt_Inr_iff: "attempt m s = (Return (Inr a), t) \<longleftrightarrow> m s = (Return a, t)"
  by (cases "fst (m s)") (auto simp: run_attempt prod_eq_iff)

lemma attempt_Inl_iff: "attempt m s = (Return (Inl e), t) \<longleftrightarrow> m s = (Error e, t)"
  by (cases "fst (m s)") (auto simp: run_attempt prod_eq_iff)

lemma bindO_Return_iff: "bindO r f = Return b \<longleftrightarrow> (\<exists>a. r = Return a \<and> f a = Return b)"
  by (cases r) auto

lemmas prog_Return_iffs =
  bindP_Return_iff seqP_Return_iff wrap_error_Return_iff attempt_Inr_iff attempt_Inl_iff

lemma bindP_ReturnE:
  assumes "bindP m f s = (Return b, t)"
  obtains a u where "m s = (Return a, u)" "f a u = (Return b, t)"
  using assms by (auto simp: bindP_Return_iff)

lemma seqP_ReturnE:
  assumes "seqP m k s = (Return b, t)"
  obtains a u where "m s = (Return a, u)" "k u = (Return b, t)"
  using assms by (auto simp: seqP_Return_iff)

lemma collect_length: "collect f xs s = (Return ys, t) \<Longrightarrow> length ys = length xs"
  by (induction xs arbitrary: s ys t) (auto simp: bindP_Return_iff)

section \<open>Predicates that survive every outcome\<close>

definition keeps :: "('s \<Rightarrow> bool) \<Rightarrow> ('s, 'a, 'e, 'p) prog \<Rightarrow> bool" where
  "keeps P m \<longleftrightarrow> (\<forall>s. P s \<longrightarrow> P (snd (m s)))"

lemma keepsI: "(\<And>s. P s \<Longrightarrow> P (snd (m s))) \<Longrightarrow> keeps P m"
  by (simp add: keeps_def)

lemma keepsD: "keeps P m \<Longrightarrow> P s \<Longrightarrow> P (snd (m s))"
  by (simp add: keeps_def)

lemma keeps_run: "keeps P m \<Longrightarrow> m s = (r, t) \<Longrightarrow> P s \<Longrightarrow> P t"
  by (metis keepsD snd_conv)

lemma keeps_pure [keeps_intros, simp]:
  "keeps P (ret a)" "keeps P (throw e)" "keeps P (panic p)" "keeps P stuck" "keeps P (gets f)"
  "keeps P (lift_outcome r)"
  by (simp_all add: keeps_def)

lemma keeps_modify: "keeps P (modify f) \<longleftrightarrow> (\<forall>s. P s \<longrightarrow> P (f s))"
  by (simp add: keeps_def)

lemma keeps_seq_outcome:
  "P (snd r) \<Longrightarrow> (\<And>a. keeps P (f a)) \<Longrightarrow> P (snd (seq_outcome r f))"
  by (cases "(r, f)" rule: seq_outcome.cases) (auto dest: keepsD)

lemma keeps_bindP [keeps_intros]: "keeps P m \<Longrightarrow> (\<And>a. keeps P (f a)) \<Longrightarrow> keeps P (bindP m f)"
  by (intro keepsI) (simp add: run_bindP keeps_seq_outcome keepsD)

lemma keeps_seqP [keeps_intros]: "keeps P m \<Longrightarrow> keeps P k \<Longrightarrow> keeps P (seqP m k)"
  by (simp add: seqP_def keeps_bindP)

lemma keeps_wrap_error [keeps_intros]: "keeps P m \<Longrightarrow> keeps P (wrap_error f m)"
  by (simp add: keeps_def run_wrap_error)

lemma keeps_attempt [keeps_intros]: "keeps P m \<Longrightarrow> keeps P (attempt m)"
  by (simp add: keeps_def run_attempt)

lemma keeps_foreach [keeps_intros]:
  "(\<And>x. x \<in> set xs \<Longrightarrow> keeps P (f x)) \<Longrightarrow> keeps P (foreach f xs)"
  by (induction xs) (auto intro: keeps_intros)

lemma keeps_collect [keeps_intros]:
  "(\<And>x. x \<in> set xs \<Longrightarrow> keeps P (f x)) \<Longrightarrow> keeps P (collect f xs)"
  by (induction xs) (auto intro!: keeps_intros)

lemma keeps_if [keeps_intros]:
  "(b \<Longrightarrow> keeps P m) \<Longrightarrow> (\<not> b \<Longrightarrow> keeps P k) \<Longrightarrow> keeps P (if b then m else k)"
  by simp

lemma keeps_option [keeps_intros]:
  "(x = None \<Longrightarrow> keeps P m) \<Longrightarrow> (\<And>a. x = Some a \<Longrightarrow> keeps P (f a)) \<Longrightarrow>
    keeps P (case x of None \<Rightarrow> m | Some a \<Rightarrow> f a)"
  by (cases x) auto

lemma keeps_sum [keeps_intros]:
  "(\<And>a. x = Inl a \<Longrightarrow> keeps P (f a)) \<Longrightarrow> (\<And>b. x = Inr b \<Longrightarrow> keeps P (g b)) \<Longrightarrow>
    keeps P (case x of Inl a \<Rightarrow> f a | Inr b \<Rightarrow> g b)"
  by (cases x) auto

lemma keeps_prod [keeps_intros]:
  "(\<And>a b. x = (a, b) \<Longrightarrow> keeps P (f a b)) \<Longrightarrow> keeps P (case x of (a, b) \<Rightarrow> f a b)"
  by (cases x) auto

lemma keeps_list [keeps_intros]:
  "(xs = [] \<Longrightarrow> keeps P m) \<Longrightarrow> (\<And>y ys. xs = y # ys \<Longrightarrow> keeps P (f y ys)) \<Longrightarrow>
    keeps P (case xs of [] \<Rightarrow> m | y # ys \<Rightarrow> f y ys)"
  by (cases xs) auto

lemma keeps_Let [keeps_intros]: "(\<And>x. x = a \<Longrightarrow> keeps P (f x)) \<Longrightarrow> keeps P (let x = a in f x)"
  by simp

section \<open>Programs that return\<close>

text \<open>
  \<open>wpR m Q s\<close>: started in \<open>s\<close>, the program \<open>m\<close> returns, and \<open>Q\<close> holds of its value and its
  final state. A panic, an error or a lock never granted refutes it, so it is total correctness.
\<close>

definition wpR :: "('s, 'a, 'e, 'p) prog \<Rightarrow> ('a \<Rightarrow> 's \<Rightarrow> bool) \<Rightarrow> 's \<Rightarrow> bool" where
  "wpR m Q s \<longleftrightarrow> (\<exists>a t. m s = (Return a, t) \<and> Q a t)"

lemma wpR_ret [wpR_intros]: "Q a s \<Longrightarrow> wpR (ret a) Q s"
  by (simp add: wpR_def)

lemma wpR_gets [wpR_intros]: "Q (f s) s \<Longrightarrow> wpR (gets f) Q s"
  by (simp add: wpR_def)

lemma wpR_modify [wpR_intros]: "Q () (f s) \<Longrightarrow> wpR (modify f) Q s"
  by (simp add: wpR_def)

lemma wpR_bindP [wpR_intros]: "wpR m (\<lambda>a. wpR (f a) Q) s \<Longrightarrow> wpR (bindP m f) Q s"
  by (auto simp: wpR_def bindP_Return_iff)

lemma wpR_seqP [wpR_intros]: "wpR m (\<lambda>_. wpR k Q) s \<Longrightarrow> wpR (seqP m k) Q s"
  by (simp add: seqP_def wpR_bindP)

lemma wpR_wrap_error [wpR_intros]: "wpR m Q s \<Longrightarrow> wpR (wrap_error f m) Q s"
  by (simp add: wpR_def wrap_error_Return_iff)

lemma wpR_attempt [wpR_intros]: "wpR m (\<lambda>a. Q (Inr a)) s \<Longrightarrow> wpR (attempt m) Q s"
  by (auto simp: wpR_def dest: attempt_Inr_iff [THEN iffD2])

lemma wpR_lift_outcome [wpR_intros]: "r = Return a \<Longrightarrow> Q a s \<Longrightarrow> wpR (lift_outcome r) Q s"
  by (simp add: wpR_def)

lemma wpR_mono: "wpR m Q s \<Longrightarrow> (\<And>a t. Q a t \<Longrightarrow> R a t) \<Longrightarrow> wpR m R s"
  by (auto simp: wpR_def)

text \<open>A loop whose body always returns and keeps an invariant returns and keeps it.\<close>

lemma wpR_foreach:
  assumes "I s" and "\<And>x s. x \<in> set xs \<Longrightarrow> I s \<Longrightarrow> wpR (f x) (\<lambda>_. I) s"
  shows "wpR (foreach f xs) (\<lambda>_. I) s"
  using assms
proof (induction xs arbitrary: s)
  case Nil
  then show ?case by (simp add: wpR_ret)
next
  case (Cons x xs)
  have "wpR (f x) (\<lambda>_. I) s" using Cons.prems by simp
  then have "wpR (f x) (\<lambda>_. wpR (foreach f xs) (\<lambda>_. I)) s"
    by (rule wpR_mono) (rule Cons.IH, auto intro: Cons.prems)
  then show ?case by (simp add: wpR_seqP)
qed

lemma wpR_collect:
  assumes "I s" and "\<And>x s. x \<in> set xs \<Longrightarrow> I s \<Longrightarrow> wpR (f x) (\<lambda>y t. I t \<and> R x y) s"
  shows "wpR (collect f xs) (\<lambda>ys t. I t \<and> list_all2 R xs ys) s"
  using assms
proof (induction xs arbitrary: s)
  case Nil
  then show ?case by (simp add: wpR_ret)
next
  case (Cons x xs)
  have "wpR (f x) (\<lambda>y t. I t \<and> R x y) s" using Cons.prems by simp
  then have "wpR (f x) (\<lambda>y. wpR (bindP (collect f xs) (\<lambda>ys. ret (y # ys)))
      (\<lambda>ys t. I t \<and> list_all2 R (x # xs) ys)) s"
  proof (rule wpR_mono)
    fix y t assume yt: "I t \<and> R x y"
    have "wpR (collect f xs) (\<lambda>ys t. I t \<and> list_all2 R xs ys) t"
      by (rule Cons.IH) (use yt Cons.prems in auto)
    then show "wpR (bindP (collect f xs) (\<lambda>ys. ret (y # ys)))
        (\<lambda>ys t. I t \<and> list_all2 R (x # xs) ys) t"
      by (intro wpR_bindP) (erule wpR_mono, auto intro: wpR_ret simp: yt)
  qed
  then show ?case by (simp add: wpR_bindP)
qed

lemma wpRD: "wpR m Q s \<Longrightarrow> \<exists>a t. m s = (Return a, t) \<and> Q a t"
  by (simp add: wpR_def)

section \<open>Outcomes told apart\<close>

text \<open>From a state with \<open>P\<close>, a return ends in \<open>Q\<close> and every other outcome in \<open>X\<close>.\<close>

definition triple :: "('s \<Rightarrow> bool) \<Rightarrow> ('s, 'a, 'e, 'p) prog \<Rightarrow> ('a \<Rightarrow> 's \<Rightarrow> bool) \<Rightarrow> ('s \<Rightarrow> bool) \<Rightarrow> bool" where
  "triple P m Q X \<longleftrightarrow> (\<forall>s. P s \<longrightarrow> (\<forall>r t. m s = (r, t) \<longrightarrow>
     (case r of Return a \<Rightarrow> Q a t | _ \<Rightarrow> X t)))"

lemma tripleI:
  "(\<And>s a t. P s \<Longrightarrow> m s = (Return a, t) \<Longrightarrow> Q a t) \<Longrightarrow>
    (\<And>s r t. P s \<Longrightarrow> m s = (r, t) \<Longrightarrow> \<forall>a. r \<noteq> Return a \<Longrightarrow> X t) \<Longrightarrow> triple P m Q X"
  by (auto simp: triple_def split: outcome.split)

lemma triple_Return: "triple P m Q X \<Longrightarrow> P s \<Longrightarrow> m s = (Return a, t) \<Longrightarrow> Q a t"
  by (fastforce simp: triple_def)

lemma triple_other: "triple P m Q X \<Longrightarrow> P s \<Longrightarrow> m s = (r, t) \<Longrightarrow> \<forall>a. r \<noteq> Return a \<Longrightarrow> X t"
  unfolding triple_def by (cases r) auto

lemma triple_bindP:
  assumes m: "triple P m R X" and f: "\<And>a. triple (R a) (f a) Q X"
  shows "triple P (bindP m f) Q X"
proof -
  have "case r of Return b \<Rightarrow> Q b t | _ \<Rightarrow> X t" if "P s" "bindP m f s = (r, t)" for s r t
  proof -
    obtain r1 u where mu: "m s = (r1, u)" by fastforce
    show ?thesis
    proof (cases r1)
      case (Return a)
      then have "f a u = (r, t)" using that(2) mu by (simp add: run_bindP)
      then show ?thesis using f [of a] triple_Return [OF m that(1)] mu Return unfolding triple_def by blast
    qed (use triple_other [OF m that(1) mu] that(2) mu in \<open>auto simp: run_bindP\<close>)
  qed
  then show ?thesis by (simp add: triple_def)
qed

lemma triple_seqP: "triple P m (\<lambda>_. R) X \<Longrightarrow> triple R k Q X \<Longrightarrow> triple P (seqP m k) Q X"
  unfolding seqP_def by (rule triple_bindP)

lemma triple_keeps: "keeps P m \<Longrightarrow> (\<And>s. P s \<Longrightarrow> X s) \<Longrightarrow> triple P m (\<lambda>_. P) X"
  by (rule tripleI) (auto dest: keeps_run)

lemma triple_weaken:
  "triple P m Q X \<Longrightarrow> (\<And>s. P' s \<Longrightarrow> P s) \<Longrightarrow> (\<And>a s. Q a s \<Longrightarrow> Q' a s) \<Longrightarrow> (\<And>s. X s \<Longrightarrow> X' s) \<Longrightarrow>
    triple P' m Q' X'"
  unfolding triple_def by (fastforce split: outcome.splits)

lemma triple_wrap_error:
  assumes "triple P m Q X"
  shows "triple P (wrap_error f m) Q X"
proof (rule tripleI)
  fix s r t assume "P s" and w: "wrap_error f m s = (r, t)" and r: "\<forall>a. r \<noteq> Return a"
  then have "m s = (fst (m s), t)" "\<forall>a. fst (m s) \<noteq> Return a"
    by (auto simp: run_wrap_error)
  then show "X t" using triple_other [OF assms \<open>P s\<close>] by blast
qed (use triple_Return [OF assms] in \<open>auto simp: wrap_error_Return_iff\<close>)

section \<open>Lists\<close>

text \<open>\<open>xs[i]\<close>, which panics out of range.\<close>

definition at_index :: "'a list \<Rightarrow> nat \<Rightarrow> 'a option" where
  "at_index xs i = (if i < length xs then Some (xs ! i) else None)"

lemma at_index_Some [simp]: "i < length xs \<Longrightarrow> at_index xs i = Some (xs ! i)"
  by (simp add: at_index_def)

lemma at_index_None [simp]: "length xs \<le> i \<Longrightarrow> at_index xs i = None"
  by (simp add: at_index_def)

lemma find_Some_iff_in: "find P xs = Some x \<Longrightarrow> x \<in> set xs \<and> P x"
  by (induction xs) (auto split: if_splits)

lemma find_None_iff_all: "find P xs = None \<longleftrightarrow> (\<forall>x \<in> set xs. \<not> P x)"
  by (induction xs) auto

end
