(* ===== verification/Comet_Types.thy ===== *)
theory Comet_Types
  imports Prelude
begin

text \<open>
  The data CometMock exchanges with CometBFT and with the applications, with the field
  names the Go source uses, and the record \<open>env\<close> of everything the source calls but does
  not define: the CometBFT library, the ABCI applications behind their clients, the system
  clock and the iteration order of Go maps. Every definition of the model that reaches
  outside the repository takes an \<open>env\<close> as its first argument; nothing about these functions
  is assumed here.
  Values the program only carries (keys, part sets, results, the header fields it never
  reads) are byte strings. Bytes are HOL characters, so \<open>[]byte\<close> and \<open>string\<close> are both \<open>string\<close>.
\<close>

type_synonym bytes = string
type_synonym tx = bytes

text \<open>An instant is the number of nanoseconds since the Unix epoch, a duration an \<open>int64\<close> of nanoseconds.\<close>

type_synonym time = int
type_synonym duration = int

definition nano_second :: duration where "nano_second = 1000000000"

definition nano_millisecond :: duration where "nano_millisecond = 1000000"

text \<open>The zero \<open>time.Time\<close>: January 1, year 1, 00:00:00 UTC.\<close>

definition zero_time :: time where "zero_time = - 62135596800 * 1000000000"

section \<open>Validators, votes, commits, blocks\<close>

record validator =
  val_Address :: bytes
  val_PubKey :: bytes
  val_VotingPower :: int
  val_ProposerPriority :: int

record validator_set =
  vs_Validators :: "validator list"
  vs_Proposer :: "validator option"

record block_id =
  bid_Hash :: bytes
  bid_PartSetHeader :: bytes

record commit_sig =
  cs_BlockIDFlag :: int
  cs_ValidatorAddress :: bytes
  cs_Timestamp :: time
  cs_Signature :: bytes

record ext_commit_sig = commit_sig +
  ecs_Extension :: bytes
  ecs_ExtensionSignature :: bytes

record commit =
  cm_Height :: int
  cm_Round :: int
  cm_BlockID :: block_id
  cm_Signatures :: "commit_sig list"

record ext_commit =
  ec_Height :: int
  ec_Round :: int
  ec_BlockID :: block_id
  ec_ExtendedSignatures :: "ext_commit_sig list"

record header =
  hd_Height :: int
  hd_Time :: time
  hd_AppHash :: bytes
  hd_ProposerAddress :: bytes
  hd_NextValidatorsHash :: bytes
  hd_other :: bytes

text \<open>\<open>types.Vote\<close> and \<open>cmtproto.Vote\<close> have the same fields.\<close>

record vote =
  vt_Type :: int
  vt_Height :: int
  vt_Round :: int
  vt_BlockID :: block_id
  vt_Timestamp :: time
  vt_ValidatorAddress :: bytes
  vt_ValidatorIndex :: int
  vt_Signature :: bytes
  vt_Extension :: bytes
  vt_ExtensionSignature :: bytes

record signed_header =
  sh_Header :: header
  sh_Commit :: commit

record light_block =
  lb_SignedHeader :: signed_header
  lb_ValidatorSet :: validator_set

record duplicate_vote_evidence =
  dve_VoteA :: vote
  dve_VoteB :: vote
  dve_TotalVotingPower :: int
  dve_ValidatorPower :: int
  dve_Timestamp :: time

record light_client_attack_evidence =
  lcae_TotalVotingPower :: int
  lcae_Timestamp :: time
  lcae_ByzantineValidators :: "validator list"
  lcae_CommonHeight :: int
  lcae_ConflictingBlock :: light_block

datatype evidence =
    DuplicateVoteEvidence duplicate_vote_evidence
  | LightClientAttackEvidence light_client_attack_evidence

text \<open>\<open>blk_LastCommit\<close> is a pointer, nil in the empty block the program starts from.\<close>

record block =
  blk_Header :: header
  blk_Txs :: "tx list"
  blk_Evidence :: "evidence list"
  blk_LastCommit :: "commit option"

record proposal =
  pr_Height :: int
  pr_Round :: int
  pr_POLRound :: int
  pr_BlockID :: block_id
  pr_Signature :: bytes

text \<open>
  A \<open>types.VoteSet\<close> is an object of the library: here it is its constructor's arguments
  (and which of the two constructors) with the votes added so far, of which the library's
  answers are functions.
\<close>

record vote_set =
  vos_Extended :: bool
  vos_ChainID :: string
  vos_Height :: int
  vos_Round :: int
  vos_Type :: int
  vos_Validators :: validator_set
  vos_Votes :: "vote list"

section \<open>Chain state and consensus parameters\<close>

record abci_params =
  VoteExtensionsEnableHeight :: int

record consensus_params =
  cp_ABCI :: abci_params
  cp_ValidatorPubKeyTypes :: "string list"
  cp_VersionApp :: int
  cp_other :: bytes

record comet_version =
  ver_ConsensusBlock :: int
  ver_ConsensusApp :: int
  ver_Software :: string

record comet_state =
  st_Version :: comet_version
  st_ChainID :: string
  st_InitialHeight :: int
  st_LastBlockHeight :: int
  st_LastBlockID :: block_id
  st_LastBlockTime :: time
  st_NextValidators :: validator_set
  st_Validators :: validator_set
  st_LastValidators :: validator_set
  st_LastHeightValidatorsChanged :: int
  st_ConsensusParams :: consensus_params
  st_LastHeightConsensusParamsChanged :: int
  st_LastResultsHash :: bytes
  st_AppHash :: bytes

record genesis_validator =
  gv_PubKey :: bytes
  gv_Power :: int

record genesis_doc =
  gd_GenesisTime :: time
  gd_Validators :: "genesis_validator list"
  gd_AppState :: bytes
  gd_other :: bytes

section \<open>ABCI requests and responses\<close>

record validator_update =
  vu_PubKey :: bytes
  vu_Power :: int

record abci_validator =
  av_Address :: bytes
  av_Power :: int

record vote_info =
  vi_Validator :: abci_validator
  vi_BlockIdFlag :: int

record commit_info =
  ci_Round :: int
  ci_Votes :: "vote_info list"

record ext_vote_info =
  evi_Validator :: abci_validator
  evi_BlockIdFlag :: int
  evi_VoteExtension :: bytes
  evi_ExtensionSignature :: bytes

record ext_commit_info =
  eci_Round :: int
  eci_Votes :: "ext_vote_info list"

record response_info = ri_contents :: bytes

record request_init_chain =
  ric_Validators :: "validator_update list"
  ric_InitialHeight :: int
  ric_Time :: time
  ric_ChainId :: string
  ric_ConsensusParams :: bytes
  ric_AppStateBytes :: bytes

record response_init_chain =
  rsi_AppHash :: bytes
  rsi_Validators :: "validator_update list"
  rsi_ConsensusParams :: "bytes option"

datatype check_tx_type = CheckTxType_New | CheckTxType_Recheck

record request_check_tx =
  rct_Tx :: bytes
  rct_Type :: check_tx_type

record response_check_tx =
  rsc_Code :: int
  rsc_Data :: bytes
  rsc_Log :: string
  rsc_Codespace :: string
  rsc_other :: bytes

record request_query =
  rq_Data :: bytes
  rq_Path :: string
  rq_Height :: int
  rq_Prove :: bool

record response_query = rsq_contents :: bytes

record request_prepare_proposal =
  rpp_MaxTxBytes :: int
  rpp_Txs :: "tx list"
  rpp_LocalLastCommit :: ext_commit_info
  rpp_Misbehavior :: "bytes list"
  rpp_Height :: int
  rpp_Time :: time
  rpp_NextValidatorsHash :: bytes
  rpp_ProposerAddress :: bytes

text \<open>\<open>RequestProcessProposal\<close> and \<open>RequestExtendVote\<close> carry the same fields.\<close>

record request_process_proposal =
  rqp_Hash :: bytes
  rqp_Height :: int
  rqp_Time :: time
  rqp_Txs :: "tx list"
  rqp_ProposedLastCommit :: commit_info
  rqp_Misbehavior :: "bytes list"
  rqp_ProposerAddress :: bytes
  rqp_NextValidatorsHash :: bytes

datatype proposal_status = StatusUnknown | StatusAccept | StatusReject

record request_verify_vote_extension =
  rvv_Hash :: bytes
  rvv_ValidatorAddress :: bytes
  rvv_Height :: int
  rvv_VoteExtension :: bytes

record request_finalize_block =
  rfb_Txs :: "tx list"
  rfb_DecidedLastCommit :: commit_info
  rfb_Misbehavior :: "bytes list"
  rfb_Height :: int
  rfb_Hash :: bytes
  rfb_Time :: time
  rfb_ProposerAddress :: bytes
  rfb_NextValidatorsHash :: bytes

record response_finalize_block =
  rsf_Events :: "bytes list"
  rsf_TxResults :: "bytes list"
  rsf_ValidatorUpdates :: "validator_update list"
  rsf_ConsensusParamUpdates :: "bytes option"
  rsf_AppHash :: bytes

record response_commit = rcm_RetainHeight :: int

record tx_result =
  tr_Height :: int
  tr_Index :: int
  tr_Tx :: tx
  tr_Result :: bytes

section \<open>Errors and panics\<close>

text \<open>\<open>MisbehaviourType\<close> of client.go.\<close>

datatype misbehaviour_type = DuplicateVote | Lunatic | Amnesia | Equivocation

text \<open>
  One constructor for each error the source creates, with the values it prints;
  \<open>LibError\<close> is an error value that comes from outside the repository.
\<close>

datatype go_error =
    LibError string
  | ValidatorNotFound string
  | ClientNotFound string
  | SigningStatusNotFound string
  | UnknownMisbehaviour string
  | UnknownLightClientMisbehaviour misbehaviour_type
  | ResponsesNotEqual
  | BlockNotFound int
  | CommitNotFound int
  | StateNotFound int
  | ResponsesNotFound int
  | NegativePower int
  | UnsupportedPubKey string
  | CheckTxError go_error
  | EvidenceError go_error
  | ProposerAppNotFound bytes
  | ProposalPartSetError go_error
  | DecideProposalError go_error
  | CounterpartyError string go_error
  | ProcessProposalError go_error
  | ProposalNotAccepted string
  | SigningStatusError string go_error
  | PrivvalNotFound string
  | SigningVoteError string go_error
  | ExtendingVoteError go_error
  | VoteSignatureError go_error
  | AddingVoteError go_error
  | VoteNotAdded
  | VerifyingCommitError go_error
  | FinalizeBlockError go_error
  | UpdatingStoresError go_error
  | BlockIdError go_error
  | ValidatorUpdatesError go_error
  | ConvertingUpdatesError go_error
  | ChangingValidatorSetError go_error
  | UpdatingParamsError go_error
  | UpdatingStateError go_error
  | UpdatingStateForResultError go_error
  | CommitError go_error
  | NegativeDuration
  | InvalidSigningStatus
  | NumBlocksNotPositive
  | InvalidOrderBy
  | QueryTooLong
  | TxNotFound bytes
  | HeightNotPositive int
  | HeightTooHigh int int
  | PageOutOfRange int int
  | BroadcastTxCommitUnsupported
  | QueryParseError go_error
  | NotEnoughArguments
  | InvalidConnectionMode string
  | JsonMarshalError go_error

datatype go_panic =
    NilDereference
  | IndexOutOfRange
  | LibPanic string
  | CommitSizeMismatch int int
  | ExtCommitSizeMismatch int int
  | CommitAddressMismatch nat
  | ExtensionDataProblem string
  | PrepareProposalPanic go_error
  | ProcessProposalUnknown
  | PartSetPanic string
  | NilProposalBlock
  | VerifyExtensionError go_error
  | VerifyExtensionUnknown
  | VerifyExtensionRejected
  | NonPositivePerPage int
  | SliceOutOfRange
  | FatalError go_error
  | NoRPCError

type_synonym 'a go = "('a, go_error, go_panic) outcome"

section \<open>The environment\<close>

text \<open>
  A result type \<open>string + 'a\<close> is \<open>Inl\<close> for an error (or, for the functions the library
  documents to panic, the panic) and \<open>string option\<close> is the \<open>error\<close> of a call that returns
  nothing else.
\<close>

record valset_lib =
  addr_String :: "bytes \<Rightarrow> string"
  vs_GetByAddress :: "validator_set \<Rightarrow> bytes \<Rightarrow> int \<times> validator option"
  vs_TotalVotingPower :: "validator_set \<Rightarrow> int"
  NewValidatorSet :: "validator list \<Rightarrow> string + validator_set"
  IncrementProposerPriority :: "validator_set \<Rightarrow> int \<Rightarrow> string + validator_set"
  CopyIncrementProposerPriority :: "validator_set \<Rightarrow> int \<Rightarrow> string + validator_set"
  UpdateWithChangeSet :: "validator_set \<Rightarrow> validator list \<Rightarrow> string + validator_set"
  NewValidator :: "bytes \<Rightarrow> int \<Rightarrow> validator"
  TM2PB_ValidatorUpdates :: "validator_set \<Rightarrow> validator_update list"
  PB2TM_ValidatorUpdates :: "validator_update list \<Rightarrow> string + validator list"
  TM2PB_Validator :: "validator \<Rightarrow> abci_validator"
  PubKeyFromProto :: "bytes \<Rightarrow> string + bytes"
  pk_Type :: "bytes \<Rightarrow> string"
  pk_Address :: "bytes \<Rightarrow> bytes"
  pv_GetPubKey :: "string \<Rightarrow> string + bytes"
  IsValidPubkeyType :: "string list \<Rightarrow> string \<Rightarrow> bool"
  cp_Update :: "consensus_params \<Rightarrow> bytes \<Rightarrow> consensus_params"
  cp_ValidateBasic :: "consensus_params \<Rightarrow> string option"
  cp_ToProto :: "consensus_params \<Rightarrow> bytes"
  VoteExtensionsEnabled :: "abci_params \<Rightarrow> int \<Rightarrow> bool"

record block_lib = valset_lib +
  MakeBlock :: "comet_state \<Rightarrow> int \<Rightarrow> tx list \<Rightarrow> commit \<Rightarrow> evidence list \<Rightarrow> bytes \<Rightarrow> block"
  block_Hash :: "block \<Rightarrow> bytes"
  header_Hash :: "header \<Rightarrow> bytes"
  MakePartSet :: "block \<Rightarrow> int \<Rightarrow> string + bytes"
  ps_Header :: "bytes \<Rightarrow> bytes"
  txs_Validate :: "tx list \<Rightarrow> int \<Rightarrow> string option"
  evidence_ToABCI :: "evidence list \<Rightarrow> bytes list"
  ec_ToCommit :: "ext_commit \<Rightarrow> commit"
  ec_Size :: "ext_commit \<Rightarrow> int"
  commit_Size :: "commit option \<Rightarrow> int"
  EnsureExtension :: "ext_commit_sig \<Rightarrow> bool \<Rightarrow> string option"
  deepcopy_Anything :: "block \<Rightarrow> string + block"
  TxResultsHash :: "bytes list \<Rightarrow> bytes"
  HashFromByteSlices_nil :: bytes
  MaxBlockSizeBytes :: int
  MaxTotalVotingPower :: int
  BlockPartSizeBytes :: int
  BlockIDFlagAbsent :: int
  PrecommitType :: int
  CodeTypeOK :: int

record vote_lib = block_lib +
  SignVote :: "string \<Rightarrow> string \<Rightarrow> vote \<Rightarrow> string option \<times> vote"
  SignProposal :: "string \<Rightarrow> string \<Rightarrow> proposal \<Rightarrow> string + bytes"
  vote_ToProto :: "vote \<Rightarrow> vote"
  VoteFromProto :: "vote \<Rightarrow> string + vote"
  vote_ValidateBasic :: "vote \<Rightarrow> string option"
  AddVote :: "vote_set \<Rightarrow> vote \<Rightarrow> bool \<times> string option"
  MakeExtendedCommit :: "vote_set \<Rightarrow> abci_params \<Rightarrow> string + ext_commit"
  VerifyCommitLightTrusting :: "validator_set \<Rightarrow> string \<Rightarrow> commit \<Rightarrow> int \<times> int \<Rightarrow> string option"
  lb_ValidateBasic :: "light_block \<Rightarrow> string \<Rightarrow> string option"

record rpc_lib = vote_lib +
  cmtquery_New :: "string \<Rightarrow> string + bytes"
  tx_Hash :: "tx \<Rightarrow> bytes"
  txs_Proof :: "tx list \<Rightarrow> int \<Rightarrow> string + bytes"
  PubKeyToID :: "bytes \<Rightarrow> string"
  P2PProtocol :: int
  EventBus_Start :: "string option"
  IndexerService_Start :: "string option"

text \<open>
  The part of the environment with a state of its own, of type \<open>'w\<close>: the applications, reached
  through the handle of their ABCI client, the clock, and \<open>map_order\<close>, which gives the order
  in which one \<open>range\<close> loop visits the keys of a map.
\<close>

record 'w env = rpc_lib +
  app_Info :: "string \<Rightarrow> 'w \<Rightarrow> (string + response_info) \<times> 'w"
  app_InitChain :: "string \<Rightarrow> request_init_chain \<Rightarrow> 'w \<Rightarrow> (string + response_init_chain) \<times> 'w"
  app_CheckTx :: "string \<Rightarrow> request_check_tx \<Rightarrow> 'w \<Rightarrow> (string + response_check_tx) \<times> 'w"
  app_Query :: "string \<Rightarrow> request_query \<Rightarrow> 'w \<Rightarrow> (string + response_query) \<times> 'w"
  app_PrepareProposal :: "string \<Rightarrow> request_prepare_proposal \<Rightarrow> 'w \<Rightarrow> (string + tx list) \<times> 'w"
  app_ProcessProposal ::
    "string \<Rightarrow> request_process_proposal \<Rightarrow> 'w \<Rightarrow> (string + proposal_status) \<times> 'w"
  app_ExtendVote :: "string \<Rightarrow> request_process_proposal \<Rightarrow> 'w \<Rightarrow> (string + bytes) \<times> 'w"
  app_VerifyVoteExtension ::
    "string \<Rightarrow> request_verify_vote_extension \<Rightarrow> 'w \<Rightarrow> (string + proposal_status) \<times> 'w"
  app_FinalizeBlock ::
    "string \<Rightarrow> request_finalize_block \<Rightarrow> 'w \<Rightarrow> (string + response_finalize_block) \<times> 'w"
  app_Commit :: "string \<Rightarrow> 'w \<Rightarrow> (string + response_commit) \<times> 'w"
  BlockIndex_Search :: "bytes \<Rightarrow> 'w \<Rightarrow> string + int list"
  TxIndex_Get :: "bytes \<Rightarrow> 'w \<Rightarrow> string + tx_result option"
  TxIndex_Search :: "bytes \<Rightarrow> 'w \<Rightarrow> string + tx_result list"
  NewProposal :: "int \<Rightarrow> int \<Rightarrow> int \<Rightarrow> block_id \<Rightarrow> 'w \<Rightarrow> proposal"
  time_Now :: "'w \<Rightarrow> time \<times> 'w"
  map_order :: "string list \<Rightarrow> 'w \<Rightarrow> string list \<times> 'w"

end
