(* ===== verification/Sample_Env.thy ===== *)
theory Sample_Env
  imports Comet_Types
begin

text \<open>
  One concrete environment, small enough to evaluate: a faithful-in-outline CometBFT (blocks carry
  what \<open>MakeBlock\<close> is given, hashes are tags, a commit needs more than two thirds of the voting power)
  and applications that accept everything except the transaction \<open>''bad''\<close>. Its state is the reading
  of the clock. It only serves to show, at concrete inputs, that the hypotheses the properties
  put on the environment can hold together; no property is about it. A scenario that needs
  another answer is this environment with one field replaced.
\<close>

definition sample_power :: "validator list \<Rightarrow> int" where
  "sample_power vals = sum_list (map val_VotingPower vals)"

fun sample_find :: "int \<Rightarrow> validator list \<Rightarrow> bytes \<Rightarrow> int \<times> validator option" where
  "sample_find i [] a = (- 1, None)"
| "sample_find i (v # vs) a = (if val_Address v = a then (i, Some v) else sample_find (i + 1) vs a)"

definition sample_valset :: "validator list \<Rightarrow> validator_set" where
  "sample_valset vals =
     \<lparr>vs_Validators = vals, vs_Proposer = (case vals of [] \<Rightarrow> None | v # _ \<Rightarrow> Some v)\<rparr>"

text \<open>The proposer moves on to the next validator of the list.\<close>

definition sample_rotate :: "validator_set \<Rightarrow> validator_set" where
  "sample_rotate vs = (case vs_Validators vs of
      [] \<Rightarrow> vs
    | v # _ \<Rightarrow> vs\<lparr>vs_Proposer :=
        (case dropWhile (\<lambda>w. Some w \<noteq> vs_Proposer vs) (vs_Validators vs) of
           _ # w # _ \<Rightarrow> Some w | _ \<Rightarrow> Some v)\<rparr>)"

definition sample_validator :: "bytes \<Rightarrow> int \<Rightarrow> validator" where
  "sample_validator key pow =
     \<lparr>val_Address = key, val_PubKey = key, val_VotingPower = pow, val_ProposerPriority = 0\<rparr>"

text \<open>A change of power 0 removes a validator.\<close>

definition sample_change :: "validator_set \<Rightarrow> validator list \<Rightarrow> string + validator_set" where
  "sample_change vs changes =
     (let keep = filter (\<lambda>v. val_Address v \<notin> set (map val_Address changes)) (vs_Validators vs);
          vals = keep @ filter (\<lambda>v. val_VotingPower v \<noteq> 0) changes
      in if vals = [] then Inl ''empty validator set'' else Inr (vs\<lparr>vs_Validators := vals\<rparr>))"

definition sample_block_of ::
    "comet_state \<Rightarrow> int \<Rightarrow> tx list \<Rightarrow> commit \<Rightarrow> evidence list \<Rightarrow> bytes \<Rightarrow> block" where
  "sample_block_of st h txs c evs proposer =
     \<lparr>blk_Header = \<lparr>hd_Height = h, hd_Time = st_LastBlockTime st, hd_AppHash = st_AppHash st,
        hd_ProposerAddress = proposer, hd_NextValidatorsHash = ''nv'', hd_other = []\<rparr>,
      blk_Txs = txs, blk_Evidence = evs, blk_LastCommit = Some c\<rparr>"

definition sample_sig_of :: "vote list \<Rightarrow> nat \<times> validator \<Rightarrow> ext_commit_sig" where
  "sample_sig_of votes iv =
     (case find (\<lambda>v. vt_ValidatorIndex v = int (fst iv)) votes of
        None \<Rightarrow> \<lparr>cs_BlockIDFlag = 1, cs_ValidatorAddress = [], cs_Timestamp = 0, cs_Signature = [],
                ecs_Extension = [], ecs_ExtensionSignature = []\<rparr>
      | Some v \<Rightarrow> \<lparr>cs_BlockIDFlag = 2, cs_ValidatorAddress = vt_ValidatorAddress v,
                cs_Timestamp = vt_Timestamp v, cs_Signature = vt_Signature v,
                ecs_Extension = vt_Extension v, ecs_ExtensionSignature = vt_ExtensionSignature v\<rparr>)"

definition sample_ext_commit :: "vote_set \<Rightarrow> abci_params \<Rightarrow> string + ext_commit" where
  "sample_ext_commit vos ap =
     (let vals = vs_Validators (vos_Validators vos);
          signed = filter (\<lambda>v. val_Address v \<in> set (map vt_ValidatorAddress (vos_Votes vos))) vals
      in case vos_Votes vos of
           v # _ \<Rightarrow> if 3 * sample_power signed > 2 * sample_power vals
             then Inr \<lparr>ec_Height = vos_Height vos, ec_Round = vos_Round vos, ec_BlockID = vt_BlockID v,
                       ec_ExtendedSignatures = map (sample_sig_of (vos_Votes vos)) (enumerate 0 vals)\<rparr>
             else Inl ''no +2/3''
         | [] \<Rightarrow> Inl ''no +2/3'')"

definition sample_to_commit :: "ext_commit \<Rightarrow> commit" where
  "sample_to_commit ec =
     \<lparr>cm_Height = ec_Height ec, cm_Round = ec_Round ec, cm_BlockID = ec_BlockID ec,
      cm_Signatures = map commit_sig.truncate (ec_ExtendedSignatures ec)\<rparr>"

definition sample_finalize :: "request_finalize_block \<Rightarrow> response_finalize_block" where
  "sample_finalize req =
     \<lparr>rsf_Events = [], rsf_TxResults = map (\<lambda>_. ''ok'') (rfb_Txs req), rsf_ValidatorUpdates = [],
      rsf_ConsensusParamUpdates = None, rsf_AppHash = ''app''\<rparr>"

definition sample_env :: "int env" where
  "sample_env =
     \<lparr>addr_String = (\<lambda>a. a),
      vs_GetByAddress = (\<lambda>vs a. sample_find 0 (vs_Validators vs) a),
      vs_TotalVotingPower = (\<lambda>vs. sample_power (vs_Validators vs)),
      NewValidatorSet = (\<lambda>vals. Inr (sample_valset vals)),
      IncrementProposerPriority = (\<lambda>vs n. Inr (sample_rotate vs)),
      CopyIncrementProposerPriority = (\<lambda>vs n. Inr (sample_rotate vs)),
      UpdateWithChangeSet = sample_change,
      NewValidator = sample_validator,
      TM2PB_ValidatorUpdates = (\<lambda>vs. map (\<lambda>v. \<lparr>vu_PubKey = val_PubKey v, vu_Power = val_VotingPower v\<rparr>)
          (vs_Validators vs)),
      PB2TM_ValidatorUpdates = (\<lambda>us. Inr (map (\<lambda>u. sample_validator (vu_PubKey u) (vu_Power u)) us)),
      TM2PB_Validator = (\<lambda>v. \<lparr>av_Address = val_Address v, av_Power = val_VotingPower v\<rparr>),
      PubKeyFromProto = (\<lambda>k. Inr k),
      pk_Type = (\<lambda>k. ''ed25519''),
      pk_Address = (\<lambda>k. k),
      pv_GetPubKey = (\<lambda>pv. Inr pv),
      IsValidPubkeyType = (\<lambda>ts t. t \<in> set ts),
      cp_Update = (\<lambda>cp u. cp\<lparr>cp_other := u\<rparr>),
      cp_ValidateBasic = (\<lambda>cp. None),
      cp_ToProto = cp_other,
      VoteExtensionsEnabled = (\<lambda>ap h. VoteExtensionsEnableHeight ap > 0 \<and> VoteExtensionsEnableHeight ap \<le> h),
      MakeBlock = sample_block_of,
      block_Hash = (\<lambda>b. ''H''),
      header_Hash = (\<lambda>h. ''H''),
      MakePartSet = (\<lambda>b n. Inr (if n = 2 then ''two'' else ''full'')),
      ps_Header = (\<lambda>ps. ps),
      txs_Validate = (\<lambda>txs n. None),
      evidence_ToABCI = map (\<lambda>e. case e of DuplicateVoteEvidence _ \<Rightarrow> ''dup'' | _ \<Rightarrow> ''lca''),
      ec_ToCommit = sample_to_commit,
      ec_Size = (\<lambda>ec. int (length (ec_ExtendedSignatures ec))),
      commit_Size = (\<lambda>c. case c of None \<Rightarrow> 0 | Some c \<Rightarrow> int (length (cm_Signatures c))),
      EnsureExtension = (\<lambda>ecs b. None),
      deepcopy_Anything = (\<lambda>b. Inr b),
      TxResultsHash = concat,
      HashFromByteSlices_nil = ''nil'',
      MaxBlockSizeBytes = 104857600,
      MaxTotalVotingPower = 1152921504606846975,
      BlockPartSizeBytes = 65536,
      BlockIDFlagAbsent = 1,
      PrecommitType = 2,
      CodeTypeOK = 0,
      SignVote = (\<lambda>pv chain v. (None, v\<lparr>vt_Signature := pv\<rparr>)),
      SignProposal = (\<lambda>pv chain p. Inr pv),
      vote_ToProto = (\<lambda>v. v),
      VoteFromProto = (\<lambda>v. Inr v),
      vote_ValidateBasic = (\<lambda>v. None),
      AddVote = (\<lambda>vos v. (True, None)),
      MakeExtendedCommit = sample_ext_commit,
      VerifyCommitLightTrusting = (\<lambda>vs chain c f. None),
      lb_ValidateBasic = (\<lambda>lb chain. None),
      cmtquery_New = (\<lambda>q. Inr q),
      tx_Hash = (\<lambda>tx. tx),
      txs_Proof = (\<lambda>txs i. Inr ''proof''),
      PubKeyToID = (\<lambda>k. k),
      P2PProtocol = 8,
      EventBus_Start = None,
      IndexerService_Start = None,
      app_Info = (\<lambda>c w. (Inr \<lparr>ri_contents = ''info''\<rparr>, w)),
      app_InitChain = (\<lambda>c r w. (Inr \<lparr>rsi_AppHash = ''app0'', rsi_Validators = ric_Validators r,
          rsi_ConsensusParams = None\<rparr>, w)),
      app_CheckTx = (\<lambda>c r w. (Inr \<lparr>rsc_Code = (if rct_Tx r = ''bad'' then 1 else 0), rsc_Data = [],
          rsc_Log = [], rsc_Codespace = [], rsc_other = []\<rparr>, w)),
      app_Query = (\<lambda>c r w. (Inr \<lparr>rsq_contents = rq_Data r\<rparr>, w)),
      app_PrepareProposal = (\<lambda>c r w. (Inr (rpp_Txs r), w)),
      app_ProcessProposal = (\<lambda>c r w. (Inr StatusAccept, w)),
      app_ExtendVote = (\<lambda>c r w. (Inr ''ext'', w)),
      app_VerifyVoteExtension = (\<lambda>c r w. (Inr StatusAccept, w)),
      app_FinalizeBlock = (\<lambda>c r w. (Inr (sample_finalize r), w)),
      app_Commit = (\<lambda>c w. (Inr \<lparr>rcm_RetainHeight = 0\<rparr>, w)),
      BlockIndex_Search = (\<lambda>q w. Inr [1]),
      TxIndex_Get = (\<lambda>h w. Inr None),
      TxIndex_Search = (\<lambda>q w. Inr
        [\<lparr>tr_Height = 1, tr_Index = 1, tr_Tx = ''b'', tr_Result = []\<rparr>,
         \<lparr>tr_Height = 1, tr_Index = 0, tr_Tx = ''a'', tr_Result = []\<rparr>]),
      NewProposal = (\<lambda>h r pol bid w. \<lparr>pr_Height = h, pr_Round = r, pr_POLRound = pol, pr_BlockID = bid,
          pr_Signature = []\<rparr>),
      time_Now = (\<lambda>w. (w, w + 1)),
      map_order = (\<lambda>ks w. (ks, w))\<rparr>"

lemmas sample_defs = sample_env_def sample_power_def sample_valset_def sample_rotate_def
  sample_validator_def sample_change_def sample_block_of_def sample_sig_of_def sample_ext_commit_def
  sample_to_commit_def sample_finalize_def commit_sig.defs

text \<open>A commit of one validator and a block that carries it, for the witnesses.\<close>

definition sample_ec :: "int \<Rightarrow> ext_commit" where
  "sample_ec h = \<lparr>ec_Height = h, ec_Round = 0, ec_BlockID = \<lparr>bid_Hash = ''H'', bid_PartSetHeader = ''full''\<rparr>,
     ec_ExtendedSignatures = [\<lparr>cs_BlockIDFlag = 2, cs_ValidatorAddress = ''v1'', cs_Timestamp = 0,
       cs_Signature = ''s'', ecs_Extension = ''x'', ecs_ExtensionSignature = []\<rparr>]\<rparr>"

definition sample_block :: "int \<Rightarrow> block" where
  "sample_block h = \<lparr>blk_Header = \<lparr>hd_Height = h, hd_Time = 0, hd_AppHash = [], hd_ProposerAddress = [],
      hd_NextValidatorsHash = [], hd_other = []\<rparr>, blk_Txs = [], blk_Evidence = [],
      blk_LastCommit = Some (sample_to_commit (sample_ec (h - 1)))\<rparr>"

lemma sample_block_LastCommit: "blk_LastCommit (sample_block h) = Some (sample_to_commit (sample_ec (h - 1)))"
  by (simp add: sample_block_def)

definition sample_state :: "validator list \<Rightarrow> int \<Rightarrow> comet_state" where
  "sample_state vals h =
     \<lparr>st_Version = \<lparr>ver_ConsensusBlock = 11, ver_ConsensusApp = 0, ver_Software = []\<rparr>,
      st_ChainID = ''c'', st_InitialHeight = 1, st_LastBlockHeight = h,
      st_LastBlockID = \<lparr>bid_Hash = [], bid_PartSetHeader = []\<rparr>, st_LastBlockTime = 0,
      st_NextValidators = sample_valset vals, st_Validators = sample_valset vals,
      st_LastValidators = sample_valset vals, st_LastHeightValidatorsChanged = 1,
      st_ConsensusParams = \<lparr>cp_ABCI = \<lparr>VoteExtensionsEnableHeight = 0\<rparr>,
        cp_ValidatorPubKeyTypes = [''ed25519''], cp_VersionApp = 0, cp_other = []\<rparr>,
      st_LastHeightConsensusParamsChanged = 1, st_LastResultsHash = [], st_AppHash = []\<rparr>"

end
