(* ===== verification/Time_Handler.thy ===== *)
theory Time_Handler
  imports Comet_Types
begin

text \<open>
  \<open>abci_client/time_handler.go\<close>: the two implementations of the \<open>TimeHandler\<close> interface.
  The instant that \<open>time.Now()\<close> reads is an argument of the methods that read it. The mutexes
  of the handlers are released by \<open>defer\<close> on every path, so a method is one atomic step.
  \<open>block_clock\<close> is the interface's contract (\<open>AdvanceTime\<close> shifts the following block by
  the duration, and answers with the time that block would have); both handlers are shown to meet it.
\<close>

section \<open>The two handlers\<close>

definition time_Add :: "time \<Rightarrow> duration \<Rightarrow> time" where
  "time_Add t d = t + d"

definition time_Sub :: "time \<Rightarrow> time \<Rightarrow> duration" where
  "time_Sub t u = sat64 (t - u)"

record system_clock_time_handler =
  sc_curOffset :: duration

record fixed_block_time_handler =
  fb_blockTime :: duration
  fb_curBlockOffset :: duration
  fb_lastBlockTimestamp :: time

definition NewSystemClockTimeHandler :: "time \<Rightarrow> time \<Rightarrow> system_clock_time_handler" where
  "NewSystemClockTimeHandler now initialTimestamp =
     \<lparr>sc_curOffset = time_Sub now initialTimestamp\<rparr>"

definition sc_GetBlockTime ::
    "system_clock_time_handler \<Rightarrow> time \<Rightarrow> time \<Rightarrow> time \<times> system_clock_time_handler" where
  "sc_GetBlockTime s now lastBlockTimestamp = (time_Add now (sc_curOffset s), s)"

definition sc_AdvanceTime ::
    "system_clock_time_handler \<Rightarrow> time \<Rightarrow> duration \<Rightarrow> time \<times> system_clock_time_handler" where
  "sc_AdvanceTime s now d =
     (let s' = s\<lparr>sc_curOffset := i64 (sc_curOffset s + d)\<rparr>
      in (time_Add now (sc_curOffset s'), s'))"

definition NewFixedBlockTimeHandler :: "duration \<Rightarrow> fixed_block_time_handler" where
  "NewFixedBlockTimeHandler blockTime =
     \<lparr>fb_blockTime = blockTime, fb_curBlockOffset = 0, fb_lastBlockTimestamp = zero_time\<rparr>"

definition fb_GetBlockTime ::
    "fixed_block_time_handler \<Rightarrow> time \<Rightarrow> time \<times> fixed_block_time_handler" where
  "fb_GetBlockTime f lastBlockTimestamp =
     (let res = time_Add lastBlockTimestamp (i64 (fb_blockTime f + fb_curBlockOffset f))
      in (res, f\<lparr>fb_curBlockOffset := 0, fb_lastBlockTimestamp := res\<rparr>))"

definition fb_AdvanceTime ::
    "fixed_block_time_handler \<Rightarrow> duration \<Rightarrow> time \<times> fixed_block_time_handler" where
  "fb_AdvanceTime f d =
     (let f' = f\<lparr>fb_curBlockOffset := i64 (fb_curBlockOffset f + d)\<rparr>
      in (time_Add (fb_lastBlockTimestamp f') (i64 (fb_blockTime f' + fb_curBlockOffset f')), f'))"

text \<open>A variable of the interface type holds one of the two.\<close>

datatype time_handler =
    SystemClockTimeHandler system_clock_time_handler
  | FixedBlockTimeHandler fixed_block_time_handler

text \<open>A run of a fixed-time chain: blocks and time advances in the order they happen.\<close>

datatype time_op = ProduceBlock | Advance duration

fun fb_run :: "fixed_block_time_handler \<times> time \<Rightarrow> time_op list \<Rightarrow> fixed_block_time_handler \<times> time"
  where
  "fb_run (f, prev) [] = (f, prev)"
| "fb_run (f, prev) (ProduceBlock # ops) =
     (let (t, f') = fb_GetBlockTime f prev in fb_run (f', t) ops)"
| "fb_run (f, prev) (Advance d # ops) = fb_run (snd (fb_AdvanceTime f d), prev) ops"

fun advanced :: "time_op list \<Rightarrow> int" where
  "advanced [] = 0"
| "advanced (ProduceBlock # ops) = advanced ops"
| "advanced (Advance d # ops) = d + advanced ops"

fun blocks_in :: "time_op list \<Rightarrow> nat" where
  "blocks_in [] = 0"
| "blocks_in (ProduceBlock # ops) = Suc (blocks_in ops)"
| "blocks_in (Advance d # ops) = blocks_in ops"

fun forward_ops :: "time_op list \<Rightarrow> bool" where
  "forward_ops [] = True"
| "forward_ops (ProduceBlock # ops) = forward_ops ops"
| "forward_ops (Advance d # ops) = (0 \<le> d \<and> forward_ops ops)"

section \<open>The contract of the interface\<close>

text \<open>
  \<open>room h d\<close> says that the handler can take another \<open>d\<close> without overflow; \<open>in_sync h prev\<close>
  that it has seen the last block, which the answer of \<open>AdvanceTime\<close> depends on.
\<close>

locale block_clock =
  fixes get_time :: "'h \<Rightarrow> time \<Rightarrow> time \<Rightarrow> time \<times> 'h"
    and advance :: "'h \<Rightarrow> time \<Rightarrow> duration \<Rightarrow> time \<times> 'h"
    and room :: "'h \<Rightarrow> duration \<Rightarrow> bool"
    and in_sync :: "'h \<Rightarrow> time \<Rightarrow> bool"
  assumes advance_shifts: "room h d \<Longrightarrow>
      fst (get_time (snd (advance h now d)) now' prev) = fst (get_time h now' prev) + d"
    and advance_predicts: "in_sync h prev \<Longrightarrow>
      fst (advance h now d) = fst (get_time (snd (advance h now d)) now prev)"
    and advance_in_sync: "in_sync h prev \<Longrightarrow> in_sync (snd (advance h now d)) prev"
    and get_time_in_sync: "get_time h now prev = (t, h') \<Longrightarrow> in_sync h' t"
    and room_split: "0 \<le> d \<Longrightarrow> 0 \<le> e \<Longrightarrow> room h (d + e) \<Longrightarrow>
      room h d \<and> room (snd (advance h now d)) e"
begin

lemma advances_shift:
  assumes "\<forall>d \<in> set ds. 0 \<le> d" and "room h (sum_list ds)"
  shows "fst (get_time (foldl (\<lambda>h d. snd (advance h now d)) h ds) now' prev)
    = fst (get_time h now' prev) + sum_list ds"
  using assms
proof (induction ds arbitrary: h)
  case Nil
  then show ?case by simp
next
  case (Cons d ds)
  let ?h = "snd (advance h now d)"
  have "0 \<le> sum_list ds" using Cons.prems(1) by (intro sum_list_nonneg) auto
  then have room: "room h d" "room ?h (sum_list ds)"
    using room_split [of d "sum_list ds" h now] Cons.prems by auto
  have "fst (get_time (foldl (\<lambda>h d. snd (advance h now d)) ?h ds) now' prev)
      = fst (get_time ?h now' prev) + sum_list ds"
    by (rule Cons.IH) (use Cons.prems room in auto)
  then show ?case by (simp add: advance_shifts [OF room(1)])
qed

lemma prediction_after_block:
  assumes "get_time h now prev = (t, h')"
  shows "fst (advance h' now' d) = fst (get_time (snd (advance h' now' d)) now' t)"
  by (rule advance_predicts) (rule get_time_in_sync [OF assms])

end

definition sc_room :: "system_clock_time_handler \<Rightarrow> duration \<Rightarrow> bool" where
  "sc_room s d \<longleftrightarrow> in64 (sc_curOffset s) \<and> in64 (sc_curOffset s + d)"

definition fb_room :: "fixed_block_time_handler \<Rightarrow> duration \<Rightarrow> bool" where
  "fb_room f d \<longleftrightarrow> in64 (fb_curBlockOffset f) \<and> in64 (fb_curBlockOffset f + d)
     \<and> in64 (fb_blockTime f + fb_curBlockOffset f) \<and> in64 (fb_blockTime f + fb_curBlockOffset f + d)"

lemmas clock_defs = sc_GetBlockTime_def sc_AdvanceTime_def fb_GetBlockTime_def fb_AdvanceTime_def
  time_Add_def time_Sub_def sc_room_def fb_room_def NewSystemClockTimeHandler_def
  NewFixedBlockTimeHandler_def Let_def

interpretation system_clock: block_clock sc_GetBlockTime sc_AdvanceTime sc_room "\<lambda>s prev. True"
  by unfold_locales (auto simp: clock_defs in64_def)

interpretation fixed_clock: block_clock "\<lambda>f now prev. fb_GetBlockTime f prev"
    "\<lambda>f now d. fb_AdvanceTime f d" fb_room "\<lambda>f prev. fb_lastBlockTimestamp f = prev"
proof (unfold_locales, goal_cases)
  case (1 h d now now' prev)
  then show ?case by (simp add: clock_defs algebra_simps)
qed (auto simp: clock_defs in64_def)

section \<open>Properties of the handlers\<close>

lemma advanced_nonneg: "forward_ops ops \<Longrightarrow> 0 \<le> advanced ops"
  by (induction ops rule: forward_ops.induct) auto

lemma fb_run_account:
  assumes "forward_ops ops" and "0 \<le> fb_blockTime f" and "0 \<le> fb_curBlockOffset f"
    and "in64 (fb_blockTime f + fb_curBlockOffset f + advanced ops)"
    and "fb_run (f, prev) ops = (f', prev')"
  shows "fb_blockTime f' = fb_blockTime f \<and>
    prev' + fb_curBlockOffset f'
      = prev + fb_curBlockOffset f + int (blocks_in ops) * fb_blockTime f + advanced ops"
  using assms
proof (induction "(f, prev)" ops arbitrary: f prev rule: fb_run.induct)
  case (1 f prev)
  then show ?case by simp
next
  case (2 f prev ops)
  obtain t f1 where g: "fb_GetBlockTime f prev = (t, f1)" by fastforce
  have nn: "0 \<le> advanced ops" using 2(2) by (simp add: advanced_nonneg)
  have fit: "in64 (fb_blockTime f + fb_curBlockOffset f)"
    using 2(3-5) nn by (auto simp: in64_def)
  have f1: "fb_blockTime f1 = fb_blockTime f" "fb_curBlockOffset f1 = 0"
      "t = prev + (fb_blockTime f + fb_curBlockOffset f)"
    using g fit by (auto simp: clock_defs)
  have "fb_blockTime f' = fb_blockTime f1 \<and>
      prev' + fb_curBlockOffset f' = t + fb_curBlockOffset f1
        + int (blocks_in ops) * fb_blockTime f1 + advanced ops"
    by (rule "2.hyps" [OF g [symmetric] refl])
      (use 2 g f1 nn in \<open>auto simp: in64_def\<close>)
  then show ?case by (simp add: f1 algebra_simps)
next
  case (3 f prev d ops)
  have nn: "0 \<le> d" "0 \<le> advanced ops"
    using 3(2) by (simp_all add: advanced_nonneg)
  have fit: "in64 (fb_curBlockOffset f + d)"
    using 3(3-5) nn by (auto simp: in64_def)
  define f1 where "f1 = snd (fb_AdvanceTime f d)"
  have f1: "fb_blockTime f1 = fb_blockTime f" "fb_curBlockOffset f1 = fb_curBlockOffset f + d"
    using fit by (auto simp: f1_def clock_defs)
  have "fb_blockTime f' = fb_blockTime f1 \<and>
      prev' + fb_curBlockOffset f' = prev + fb_curBlockOffset f1
        + int (blocks_in ops) * fb_blockTime f1 + advanced ops"
    unfolding f1_def
    by (rule "3.hyps") (use 3 f1 nn in \<open>auto simp: f1_def [symmetric] algebra_simps\<close>)
  then show ?case by (simp add: f1 algebra_simps)
qed

text \<open>
  Claim C28. With a fixed block time, the chain's clock is exact: after any sequence of blocks and
  time advances the timestamp of the last block, plus the advance still waiting for the next
  block, is the starting timestamp plus one block time per block plus every duration advanced by.
  (No block loses an advance and none counts one twice, up to the range of \<open>time.Duration\<close>.)
\<close>

theorem fixed_block_time_exact:
  assumes "forward_ops ops" and "0 \<le> bt" and "in64 (bt + advanced ops)"
    and "fb_run (NewFixedBlockTimeHandler bt, start) ops = (f', prev')"
  shows "prev' + fb_curBlockOffset f' = start + int (blocks_in ops) * bt + advanced ops"
  using fb_run_account [OF assms(1) _ _ _ assms(4)] assms(2,3)
  by (simp add: NewFixedBlockTimeHandler_def)

theorem fixed_block_time_exact_witness:
  "\<exists>f'. fb_run (NewFixedBlockTimeHandler 5000, 100)
      [ProduceBlock, Advance 7, Advance 3, ProduceBlock, Advance 9] = (f', 10110)
    \<and> 10110 + fb_curBlockOffset f' = 100 + 2 * 5000 + (19::int)"
proof -
  let ?ops = "[ProduceBlock, Advance 7, Advance 3, ProduceBlock, Advance 9]"
  have fits: "in64 (5000 + advanced ?ops)" by (simp add: in64_def)
  obtain f' where run: "fb_run (NewFixedBlockTimeHandler 5000, 100) ?ops = (f', 10110)"
    by (simp add: clock_defs in64_def)
  show ?thesis
    using run fixed_block_time_exact [OF _ _ fits run] by auto
qed

text \<open>
  \<open>AdvanceTime\<close> adds up on either handler: after any number of non-negative advances, the
  timestamp the next block gets (whatever the clock reads then, whatever the last block was)
  is later by exactly their sum than the timestamp it would have got without them.
\<close>

lemma advances_add_up:
  assumes "\<forall>d \<in> set ds. 0 \<le> d" and "sc_room s (sum_list ds)" and "fb_room f (sum_list ds)"
  shows "fst (sc_GetBlockTime (foldl (\<lambda>h d. snd (sc_AdvanceTime h now d)) s ds) now' prev)
      = fst (sc_GetBlockTime s now' prev) + sum_list ds
    \<and> fst (fb_GetBlockTime (foldl (\<lambda>h d. snd (fb_AdvanceTime h d)) f ds) prev)
      = fst (fb_GetBlockTime f prev) + sum_list ds"
  using system_clock.advances_shift [OF assms(1,2), of now now' prev]
    fixed_clock.advances_shift [OF assms(1,3), of prev]
  by simp

text \<open>
  The timestamp \<open>AdvanceTime\<close> of the fixed handler answers with is the one the next block gets,
  once the handler has produced a block (before that its answer is counted from the zero time).
\<close>

lemma fixed_advance_predicts_next_block:
  assumes "fb_GetBlockTime f prev = (t, f')"
  shows "fst (fb_AdvanceTime f' d) = fst (fb_GetBlockTime (snd (fb_AdvanceTime f' d)) t)"
  using fixed_clock.prediction_after_block [OF assms] .

text \<open>
  The offset of the system clock handler has the opposite sign of what its documentation says.
  A block produced at the instant \<open>now\<close> by a handler created at \<open>now0\<close> for the starting
  timestamp \<open>initial\<close> should be stamped \<open>initial + (now - now0)\<close>; it is stamped
  \<open>2 * (now0 - initial)\<close> later than that, so a chain told to start in the past jumps to the
  future and one told to start in the future jumps back before its own first block.
\<close>

lemma system_clock_offset_reversed:
  assumes "in64 (now0 - initial)"
  shows "fst (sc_GetBlockTime (NewSystemClockTimeHandler now0 initial) now prev)
    = (initial + (now - now0)) + 2 * (now0 - initial)"
  using assms by (simp add: clock_defs)

end
