(* ===== verification/Map_Storage.thy ===== *)
theory Map_Storage
  imports Sample_Env
begin

text \<open>
  \<open>storage/storage.go\<close>: the in-memory store of blocks, commits, states and ABCI responses by
  height. Its four Go maps are allocated on first use, so each is \<open>None\<close> (the nil map) or a
  map. \<open>stateUpdateMutex\<close> is true while a writer holds the lock: a reader or another writer then
  waits, which is the outcome \<open>Blocked\<close>. Readers release their lock by \<open>defer\<close>, so no reader is
  ever seen holding it. \<open>entry_store\<close> is the contract of the \<open>Storage\<close> interface: one map from
  heights to complete entries, which the four maps of \<open>MapStorage\<close> implement.
\<close>

section \<open>MapStorage\<close>

record map_storage =
  stateUpdateMutex :: bool
  ms_blocks :: "(int \<rightharpoonup> block) option"
  ms_commits :: "(int \<rightharpoonup> commit) option"
  ms_states :: "(int \<rightharpoonup> comet_state) option"
  ms_responses :: "(int \<rightharpoonup> response_finalize_block) option"

type_synonym 'a storage_prog = "(map_storage, 'a, go_error, go_panic) prog"

text \<open>\<open>if m.blocks == nil { m.blocks = make(...) }\<close>\<close>

definition made :: "('k \<rightharpoonup> 'v) option \<Rightarrow> ('k \<rightharpoonup> 'v)" where
  "made m = (case m of None \<Rightarrow> Map.empty | Some f \<Rightarrow> f)"

definition empty_MapStorage :: map_storage where
  "empty_MapStorage = \<lparr>stateUpdateMutex = False, ms_blocks = None, ms_commits = None,
     ms_states = None, ms_responses = None\<rparr>"

definition insertBlock :: "int \<Rightarrow> block \<Rightarrow> unit storage_prog" where
  "insertBlock height block = modify (\<lambda>m. m\<lparr>ms_blocks := Some ((made (ms_blocks m))(height \<mapsto> block))\<rparr>)"

definition insertCommit :: "int \<Rightarrow> commit \<Rightarrow> unit storage_prog" where
  "insertCommit height commit =
     modify (\<lambda>m. m\<lparr>ms_commits := Some ((made (ms_commits m))(height \<mapsto> commit))\<rparr>)"

definition insertState :: "int \<Rightarrow> comet_state \<Rightarrow> unit storage_prog" where
  "insertState height state =
     modify (\<lambda>m. m\<lparr>ms_states := Some ((made (ms_states m))(height \<mapsto> state))\<rparr>)"

definition insertResponses :: "int \<Rightarrow> response_finalize_block \<Rightarrow> unit storage_prog" where
  "insertResponses height responses =
     modify (\<lambda>m. m\<lparr>ms_responses := Some ((made (ms_responses m))(height \<mapsto> responses))\<rparr>)"

text \<open>\<open>m.stateUpdateMutex.RLock()\<close>, with the matching \<open>RUnlock\<close> deferred.\<close>

definition RLock :: "unit storage_prog" where
  "RLock = bindP (gets stateUpdateMutex) (\<lambda>held. if held then stuck else ret ())"

definition GetBlock :: "int \<Rightarrow> block storage_prog" where
  "GetBlock height =
     seqP RLock
    (seqP (modify (\<lambda>m. m\<lparr>ms_blocks := Some (made (ms_blocks m))\<rparr>))
    (bindP (gets (\<lambda>m. made (ms_blocks m) height))
       (\<lambda>r. case r of Some block \<Rightarrow> ret block | None \<Rightarrow> throw (BlockNotFound height))))"

definition GetCommit :: "int \<Rightarrow> commit storage_prog" where
  "GetCommit height =
     seqP RLock
    (seqP (modify (\<lambda>m. m\<lparr>ms_commits := Some (made (ms_commits m))\<rparr>))
    (bindP (gets (\<lambda>m. made (ms_commits m) height))
       (\<lambda>r. case r of Some commit \<Rightarrow> ret commit | None \<Rightarrow> throw (CommitNotFound height))))"

definition GetState :: "int \<Rightarrow> comet_state storage_prog" where
  "GetState height =
     seqP RLock
    (seqP (modify (\<lambda>m. m\<lparr>ms_states := Some (made (ms_states m))\<rparr>))
    (bindP (gets (\<lambda>m. made (ms_states m) height))
       (\<lambda>r. case r of Some state \<Rightarrow> ret state | None \<Rightarrow> throw (StateNotFound height))))"

definition GetResponses :: "int \<Rightarrow> response_finalize_block storage_prog" where
  "GetResponses height =
     seqP RLock
    (seqP (modify (\<lambda>m. m\<lparr>ms_responses := Some (made (ms_responses m))\<rparr>))
    (bindP (gets (\<lambda>m. made (ms_responses m) height))
       (\<lambda>r. case r of Some responses \<Rightarrow> ret responses | None \<Rightarrow> throw (ResponsesNotFound height))))"

definition LockBeforeStateUpdate :: "unit storage_prog" where
  "LockBeforeStateUpdate =
     bindP (gets stateUpdateMutex)
       (\<lambda>held. if held then stuck else modify (\<lambda>m. m\<lparr>stateUpdateMutex := True\<rparr>))"

text \<open>Unlocking a lock that is not held is a fatal error of the Go runtime.\<close>

definition UnlockAfterStateUpdate :: "unit storage_prog" where
  "UnlockAfterStateUpdate =
     bindP (gets stateUpdateMutex)
       (\<lambda>held. if held then modify (\<lambda>m. m\<lparr>stateUpdateMutex := False\<rparr>)
          else panic (LibPanic ''sync: Unlock of unlocked RWMutex''))"

definition UpdateStores ::
    "int \<Rightarrow> block \<Rightarrow> commit \<Rightarrow> comet_state \<Rightarrow> response_finalize_block \<Rightarrow> unit storage_prog" where
  "UpdateStores height block commit state responses =
     seqP (insertBlock height block)
    (seqP (insertCommit height commit)
    (seqP (insertState height state)
    (seqP (insertResponses height responses)
    (ret ()))))"

section \<open>The contract: one map of complete entries\<close>

type_synonym entry = "block \<times> commit \<times> comet_state \<times> response_finalize_block"

fun read_as :: "('x \<Rightarrow> 'a) \<Rightarrow> go_error \<Rightarrow> 'x option \<Rightarrow> ('a, go_error, go_panic) outcome" where
  "read_as f e None = Error e"
| "read_as f e (Some x) = Return (f x)"

locale entry_store =
  fixes get_block :: "int \<Rightarrow> ('m, block, go_error, go_panic) prog"
    and get_commit :: "int \<Rightarrow> ('m, commit, go_error, go_panic) prog"
    and get_state :: "int \<Rightarrow> ('m, comet_state, go_error, go_panic) prog"
    and get_responses :: "int \<Rightarrow> ('m, response_finalize_block, go_error, go_panic) prog"
    and lock :: "('m, unit, go_error, go_panic) prog"
    and unlock :: "('m, unit, go_error, go_panic) prog"
    and update :: "int \<Rightarrow> block \<Rightarrow> commit \<Rightarrow> comet_state \<Rightarrow> response_finalize_block
      \<Rightarrow> ('m, unit, go_error, go_panic) prog"
    and locked :: "'m \<Rightarrow> bool"
    and entries :: "'m \<Rightarrow> int \<rightharpoonup> entry"
    and invar :: "'m \<Rightarrow> bool"
  assumes get_block: "invar m \<Longrightarrow> \<not> locked m \<Longrightarrow>
      fst (get_block h m) = read_as fst (BlockNotFound h) (entries m h)"
    and get_commit: "invar m \<Longrightarrow> \<not> locked m \<Longrightarrow>
      fst (get_commit h m) = read_as (fst \<circ> snd) (CommitNotFound h) (entries m h)"
    and get_state: "invar m \<Longrightarrow> \<not> locked m \<Longrightarrow>
      fst (get_state h m) = read_as (fst \<circ> snd \<circ> snd) (StateNotFound h) (entries m h)"
    and get_responses: "invar m \<Longrightarrow> \<not> locked m \<Longrightarrow>
      fst (get_responses h m) = read_as (snd \<circ> snd \<circ> snd) (ResponsesNotFound h) (entries m h)"
    and reads_keep: "keeps (\<lambda>n. invar n \<and> locked n = l \<and> entries n = e) (get_block h)"
      "keeps (\<lambda>n. invar n \<and> locked n = l \<and> entries n = e) (get_commit h)"
      "keeps (\<lambda>n. invar n \<and> locked n = l \<and> entries n = e) (get_state h)"
      "keeps (\<lambda>n. invar n \<and> locked n = l \<and> entries n = e) (get_responses h)"
    and reads_wait: "locked m \<Longrightarrow> get_block h m = (Blocked, m)"
      "locked m \<Longrightarrow> get_commit h m = (Blocked, m)"
      "locked m \<Longrightarrow> get_state h m = (Blocked, m)"
      "locked m \<Longrightarrow> get_responses h m = (Blocked, m)"
    and lock: "invar m \<Longrightarrow> \<not> locked m \<Longrightarrow>
      wpR lock (\<lambda>_ n. invar n \<and> locked n \<and> entries n = entries m) m"
    and lock_waits: "locked m \<Longrightarrow> lock m = (Blocked, m)"
    and unlock: "invar m \<Longrightarrow> locked m \<Longrightarrow>
      wpR unlock (\<lambda>_ n. invar n \<and> \<not> locked n \<and> entries n = entries m) m"
    and update: "invar m \<Longrightarrow> wpR (update h b c s r)
      (\<lambda>_ n. invar n \<and> locked n = locked m \<and> entries n = (entries m)(h \<mapsto> (b, c, s, r))) m"
begin

text \<open>A writer that follows the protocol replaces one entry and leaves the store open.\<close>

lemma write_entry:
  assumes "invar m" "\<not> locked m"
  shows "wpR (seqP lock (seqP (update h b c s r) unlock))
    (\<lambda>_ n. invar n \<and> \<not> locked n \<and> entries n = (entries m)(h \<mapsto> (b, c, s, r))) m"
proof (rule wpR_seqP, rule wpR_mono [OF lock [OF assms]], rule wpR_seqP)
  fix u n assume n: "invar n \<and> locked n \<and> entries n = entries m"
  then have "wpR (update h b c s r)
      (\<lambda>_ k. invar k \<and> locked k = locked n \<and> entries k = (entries n)(h \<mapsto> (b, c, s, r))) n"
    by (intro update) simp
  then show "wpR (update h b c s r) (\<lambda>_. wpR unlock
      (\<lambda>_ k. invar k \<and> \<not> locked k \<and> entries k = (entries m)(h \<mapsto> (b, c, s, r)))) n"
    by (rule wpR_mono) (use n in \<open>auto intro: wpR_mono [OF unlock]\<close>)
qed

text \<open>What a height holds is complete: the four reads all answer from one entry, or all fail.\<close>

lemma reads_agree:
  assumes "invar m" "\<not> locked m"
  shows "(\<exists>b c s r. entries m h = Some (b, c, s, r) \<and> fst (get_block h m) = Return b
      \<and> fst (get_commit h m) = Return c \<and> fst (get_state h m) = Return s
      \<and> fst (get_responses h m) = Return r)
    \<or> (fst (get_block h m) = Error (BlockNotFound h) \<and> fst (get_commit h m) = Error (CommitNotFound h)
      \<and> fst (get_state h m) = Error (StateNotFound h)
      \<and> fst (get_responses h m) = Error (ResponsesNotFound h))"
  using assms by (cases "entries m h") (auto simp: get_block get_commit get_state get_responses)

end

section \<open>MapStorage meets the contract\<close>

text \<open>The four maps hold the same heights.\<close>

definition ms_wf :: "map_storage \<Rightarrow> bool" where
  "ms_wf m \<longleftrightarrow> dom (made (ms_commits m)) = dom (made (ms_blocks m))
     \<and> dom (made (ms_states m)) = dom (made (ms_blocks m))
     \<and> dom (made (ms_responses m)) = dom (made (ms_blocks m))"

definition ms_entries :: "map_storage \<Rightarrow> int \<rightharpoonup> entry" where
  "ms_entries m h = (case (made (ms_blocks m) h, made (ms_commits m) h,
       made (ms_states m) h, made (ms_responses m) h) of
     (Some b, Some c, Some s, Some r) \<Rightarrow> Some (b, c, s, r) | _ \<Rightarrow> None)"

lemma made_simps [simp]: "made None = Map.empty" "made (Some f) = f"
  by (simp_all add: made_def)

lemmas storage_defs = GetBlock_def GetCommit_def GetState_def GetResponses_def RLock_def
  LockBeforeStateUpdate_def UnlockAfterStateUpdate_def UpdateStores_def
  insertBlock_def insertCommit_def insertState_def insertResponses_def

lemma ms_wf_cases:
  assumes "ms_wf m"
  obtains (none) "made (ms_blocks m) h = None" "made (ms_commits m) h = None"
      "made (ms_states m) h = None" "made (ms_responses m) h = None" "ms_entries m h = None"
  | (some) b c s r where "made (ms_blocks m) h = Some b" "made (ms_commits m) h = Some c"
      "made (ms_states m) h = Some s" "made (ms_responses m) h = Some r"
      "ms_entries m h = Some (b, c, s, r)"
proof (cases "made (ms_blocks m) h")
  case None
  then have "h \<notin> dom (made (ms_blocks m))" by (simp add: domIff)
  then have "h \<notin> dom (made (ms_commits m))" "h \<notin> dom (made (ms_states m))"
    "h \<notin> dom (made (ms_responses m))" using assms by (auto simp: ms_wf_def)
  with None show thesis by (intro none) (simp_all add: domIff ms_entries_def)
next
  case (Some b)
  then have "h \<in> dom (made (ms_blocks m))" by auto
  then have "h \<in> dom (made (ms_commits m))" "h \<in> dom (made (ms_states m))"
    "h \<in> dom (made (ms_responses m))" using assms by (auto simp: ms_wf_def)
  then obtain c s r where "made (ms_commits m) h = Some c" "made (ms_states m) h = Some s"
    "made (ms_responses m) h = Some r" by (auto simp: dom_def)
  with Some show thesis by (intro some) (simp_all add: ms_entries_def)
qed

lemma ms_entries_made [simp]:
  "ms_entries (m\<lparr>ms_blocks := Some (made (ms_blocks m))\<rparr>) = ms_entries m"
  "ms_entries (m\<lparr>ms_commits := Some (made (ms_commits m))\<rparr>) = ms_entries m"
  "ms_entries (m\<lparr>ms_states := Some (made (ms_states m))\<rparr>) = ms_entries m"
  "ms_entries (m\<lparr>ms_responses := Some (made (ms_responses m))\<rparr>) = ms_entries m"
  "ms_entries (m\<lparr>stateUpdateMutex := l\<rparr>) = ms_entries m"
  by (auto simp: ms_entries_def fun_eq_iff)

lemma ms_entries_update:
  "ms_entries (m\<lparr>ms_blocks := Some ((made (ms_blocks m))(h \<mapsto> b)),
      ms_commits := Some ((made (ms_commits m))(h \<mapsto> c)), ms_states := Some ((made (ms_states m))(h \<mapsto> s)),
      ms_responses := Some ((made (ms_responses m))(h \<mapsto> r))\<rparr>) = (ms_entries m)(h \<mapsto> (b, c, s, r))"
  by (auto simp: ms_entries_def fun_eq_iff)

lemma run_UpdateStores:
  "UpdateStores h b c s r m = (Return (),
     m\<lparr>ms_blocks := Some ((made (ms_blocks m))(h \<mapsto> b)),
       ms_commits := Some ((made (ms_commits m))(h \<mapsto> c)), ms_states := Some ((made (ms_states m))(h \<mapsto> s)),
       ms_responses := Some ((made (ms_responses m))(h \<mapsto> r))\<rparr>)"
  by (simp add: storage_defs run_seqP)

lemma run_reads:
  "\<not> stateUpdateMutex m \<Longrightarrow> fst (GetBlock h m) = read_as id (BlockNotFound h) (made (ms_blocks m) h)"
  "\<not> stateUpdateMutex m \<Longrightarrow> fst (GetCommit h m) = read_as id (CommitNotFound h) (made (ms_commits m) h)"
  "\<not> stateUpdateMutex m \<Longrightarrow> fst (GetState h m) = read_as id (StateNotFound h) (made (ms_states m) h)"
  "\<not> stateUpdateMutex m \<Longrightarrow>
     fst (GetResponses h m) = read_as id (ResponsesNotFound h) (made (ms_responses m) h)"
  by (simp_all add: storage_defs run_seqP run_bindP split: option.splits)

lemma reads_frame:
  "snd (GetBlock h m) = (if stateUpdateMutex m then m else m\<lparr>ms_blocks := Some (made (ms_blocks m))\<rparr>)"
  "snd (GetCommit h m) = (if stateUpdateMutex m then m else m\<lparr>ms_commits := Some (made (ms_commits m))\<rparr>)"
  "snd (GetState h m) = (if stateUpdateMutex m then m else m\<lparr>ms_states := Some (made (ms_states m))\<rparr>)"
  "snd (GetResponses h m) =
     (if stateUpdateMutex m then m else m\<lparr>ms_responses := Some (made (ms_responses m))\<rparr>)"
  by (simp_all add: storage_defs run_seqP run_bindP split: option.splits)

lemma reads_blocked:
  assumes "stateUpdateMutex m"
  shows "GetBlock h m = (Blocked, m)" "GetCommit h m = (Blocked, m)" "GetState h m = (Blocked, m)"
    "GetResponses h m = (Blocked, m)" "LockBeforeStateUpdate m = (Blocked, m)"
  using assms by (simp_all add: storage_defs run_seqP run_bindP)

interpretation mapStorage: entry_store GetBlock GetCommit GetState GetResponses
    LockBeforeStateUpdate UnlockAfterStateUpdate UpdateStores stateUpdateMutex ms_entries ms_wf
proof (unfold_locales, goal_cases)
  case (1 m h)
  then show ?case by (cases rule: ms_wf_cases [of m h]) (auto simp: run_reads)
next
  case (2 m h)
  then show ?case by (cases rule: ms_wf_cases [of m h]) (auto simp: run_reads)
next
  case (3 m h)
  then show ?case by (cases rule: ms_wf_cases [of m h]) (auto simp: run_reads)
next
  case (4 m h)
  then show ?case by (cases rule: ms_wf_cases [of m h]) (auto simp: run_reads)
next
  case (16 m h b c s r)
  then show ?case
    by (auto simp: wpR_def run_UpdateStores ms_entries_update ms_wf_def)
qed (auto simp: keeps_def reads_frame reads_blocked ms_wf_def LockBeforeStateUpdate_def
    UnlockAfterStateUpdate_def wpR_def run_bindP)

section \<open>Properties of the store\<close>

text \<open>
  Claim C13. A block written by the protocol (lock, update, unlock) is read back, whole, and nothing
  else changes: after writing height \<open>h\<close> to an open store the write has returned, the store is open,
  and for every height each of the four reads answers what was written for \<open>h\<close> and, at any other
  height, what it answered before (the same value or the same not-found error).
\<close>

theorem storage_write_then_read:
  assumes "ms_wf m" and "\<not> stateUpdateMutex m"
  shows "\<exists>n. seqP LockBeforeStateUpdate (seqP (UpdateStores h b c s r) UnlockAfterStateUpdate) m
      = (Return (), n) \<and> ms_wf n \<and> \<not> stateUpdateMutex n \<and>
    (\<forall>h'. fst (GetBlock h' n) = (if h' = h then Return b else fst (GetBlock h' m))
      \<and> fst (GetCommit h' n) = (if h' = h then Return c else fst (GetCommit h' m))
      \<and> fst (GetState h' n) = (if h' = h then Return s else fst (GetState h' m))
      \<and> fst (GetResponses h' n) = (if h' = h then Return r else fst (GetResponses h' m)))"
proof -
  obtain n where run: "seqP LockBeforeStateUpdate (seqP (UpdateStores h b c s r) UnlockAfterStateUpdate) m
      = (Return (), n)" and n: "ms_wf n" "\<not> stateUpdateMutex n"
      "ms_entries n = (ms_entries m)(h \<mapsto> (b, c, s, r))"
    using mapStorage.write_entry [OF assms, of h b c s r] by (auto dest: wpRD)
  then show ?thesis using assms
    by (simp add: mapStorage.get_block mapStorage.get_commit mapStorage.get_state
        mapStorage.get_responses)
qed

theorem storage_write_then_read_witness:
  "\<forall>c s r. \<exists>n. seqP LockBeforeStateUpdate (seqP (UpdateStores 7 (sample_block 7) c s r) UnlockAfterStateUpdate)
      empty_MapStorage = (Return (), n)
    \<and> fst (GetBlock 7 n) = Return (sample_block 7) \<and> fst (GetBlock 8 n) = Error (BlockNotFound 8)"
proof (intro allI)
  fix c s r
  have "ms_wf empty_MapStorage" "\<not> stateUpdateMutex empty_MapStorage"
    "fst (GetBlock 8 empty_MapStorage) = Error (BlockNotFound 8)"
    by (simp_all add: ms_wf_def empty_MapStorage_def run_reads)
  then show "\<exists>n. seqP LockBeforeStateUpdate (seqP (UpdateStores 7 (sample_block 7) c s r)
      UnlockAfterStateUpdate) empty_MapStorage = (Return (), n)
    \<and> fst (GetBlock 7 n) = Return (sample_block 7) \<and> fst (GetBlock 8 n) = Error (BlockNotFound 8)"
    using storage_write_then_read [of empty_MapStorage 7 "sample_block 7" c s r] by fastforce
qed

end
