(* ===== verification/Comet_Utils.thy ===== *)
theory Comet_Utils
  imports Sample_Env
begin

text \<open>
  The package \<open>utils\<close>: block identifiers (blocks.go), transaction lookup (txs.go), vote
  construction (votes.go) and the commit information given to the applications (state.go).
  All of it only computes, so each function returns an outcome: a value, an error or the panic
  of the source.
\<close>

section \<open>blocks.go, txs.go, votes.go\<close>

definition GetBlockIdFromBlock :: "'w env \<Rightarrow> block \<Rightarrow> block_id go" where
  "GetBlockIdFromBlock E block =
     (case MakePartSet E block 2 of
        Inl err \<Rightarrow> Error (LibError err)
      | Inr partSet \<Rightarrow>
          Return \<lparr>bid_Hash = block_Hash E block, bid_PartSetHeader = ps_Header E partSet\<rparr>)"

fun Contains :: "tx list \<Rightarrow> tx \<Rightarrow> bool" where
  "Contains [] tx = False"
| "Contains (ttx # txs) tx = (if ttx = tx then True else Contains txs tx)"

definition MakeVote :: "'w env \<Rightarrow> string \<Rightarrow> string \<Rightarrow> int \<Rightarrow> int \<Rightarrow> int \<Rightarrow> int \<Rightarrow> block_id \<Rightarrow> time \<Rightarrow> vote go"
  where
  "MakeVote E val chainID valIndex height round step blockID t =
     (case pv_GetPubKey E val of
        Inl err \<Rightarrow> Error (LibError err)
      | Inr pubKey \<Rightarrow>
         (let v = \<lparr>vt_Type = i32 step, vt_Height = height, vt_Round = round, vt_BlockID = blockID,
                   vt_Timestamp = t, vt_ValidatorAddress = pk_Address E pubKey,
                   vt_ValidatorIndex = valIndex, vt_Signature = [], vt_Extension = [],
                   vt_ExtensionSignature = []\<rparr>;
              (err, vpb) = SignVote E val chainID (vote_ToProto E v)
          in case err of
               Some e \<Rightarrow> Error (LibError e)
             | None \<Rightarrow> Return (v\<lparr>vt_Signature := vt_Signature vpb\<rparr>)))"

section \<open>state.go\<close>

definition empty_ext_commit_info :: ext_commit_info where
  "empty_ext_commit_info = \<lparr>eci_Round = 0, eci_Votes = []\<rparr>"

definition empty_commit_info :: commit_info where
  "empty_commit_info = \<lparr>ci_Round = 0, ci_Votes = []\<rparr>"

definition ext_vote_info_of :: "'w env \<Rightarrow> validator \<Rightarrow> ext_commit_sig \<Rightarrow> ext_vote_info" where
  "ext_vote_info_of E val ecs =
     \<lparr>evi_Validator = TM2PB_Validator E val, evi_BlockIdFlag = cs_BlockIDFlag ecs,
      evi_VoteExtension = ecs_Extension ecs, evi_ExtensionSignature = ecs_ExtensionSignature ecs\<rparr>"

text \<open>The body of the loop \<open>for i, val := range valSet.Validators\<close>, from index \<open>i\<close> on.\<close>

fun ext_commit_votes ::
    "'w env \<Rightarrow> ext_commit \<Rightarrow> abci_params \<Rightarrow> nat \<Rightarrow> validator list \<Rightarrow> ext_vote_info list go" where
  "ext_commit_votes E ec ap i [] = Return []"
| "ext_commit_votes E ec ap i (val # vals) =
     (case at_index (ec_ExtendedSignatures ec) i of
        None \<Rightarrow> Panic IndexOutOfRange
      | Some ecs \<Rightarrow>
          if cs_BlockIDFlag ecs \<noteq> BlockIDFlagAbsent E \<and> cs_ValidatorAddress ecs \<noteq> val_Address val
          then Panic (CommitAddressMismatch i)
          else (case EnsureExtension E ecs (VoteExtensionsEnabled E ap (ec_Height ec)) of
                  Some err \<Rightarrow> Panic (ExtensionDataProblem err)
                | None \<Rightarrow> bindO (ext_commit_votes E ec ap (Suc i) vals)
                    (\<lambda>votes. Return (ext_vote_info_of E val ecs # votes))))"

definition BuildExtendedCommitInfo ::
    "'w env \<Rightarrow> ext_commit \<Rightarrow> validator_set \<Rightarrow> int \<Rightarrow> abci_params \<Rightarrow> ext_commit_info go" where
  "BuildExtendedCommitInfo E ec valSet initialHeight ap =
     (if ec_Height ec < initialHeight then Return empty_ext_commit_info
      else let ecSize = ec_Size E ec; valSetLen = int (length (vs_Validators valSet))
           in if ecSize \<noteq> valSetLen then Panic (ExtCommitSizeMismatch ecSize valSetLen)
              else bindO (ext_commit_votes E ec ap 0 (vs_Validators valSet))
                (\<lambda>votes. Return \<lparr>eci_Round = ec_Round ec, eci_Votes = votes\<rparr>))"

definition vote_info_of :: "'w env \<Rightarrow> validator \<Rightarrow> commit_sig \<Rightarrow> vote_info" where
  "vote_info_of E val commitSig =
     \<lparr>vi_Validator = TM2PB_Validator E val, vi_BlockIdFlag = cs_BlockIDFlag commitSig\<rparr>"

fun last_commit_votes :: "'w env \<Rightarrow> commit option \<Rightarrow> nat \<Rightarrow> validator list \<Rightarrow> vote_info list go" where
  "last_commit_votes E lc i [] = Return []"
| "last_commit_votes E lc i (val # vals) =
     (case lc of
        None \<Rightarrow> Panic NilDereference
      | Some c \<Rightarrow>
         (case at_index (cm_Signatures c) i of
            None \<Rightarrow> Panic IndexOutOfRange
          | Some commitSig \<Rightarrow> bindO (last_commit_votes E lc (Suc i) vals)
              (\<lambda>votes. Return (vote_info_of E val commitSig # votes))))"

definition BuildLastCommitInfo ::
    "'w env \<Rightarrow> block \<Rightarrow> validator_set \<Rightarrow> int \<Rightarrow> commit_info go" where
  "BuildLastCommitInfo E block lastValSet initialHeight =
     (if hd_Height (blk_Header block) = initialHeight then Return empty_commit_info
      else let commitSize = commit_Size E (blk_LastCommit block);
               valSetLen = int (length (vs_Validators lastValSet))
           in if commitSize \<noteq> valSetLen
              then (case blk_LastCommit block of
                      None \<Rightarrow> Panic NilDereference
                    | Some _ \<Rightarrow> Panic (CommitSizeMismatch commitSize valSetLen))
              else bindO (last_commit_votes E (blk_LastCommit block) 0 (vs_Validators lastValSet))
                (\<lambda>votes. case blk_LastCommit block of
                    None \<Rightarrow> Panic NilDereference
                  | Some c \<Rightarrow> Return \<lparr>ci_Round = cm_Round c, ci_Votes = votes\<rparr>))"

section \<open>Documented behaviour of the library's size methods\<close>

text \<open>\<open>Size()\<close> is the number of signatures, and 0 on a nil commit.\<close>

definition commit_sizes :: "'w env \<Rightarrow> bool" where
  "commit_sizes E \<longleftrightarrow> (\<forall>ec. ec_Size E ec = int (length (ec_ExtendedSignatures ec)))
     \<and> (\<forall>c. commit_Size E (Some c) = int (length (cm_Signatures c))) \<and> commit_Size E None = 0"

section \<open>Lemmas\<close>

lemma Contains_iff [simp]: "Contains txs tx \<longleftrightarrow> tx \<in> set txs"
  by (induction txs) auto

lemma last_commit_votes_eq:
  "i + length vals = length (cm_Signatures c) \<Longrightarrow>
    last_commit_votes E (Some c) i vals
      = Return (map2 (vote_info_of E) vals (drop i (cm_Signatures c)))"
proof (induction vals arbitrary: i)
  case Nil
  then show ?case by simp
next
  case (Cons val vals)
  then have i: "i < length (cm_Signatures c)" by simp
  then have "drop i (cm_Signatures c) = cm_Signatures c ! i # drop (Suc i) (cm_Signatures c)"
    by (simp add: Cons_nth_drop_Suc)
  with Cons i show ?case by simp
qed

text \<open>What the loop of \<open>BuildExtendedCommitInfo\<close> checks of one validator and its signature.\<close>

definition ext_sig_ok :: "'w env \<Rightarrow> ext_commit \<Rightarrow> abci_params \<Rightarrow> validator \<Rightarrow> ext_commit_sig \<Rightarrow> bool"
  where
  "ext_sig_ok E ec ap val ecs \<longleftrightarrow>
     (cs_BlockIDFlag ecs = BlockIDFlagAbsent E \<or> cs_ValidatorAddress ecs = val_Address val)
     \<and> EnsureExtension E ecs (VoteExtensionsEnabled E ap (ec_Height ec)) = None"

lemma ext_commit_votes_Return_iff:
  "i + length vals = length (ec_ExtendedSignatures ec) \<Longrightarrow>
    ext_commit_votes E ec ap i vals = Return votes \<longleftrightarrow>
      list_all2 (ext_sig_ok E ec ap) vals (drop i (ec_ExtendedSignatures ec))
      \<and> votes = map2 (ext_vote_info_of E) vals (drop i (ec_ExtendedSignatures ec))"
proof (induction vals arbitrary: i votes)
  case Nil
  then show ?case by auto
next
  case (Cons val vals)
  then have i: "i < length (ec_ExtendedSignatures ec)" by simp
  then have "drop i (ec_ExtendedSignatures ec)
      = ec_ExtendedSignatures ec ! i # drop (Suc i) (ec_ExtendedSignatures ec)"
    by (simp add: Cons_nth_drop_Suc)
  with Cons.IH [of "Suc i"] Cons.prems i show ?case
    by (auto simp: ext_sig_ok_def bindO_Return_iff split: option.splits)
qed

lemma sample_commit_sizes: "commit_sizes sample_env"
  by (simp add: commit_sizes_def sample_env_def)

section \<open>Properties\<close>

text \<open>
  \<open>BuildLastCommitInfo\<close>, on every branch. At the initial height it is empty. Otherwise it
  pairs each validator of the set it is given with the flag of the signature at the same
  position of the block's last commit, with the round of that commit; and if the commit and the set
  have different sizes it panics, for no other input.
\<close>

lemma BuildLastCommitInfo_spec:
  assumes "commit_sizes E" and "blk_LastCommit block = Some c"
  shows "BuildLastCommitInfo E block vals ih =
    (if hd_Height (blk_Header block) = ih then Return empty_commit_info
     else if length (cm_Signatures c) = length (vs_Validators vals)
     then Return \<lparr>ci_Round = cm_Round c,
       ci_Votes = map2 (vote_info_of E) (vs_Validators vals) (cm_Signatures c)\<rparr>
     else Panic (CommitSizeMismatch (int (length (cm_Signatures c))) (int (length (vs_Validators vals)))))"
  using assms last_commit_votes_eq [of 0 "vs_Validators vals" c E]
  by (auto simp: BuildLastCommitInfo_def commit_sizes_def Let_def)

text \<open>
  Claim C27. At or above the initial height, \<open>BuildExtendedCommitInfo\<close> returns exactly when the
  commit has one signature per validator of the set, in the set's order, each absent or
  signed by that validator and with the extension data its height requires; what it returns then
  has the commit's round and one entry per validator. Below the initial height it returns the
  empty record.
\<close>

theorem BuildExtendedCommitInfo_spec:
  assumes "commit_sizes E"
  shows "BuildExtendedCommitInfo E ec vals ih ap = Return info \<longleftrightarrow>
    (if ec_Height ec < ih then info = empty_ext_commit_info
     else list_all2 (ext_sig_ok E ec ap) (vs_Validators vals) (ec_ExtendedSignatures ec)
       \<and> info = \<lparr>eci_Round = ec_Round ec,
           eci_Votes = map2 (ext_vote_info_of E) (vs_Validators vals) (ec_ExtendedSignatures ec)\<rparr>)"
proof (cases "length (vs_Validators vals) = length (ec_ExtendedSignatures ec)")
  case True
  then show ?thesis
    using assms ext_commit_votes_Return_iff [of 0 "vs_Validators vals" ec E ap]
    by (auto simp: BuildExtendedCommitInfo_def commit_sizes_def Let_def bindO_Return_iff)
next
  case False
  then show ?thesis using assms
    by (auto simp: BuildExtendedCommitInfo_def commit_sizes_def Let_def dest: list_all2_lengthD)
qed

theorem BuildExtendedCommitInfo_spec_witness:
  "BuildExtendedCommitInfo sample_env (sample_ec 4) (sample_valset [sample_validator ''v1'' 10]) 1
      \<lparr>VoteExtensionsEnableHeight = 0\<rparr>
    = Return \<lparr>eci_Round = 0, eci_Votes = [\<lparr>evi_Validator = \<lparr>av_Address = ''v1'', av_Power = 10\<rparr>,
        evi_BlockIdFlag = 2, evi_VoteExtension = ''x'', evi_ExtensionSignature = []\<rparr>]\<rparr>"
  unfolding BuildExtendedCommitInfo_spec [OF sample_commit_sizes]
  by (simp add: sample_ec_def sample_defs ext_sig_ok_def ext_vote_info_of_def)

end
