(* ===== verification/State_Update.thy ===== *)
theory State_Update
  imports Sample_Env
begin

text \<open>
  The part of \<open>abci_client/client.go\<close> that computes the chain state from a block's results:
  \<open>UpdateState\<close>, the validation of the validator updates an application returns, and the request
  of \<open>InitChain\<close>. Nothing here touches the client, so these are functions.
\<close>

section \<open>Definitions\<close>

fun validateValidatorUpdates :: "'w env \<Rightarrow> validator_update list \<Rightarrow> string list \<Rightarrow> unit go" where
  "validateValidatorUpdates E [] params = Return ()"
| "validateValidatorUpdates E (valUpdate # rest) params =
     (if vu_Power valUpdate < 0 then Error (NegativePower (vu_Power valUpdate))
      else if vu_Power valUpdate = 0 then validateValidatorUpdates E rest params
      else (case PubKeyFromProto E (vu_PubKey valUpdate) of
              Inl err \<Rightarrow> Error (LibError err)
            | Inr pk \<Rightarrow>
                if \<not> IsValidPubkeyType E params (pk_Type E pk) then Error (UnsupportedPubKey (pk_Type E pk))
                else validateValidatorUpdates E rest params))"

text \<open>
  \<open>UpdateState\<close>. The sets are copied before they are changed, so the copies are values. The state
  that the source returns beside an error is the unchanged argument, which its caller drops.
\<close>

definition UpdateState ::
    "'w env \<Rightarrow> comet_state \<Rightarrow> block_id \<Rightarrow> header \<Rightarrow> response_finalize_block \<Rightarrow> validator list
      \<Rightarrow> comet_state go" where
  "UpdateState E curState blockId blockHeader finalizeBlockRes validatorUpdates =
     bindO
       (if validatorUpdates \<noteq> [] then
          (case UpdateWithChangeSet E (st_NextValidators curState) validatorUpdates of
             Inl err \<Rightarrow> Error (ChangingValidatorSetError (LibError err))
           | Inr nValSet \<Rightarrow> Return (nValSet, i64 (i64 (hd_Height blockHeader + 1) + 1)))
        else Return (st_NextValidators curState, st_LastHeightValidatorsChanged curState))
     (\<lambda>(nValSet0, lastHeightValsChanged).
       case IncrementProposerPriority E nValSet0 1 of
         Inl p \<Rightarrow> Panic (LibPanic p)
       | Inr nValSet \<Rightarrow>
          bindO
            (case rsf_ConsensusParamUpdates finalizeBlockRes of
               None \<Rightarrow> Return (st_ConsensusParams curState, st_LastHeightConsensusParamsChanged curState,
                        st_Version curState)
             | Some updates \<Rightarrow>
                (let nextParams = cp_Update E (st_ConsensusParams curState) updates
                 in case cp_ValidateBasic E nextParams of
                      Some err \<Rightarrow> Error (UpdatingParamsError (LibError err))
                    | None \<Rightarrow> Return (nextParams, i64 (hd_Height blockHeader + 1),
                        (st_Version curState)\<lparr>ver_ConsensusApp := cp_VersionApp nextParams\<rparr>)))
          (\<lambda>(nextParams, lastHeightParamsChanged, nextVersion).
            Return
              \<lparr>st_Version = nextVersion,
               st_ChainID = st_ChainID curState,
               st_InitialHeight = st_InitialHeight curState,
               st_LastBlockHeight = hd_Height blockHeader,
               st_LastBlockID = blockId,
               st_LastBlockTime = hd_Time blockHeader,
               st_NextValidators = nValSet,
               st_Validators = st_NextValidators curState,
               st_LastValidators = st_Validators curState,
               st_LastHeightValidatorsChanged = lastHeightValsChanged,
               st_ConsensusParams = nextParams,
               st_LastHeightConsensusParamsChanged = lastHeightParamsChanged,
               st_LastResultsHash = TxResultsHash E (rsf_TxResults finalizeBlockRes),
               st_AppHash = []\<rparr>))"

definition CreateInitChainRequest :: "'w env \<Rightarrow> comet_state \<Rightarrow> genesis_doc \<Rightarrow> request_init_chain go" where
  "CreateInitChainRequest E genesisState genesisDoc =
     (let consensusParams = cp_ToProto E (st_ConsensusParams genesisState);
          validators = map (\<lambda>val. NewValidator E (gv_PubKey val) (gv_Power val)) (gd_Validators genesisDoc)
      in case NewValidatorSet E validators of
           Inl p \<Rightarrow> Panic (LibPanic p)
         | Inr validatorSet \<Rightarrow>
             Return
               \<lparr>ric_Validators = TM2PB_ValidatorUpdates E validatorSet,
                ric_InitialHeight = st_InitialHeight genesisState,
                ric_Time = gd_GenesisTime genesisDoc,
                ric_ChainId = st_ChainID genesisState,
                ric_ConsensusParams = consensusParams,
                ric_AppStateBytes = gd_AppState genesisDoc\<rparr>)"

section \<open>Lemmas\<close>

text \<open>What one validator update must satisfy.\<close>

definition update_ok :: "'w env \<Rightarrow> string list \<Rightarrow> validator_update \<Rightarrow> bool" where
  "update_ok E params u \<longleftrightarrow> 0 \<le> vu_Power u \<and>
     (0 < vu_Power u \<longrightarrow> (\<exists>pk. PubKeyFromProto E (vu_PubKey u) = Inr pk \<and> IsValidPubkeyType E params (pk_Type E pk)))"

text \<open>The error that an update which is not \<open>update_ok\<close> stands for.\<close>

definition update_error :: "'w env \<Rightarrow> validator_update \<Rightarrow> go_error" where
  "update_error E u =
     (if vu_Power u < 0 then NegativePower (vu_Power u)
      else case PubKeyFromProto E (vu_PubKey u) of
             Inl err \<Rightarrow> LibError err
           | Inr pk \<Rightarrow> UnsupportedPubKey (pk_Type E pk))"

lemma UpdateState_Return:
  assumes "UpdateState E st bid h res ups = Return st'"
  shows "st_ChainID st' = st_ChainID st" "st_InitialHeight st' = st_InitialHeight st"
    "st_LastBlockHeight st' = hd_Height h" "st_LastBlockID st' = bid" "st_LastBlockTime st' = hd_Time h"
    "st_Validators st' = st_NextValidators st" "st_LastValidators st' = st_Validators st"
    "st_AppHash st' = []" "st_LastResultsHash st' = TxResultsHash E (rsf_TxResults res)"
    "ups = [] \<Longrightarrow> st_LastHeightValidatorsChanged st' = st_LastHeightValidatorsChanged st"
    "ups \<noteq> [] \<Longrightarrow> st_LastHeightValidatorsChanged st' = i64 (i64 (hd_Height h + 1) + 1)"
    "rsf_ConsensusParamUpdates res = None \<Longrightarrow> st_ConsensusParams st' = st_ConsensusParams st"
    "rsf_ConsensusParamUpdates res = None \<Longrightarrow> st_Version st' = st_Version st"
  using assms
  by (auto simp: UpdateState_def bindO_Return_iff Let_def split: if_splits sum.splits option.splits)

lemma UpdateState_NextValidators:
  assumes "UpdateState E st bid h res ups = Return st'"
  obtains vs where "IncrementProposerPriority E vs 1 = Inr (st_NextValidators st')"
    and "if ups = [] then vs = st_NextValidators st
         else UpdateWithChangeSet E (st_NextValidators st) ups = Inr vs"
  using assms
  by (auto simp: UpdateState_def bindO_Return_iff Let_def split: if_splits sum.splits option.splits)

lemma UpdateState_never_blocked: "UpdateState E st bid h res ups \<noteq> Blocked"
  by (auto simp: UpdateState_def Let_def split: sum.split option.split)

lemma UpdateState_params:
  assumes "UpdateState E st bid h res ups = Return st'" "rsf_ConsensusParamUpdates res = Some u"
  shows "st_ConsensusParams st' = cp_Update E (st_ConsensusParams st) u"
    "cp_ValidateBasic E (st_ConsensusParams st') = None"
    "ver_ConsensusApp (st_Version st') = cp_VersionApp (st_ConsensusParams st')"
    "st_LastHeightConsensusParamsChanged st' = i64 (hd_Height h + 1)"
  using assms
  by (auto simp: UpdateState_def bindO_Return_iff Let_def split: if_splits sum.splits option.splits)

lemma UpdateState_returns:
  assumes "rsf_ConsensusParamUpdates res = None" and "ups = []"
    and "IncrementProposerPriority E (st_NextValidators st) 1 = Inr vs"
  shows "\<exists>st'. UpdateState E st bid h res ups = Return st'"
  using assms by (simp add: UpdateState_def)

section \<open>Properties\<close>

text \<open>
  \<open>validateValidatorUpdates\<close> accepts exactly the updates whose powers are not negative and
  whose validators with positive power have a key that decodes and has a type the consensus
  parameters allow; otherwise it stops at the first update that breaks one of these, with the error
  for what that update breaks.
\<close>

lemma validateValidatorUpdates_spec:
  "validateValidatorUpdates E ups params =
     (case find (\<lambda>u. \<not> update_ok E params u) ups of
        None \<Rightarrow> Return ()
      | Some u \<Rightarrow> Error (update_error E u))"
  by (induction ups) (auto simp: update_ok_def update_error_def split: sum.splits)

text \<open>
  Claim C15. The validator pipeline: the updates an application returns for a block take effect two heights
  later. Over two consecutive blocks, the set that signs the second next block is the pending set
  changed by the first block's updates (with its proposer priorities moved on once); the set
  in between is the pending set as it was; each set becomes the last set one block after it was the
  current one; and the height recorded for the change is the first block's height plus two.
\<close>

theorem validator_updates_apply_two_heights_later:
  assumes "UpdateState E st bid h res ups = Return st1"
    and "UpdateState E st1 bid' h' res' ups' = Return st2"
    and "ups \<noteq> []" and "in64 (hd_Height h + 2)" and "0 \<le> hd_Height h"
  shows "\<exists>vs. UpdateWithChangeSet E (st_NextValidators st) ups = Inr vs
    \<and> IncrementProposerPriority E vs 1 = Inr (st_Validators st2)
    \<and> st_Validators st1 = st_NextValidators st
    \<and> st_LastValidators st1 = st_Validators st \<and> st_LastValidators st2 = st_NextValidators st
    \<and> st_LastHeightValidatorsChanged st1 = hd_Height h + 2"
proof -
  have "in64 (hd_Height h + 1)" using assms(4,5) by (simp add: in64_def)
  moreover obtain vs where "IncrementProposerPriority E vs 1 = Inr (st_NextValidators st1)"
      "UpdateWithChangeSet E (st_NextValidators st) ups = Inr vs"
    using UpdateState_NextValidators [OF assms(1)] assms(3) by metis
  ultimately show ?thesis
    using assms(3,4) UpdateState_Return [OF assms(1)] UpdateState_Return [OF assms(2)]
    by (simp add: add.assoc)
qed

lemma sample_UpdateState_returns:
  "\<exists>st1 st2. UpdateState sample_env (sample_state [sample_validator ''v1'' 10] 4) b1 (blk_Header (sample_block 5))
      \<lparr>rsf_Events = [], rsf_TxResults = [], rsf_ValidatorUpdates = [], rsf_ConsensusParamUpdates = None,
       rsf_AppHash = []\<rparr> [sample_validator ''v2'' 20] = Return st1
    \<and> UpdateState sample_env st1 b1 (blk_Header (sample_block 6))
      \<lparr>rsf_Events = [], rsf_TxResults = [], rsf_ValidatorUpdates = [], rsf_ConsensusParamUpdates = None,
       rsf_AppHash = []\<rparr> [] = Return st2
    \<and> vs_Validators (st_Validators st2) = [sample_validator ''v1'' 10, sample_validator ''v2'' 20]"
  by (simp add: UpdateState_def sample_state_def sample_defs sample_block_def)

theorem validator_updates_apply_two_heights_later_witness:
  "\<exists>st1 st2 vs.
    UpdateState sample_env (sample_state [sample_validator ''v1'' 10] 4) \<lparr>bid_Hash = [], bid_PartSetHeader = []\<rparr>
      (blk_Header (sample_block 5)) \<lparr>rsf_Events = [], rsf_TxResults = [], rsf_ValidatorUpdates = [],
        rsf_ConsensusParamUpdates = None, rsf_AppHash = []\<rparr> [sample_validator ''v2'' 20] = Return st1
    \<and> UpdateState sample_env st1 \<lparr>bid_Hash = [], bid_PartSetHeader = []\<rparr>
      (blk_Header (sample_block 6)) \<lparr>rsf_Events = [], rsf_TxResults = [], rsf_ValidatorUpdates = [],
        rsf_ConsensusParamUpdates = None, rsf_AppHash = []\<rparr> [] = Return st2
    \<and> UpdateWithChangeSet sample_env (st_NextValidators (sample_state [sample_validator ''v1'' 10] 4))
        [sample_validator ''v2'' 20] = Inr vs
    \<and> IncrementProposerPriority sample_env vs 1 = Inr (st_Validators st2)
    \<and> vs_Validators (st_Validators st1) = [sample_validator ''v1'' 10]
    \<and> vs_Validators (st_Validators st2) = [sample_validator ''v1'' 10, sample_validator ''v2'' 20]
    \<and> st_LastHeightValidatorsChanged st1 = 5 + 2"
proof -
  let ?st = "sample_state [sample_validator ''v1'' 10] 4"
  have h: "hd_Height (blk_Header (sample_block 5)) = 5" "vs_Validators (st_NextValidators ?st) = [sample_validator ''v1'' 10]"
    by (simp_all add: sample_block_def sample_state_def sample_valset_def)
  obtain st1 st2 where runs:
    "UpdateState sample_env ?st \<lparr>bid_Hash = [], bid_PartSetHeader = []\<rparr> (blk_Header (sample_block 5))
      \<lparr>rsf_Events = [], rsf_TxResults = [], rsf_ValidatorUpdates = [], rsf_ConsensusParamUpdates = None,
       rsf_AppHash = []\<rparr> [sample_validator ''v2'' 20] = Return st1"
    "UpdateState sample_env st1 \<lparr>bid_Hash = [], bid_PartSetHeader = []\<rparr> (blk_Header (sample_block 6))
      \<lparr>rsf_Events = [], rsf_TxResults = [], rsf_ValidatorUpdates = [], rsf_ConsensusParamUpdates = None,
       rsf_AppHash = []\<rparr> [] = Return st2"
    "vs_Validators (st_Validators st2) = [sample_validator ''v1'' 10, sample_validator ''v2'' 20]"
    using sample_UpdateState_returns by blast
  obtain vs where "UpdateWithChangeSet sample_env (st_NextValidators ?st) [sample_validator ''v2'' 20] = Inr vs"
      "IncrementProposerPriority sample_env vs 1 = Inr (st_Validators st2)" "st_Validators st1 = st_NextValidators ?st"
      "st_LastHeightValidatorsChanged st1 = 5 + 2"
    using validator_updates_apply_two_heights_later [OF runs(1,2)] h(1) by (auto simp: in64_def)
  with runs h(2) show ?thesis by (intro exI [of _ st1] exI [of _ st2] exI [of _ vs]) simp
qed

end
