(* ===== verification/Abci_Client.thy ===== *)
theory Abci_Client
  imports Time_Handler Map_Storage State_Update Comet_Utils
begin

text \<open>
  The client of \<open>abci_client/client.go\<close> and \<open>counterparty.go\<close>: its state, the whole system around it (the
  block mutex, the goroutines started by a broadcast, the events published, the world of the
  environment), and the operations that neither run a block nor call an application:
  the transaction queue, the signing status, the lookups, the time handler's two calls and the
  constructor.
  \<open>abci_log\<close> is a history variable: the ABCI calls made so far, in order. No definition reads it.
\<close>

section \<open>State\<close>

record counterparty =
  acc_Client :: string
  acc_NetworkAddress :: string
  acc_ValidatorAddress :: string
  acc_PrivValidator :: string

definition NewAbciCounterpartyClient :: "string \<Rightarrow> string \<Rightarrow> string \<Rightarrow> string \<Rightarrow> counterparty" where
  "NewAbciCounterpartyClient client networkAddress validatorAddress privValidator =
     \<lparr>acc_Client = client, acc_NetworkAddress = networkAddress,
      acc_ValidatorAddress = validatorAddress, acc_PrivValidator = privValidator\<rparr>"

text \<open>The Go map \<open>Clients\<close> is an association list with distinct keys; \<open>map_order\<close> of the environment
  decides in which order a loop visits it.\<close>

record abci_client =
  Clients :: "(string \<times> counterparty) list"
  CurState :: comet_state
  LastBlock :: block
  LastCommit :: ext_commit
  Storage :: map_storage
  ErrorOnUnequalResponses :: bool
  signingStatus :: "string \<rightharpoonup> bool"
  TimeHandler :: time_handler
  AutoIncludeTx :: bool
  FreshTxQueue :: "tx list"
  StaleTxQueue :: "tx list"

datatype event =
    EventNewBlock block block_id response_finalize_block
  | EventNewBlockHeader header
  | EventNewBlockEvents int "bytes list" int
  | EventNewEvidence evidence int
  | EventTx tx_result
  | EventValidatorSetUpdates "validator list"

datatype abci_call =
    CallInfo string
  | CallInitChain string request_init_chain
  | CallCheckTx string request_check_tx
  | CallQuery string request_query
  | CallPrepareProposal string request_prepare_proposal
  | CallProcessProposal string request_process_proposal
  | CallExtendVote string request_process_proposal
  | CallVerifyVoteExtension string request_verify_vote_extension
  | CallFinalizeBlock string request_finalize_block
  | CallCommit string

record 'w sys =
  client :: abci_client
  blockMutex :: bool
  goroutines :: nat
  published :: "event list"
  abci_log :: "abci_call list"
  world :: 'w

type_synonym ('w, 'a) run = "('w sys, 'a, go_error, go_panic) prog"

section \<open>Access to the parts of the state\<close>

definition get_client :: "(abci_client \<Rightarrow> 'a) \<Rightarrow> ('w, 'a) run" where
  "get_client f = gets (\<lambda>s. f (client s))"

definition upd_client :: "(abci_client \<Rightarrow> abci_client) \<Rightarrow> ('w, unit) run" where
  "upd_client f = modify (\<lambda>s. s\<lparr>client := f (client s)\<rparr>)"

definition in_storage :: "'a storage_prog \<Rightarrow> ('w, 'a) run" where
  "in_storage p = (\<lambda>s. case p (Storage (client s)) of
     (r, m) \<Rightarrow> (r, s\<lparr>client := (client s)\<lparr>Storage := m\<rparr>\<rparr>))"

text \<open>One ABCI call: it is recorded, the application answers, an error becomes the call's error.\<close>

definition call :: "abci_call \<Rightarrow> ('w \<Rightarrow> (string + 'a) \<times> 'w) \<Rightarrow> ('w, 'a) run" where
  "call k f = (\<lambda>s. case f (world s) of
     (r, w) \<Rightarrow> (case r of Inl err \<Rightarrow> Error (LibError err) | Inr a \<Rightarrow> Return a,
              s\<lparr>abci_log := abci_log s @ [k], world := w\<rparr>))"

definition publish :: "event \<Rightarrow> ('w, unit) run" where
  "publish ev = modify (\<lambda>s. s\<lparr>published := published s @ [ev]\<rparr>)"

text \<open>\<open>for _, client := range a.Clients\<close>\<close>

definition range_clients :: "'w env \<Rightarrow> ('w, counterparty list) run" where
  "range_clients E = (\<lambda>s. case map_order E (map fst (Clients (client s))) (world s) of
     (ks, w) \<Rightarrow> (Return (List.map_filter (map_of (Clients (client s))) ks), s\<lparr>world := w\<rparr>))"

definition read_clock :: "'w env \<Rightarrow> ('w, time) run" where
  "read_clock E = (\<lambda>s. case time_Now E (world s) of (t, w) \<Rightarrow> (Return t, s\<lparr>world := w\<rparr>))"

section \<open>The block mutex and the transaction queue\<close>

definition blockMutex_Lock :: "('w, unit) run" where
  "blockMutex_Lock = bindP (gets blockMutex)
     (\<lambda>held. if held then stuck else modify (\<lambda>s. s\<lparr>blockMutex := True\<rparr>))"

definition blockMutex_Unlock :: "('w, unit) run" where
  "blockMutex_Unlock = bindP (gets blockMutex)
     (\<lambda>held. if held then modify (\<lambda>s. s\<lparr>blockMutex := False\<rparr>)
        else panic (LibPanic ''sync: unlock of unlocked mutex''))"

definition QueueTx :: "tx \<Rightarrow> ('w, unit) run" where
  "QueueTx tx =
     seqP blockMutex_Lock
    (seqP (upd_client (\<lambda>a. a\<lparr>FreshTxQueue := FreshTxQueue a @ [tx]\<rparr>))
     blockMutex_Unlock)"

definition ClearTxs :: "('w, unit) run" where
  "ClearTxs = upd_client (\<lambda>a. a\<lparr>FreshTxQueue := [], StaleTxQueue := []\<rparr>)"

section \<open>Lookups and the signing status\<close>

definition GetValidatorFromAddress :: "'w env \<Rightarrow> string \<Rightarrow> ('w, validator) run" where
  "GetValidatorFromAddress E address =
     bindP (get_client (\<lambda>a. vs_Validators (st_Validators (CurState a))))
       (\<lambda>vals. case find (\<lambda>v. addr_String E (val_Address v) = address) vals of
            Some v \<Rightarrow> ret v
          | None \<Rightarrow> throw (ValidatorNotFound address))"

definition GetCounterpartyFromAddress :: "'w env \<Rightarrow> string \<Rightarrow> ('w, counterparty) run" where
  "GetCounterpartyFromAddress E address =
     bindP (range_clients E)
       (\<lambda>cs. case find (\<lambda>c. acc_ValidatorAddress c = address) cs of
            Some c \<Rightarrow> ret c
          | None \<Rightarrow> throw (ClientNotFound address))"

definition GetSigningStatusMap :: "('w, string \<rightharpoonup> bool) run" where
  "GetSigningStatusMap = get_client signingStatus"

definition GetSigningStatus :: "string \<Rightarrow> ('w, bool) run" where
  "GetSigningStatus address =
     bindP (get_client (\<lambda>a. signingStatus a address))
       (\<lambda>r. case r of Some status \<Rightarrow> ret status | None \<Rightarrow> throw (SigningStatusNotFound address))"

definition SetSigningStatus :: "string \<Rightarrow> bool \<Rightarrow> ('w, unit) run" where
  "SetSigningStatus address status =
     bindP (get_client (\<lambda>a. signingStatus a address))
       (\<lambda>r. case r of
            None \<Rightarrow> throw (SigningStatusNotFound address)
          | Some _ \<Rightarrow> upd_client (\<lambda>a. a\<lparr>signingStatus := (signingStatus a)(address \<mapsto> status)\<rparr>))"

section \<open>The time handler of the client\<close>

definition GetBlockTime :: "'w env \<Rightarrow> time \<Rightarrow> ('w, time) run" where
  "GetBlockTime E lastBlockTimestamp =
     bindP (get_client TimeHandler)
       (\<lambda>th. case th of
            SystemClockTimeHandler s \<Rightarrow> bindP (read_clock E) (\<lambda>now.
              case sc_GetBlockTime s now lastBlockTimestamp of (t, s') \<Rightarrow>
                seqP (upd_client (\<lambda>a. a\<lparr>TimeHandler := SystemClockTimeHandler s'\<rparr>)) (ret t))
          | FixedBlockTimeHandler f \<Rightarrow>
              case fb_GetBlockTime f lastBlockTimestamp of (t, f') \<Rightarrow>
                seqP (upd_client (\<lambda>a. a\<lparr>TimeHandler := FixedBlockTimeHandler f'\<rparr>)) (ret t))"

definition AdvanceTime :: "'w env \<Rightarrow> duration \<Rightarrow> ('w, time) run" where
  "AdvanceTime E d =
     bindP (get_client TimeHandler)
       (\<lambda>th. case th of
            SystemClockTimeHandler s \<Rightarrow> bindP (read_clock E) (\<lambda>now.
              case sc_AdvanceTime s now d of (t, s') \<Rightarrow>
                seqP (upd_client (\<lambda>a. a\<lparr>TimeHandler := SystemClockTimeHandler s'\<rparr>)) (ret t))
          | FixedBlockTimeHandler f \<Rightarrow>
              case fb_AdvanceTime f d of (t, f') \<Rightarrow>
                seqP (upd_client (\<lambda>a. a\<lparr>TimeHandler := FixedBlockTimeHandler f'\<rparr>)) (ret t))"

section \<open>The constructor\<close>

definition NewAbciClient ::
    "'w env \<Rightarrow> (string \<times> counterparty) list \<Rightarrow> comet_state \<Rightarrow> block \<Rightarrow> ext_commit \<Rightarrow> map_storage
      \<Rightarrow> time_handler \<Rightarrow> bool \<Rightarrow> abci_client go" where
  "NewAbciClient E clients curState lastBlock lastCommit storage timeHandler errorOnUnequalResponses =
     (case EventBus_Start E of
        Some err \<Rightarrow> Panic (FatalError (LibError err))
      | None \<Rightarrow>
         (case IndexerService_Start E of
            Some err \<Rightarrow> Panic (FatalError (LibError err))
          | None \<Rightarrow>
              Return \<lparr>Clients = clients, CurState = curState, LastBlock = lastBlock,
                LastCommit = lastCommit, Storage = storage,
                ErrorOnUnequalResponses = errorOnUnequalResponses,
                signingStatus = (\<lambda>addr. if addr \<in> set (map fst clients) then Some True else None),
                TimeHandler = timeHandler, AutoIncludeTx = False,
                FreshTxQueue = [], StaleTxQueue = []\<rparr>))"

section \<open>Lemmas\<close>

lemmas client_defs = get_client_def upd_client_def ClearTxs_def QueueTx_def blockMutex_Lock_def
  blockMutex_Unlock_def GetValidatorFromAddress_def GetCounterpartyFromAddress_def
  GetSigningStatus_def SetSigningStatus_def GetSigningStatusMap_def

text \<open>Everything the program itself keeps, without the environment's state and the history.\<close>

definition core :: "'w sys \<Rightarrow> abci_client \<times> bool \<times> nat \<times> event list" where
  "core s = (client s, blockMutex s, goroutines s, published s)"

text \<open>A predicate that does not look at the environment's state or the history.\<close>

definition env_blind :: "('w sys \<Rightarrow> bool) \<Rightarrow> bool" where
  "env_blind P \<longleftrightarrow> (\<forall>s l w. P (s\<lparr>abci_log := l, world := w\<rparr>) = P s)"

lemma env_blind_core: "env_blind (\<lambda>s. Q (core s))"
  by (simp add: env_blind_def core_def)

lemma env_blind_client: "env_blind (\<lambda>s. Q (client s))"
  by (simp add: env_blind_def)

lemma env_blind_eqs [simp]: "env_blind (\<lambda>s. core s = x)" "env_blind (\<lambda>s. client s = a)"
  by (simp_all add: env_blind_def core_def)

lemma env_blind_world: "env_blind P \<Longrightarrow> P (s\<lparr>world := w\<rparr>) = P s"
  unfolding env_blind_def by (metis (full_types) sys.surjective sys.update_convs(5))

lemma keeps_call [keeps_intros]: "env_blind P \<Longrightarrow> keeps P (call k f)"
  by (auto simp: keeps_def call_def env_blind_def split: prod.splits)

lemma keeps_range_clients [keeps_intros]: "env_blind P \<Longrightarrow> keeps P (range_clients E)"
  by (auto simp: keeps_def range_clients_def env_blind_world split: prod.splits)

lemma keeps_read_clock [keeps_intros]: "env_blind P \<Longrightarrow> keeps P (read_clock E)"
  by (auto simp: keeps_def read_clock_def env_blind_world split: prod.splits)

lemma keeps_get_client [keeps_intros, simp]: "keeps P (get_client f)"
  by (simp add: get_client_def)

lemma keeps_upd_client [keeps_intros]:
  "(\<And>s. P s \<Longrightarrow> P (s\<lparr>client := f (client s)\<rparr>)) \<Longrightarrow> keeps P (upd_client f)"
  by (simp add: upd_client_def keeps_modify)

lemma keeps_publish [keeps_intros]:
  "(\<And>s. P s \<Longrightarrow> P (s\<lparr>published := published s @ [ev]\<rparr>)) \<Longrightarrow> keeps P (publish ev)"
  by (simp add: publish_def keeps_modify)

lemma keeps_in_storage:
  "(\<And>s. P s \<Longrightarrow> P (s\<lparr>client := (client s)\<lparr>Storage := snd (p (Storage (client s)))\<rparr>\<rparr>)) \<Longrightarrow>
    keeps P (in_storage p)"
  by (simp add: keeps_def in_storage_def split_def)

lemma keeps_GetValidatorFromAddress [keeps_intros]: "keeps P (GetValidatorFromAddress E a)"
  by (auto simp: GetValidatorFromAddress_def intro!: keeps_intros)

lemma keeps_GetCounterpartyFromAddress [keeps_intros]:
  "env_blind P \<Longrightarrow> keeps P (GetCounterpartyFromAddress E a)"
  by (auto simp: GetCounterpartyFromAddress_def intro!: keeps_intros)

lemma keeps_GetSigningStatus [keeps_intros]: "keeps P (GetSigningStatus a)"
  by (auto simp: GetSigningStatus_def intro!: keeps_intros)

lemma run_get_client [simp]: "get_client f s = (Return (f (client s)), s)"
  by (simp add: get_client_def)

lemma run_upd_client [simp]: "upd_client f s = (Return (), s\<lparr>client := f (client s)\<rparr>)"
  by (simp add: upd_client_def)

lemma run_GetSigningStatus:
  "GetSigningStatus a s = (case signingStatus (client s) a of
     Some b \<Rightarrow> (Return b, s) | None \<Rightarrow> (Error (SigningStatusNotFound a), s))"
  by (auto simp: GetSigningStatus_def run_bindP split: option.splits)

text \<open>The order in which a loop visits a map is a permutation of its keys.\<close>

definition orders_maps :: "'w env \<Rightarrow> bool" where
  "orders_maps E \<longleftrightarrow> (\<forall>ks w. mset (fst (map_order E ks w)) = mset ks)"

text \<open>The clients' map has distinct keys, the addresses of its clients, and a status for each.\<close>

definition clients_wf :: "abci_client \<Rightarrow> bool" where
  "clients_wf a \<longleftrightarrow> distinct (map fst (Clients a))
     \<and> (\<forall>(k, c) \<in> set (Clients a). acc_ValidatorAddress c = k)
     \<and> dom (signingStatus a) = set (map fst (Clients a))"

lemma map_filter_map_of:
  assumes "distinct (map fst cs)"
  shows "List.map_filter (map_of cs) (map fst cs) = map snd cs"
proof -
  have "List.map_filter (map_of cs) (map fst ds) = map snd ds" if "set ds \<subseteq> set cs" for ds
    using that assms by (induction ds) (auto simp: List.map_filter_simps)
  then show ?thesis by simp
qed

lemma mset_map_filter: "mset (List.map_filter f xs) = image_mset the (filter_mset (\<lambda>y. y \<noteq> None) (image_mset f (mset xs)))"
  by (induction xs) (auto simp: List.map_filter_simps split: option.splits)

lemma range_clients_perm:
  assumes "orders_maps E" "distinct (map fst (Clients (client s)))" "range_clients E s = (r, t)"
  obtains cs where "r = Return cs" "mset cs = mset (map snd (Clients (client s)))" "core t = core s"
    "abci_log t = abci_log s"
proof -
  obtain ks w where o: "map_order E (map fst (Clients (client s))) (world s) = (ks, w)" by fastforce
  then have "mset ks = mset (map fst (Clients (client s)))"
    using assms(1) unfolding orders_maps_def by (metis fst_conv)
  then have "mset (List.map_filter (map_of (Clients (client s))) ks)
      = mset (List.map_filter (map_of (Clients (client s))) (map fst (Clients (client s))))"
    by (simp only: mset_map_filter)
  then have "mset (List.map_filter (map_of (Clients (client s))) ks) = mset (map snd (Clients (client s)))"
    using map_filter_map_of [OF assms(2)] by simp
  with o assms(3) show thesis
    by (intro that) (auto simp: range_clients_def core_def)
qed

end
