(* ===== verification/Abci_Calls.thy ===== *)
theory Abci_Calls
  imports Abci_Client
begin

text \<open>
  The calls of \<open>abci_client/client.go\<close> that go to every application: \<open>SendAbciInfo\<close>, \<open>SendInitChain\<close>,
  \<open>SendCommit\<close>, \<open>SendCheckTx\<close>, \<open>SendAbciQuery\<close> and \<open>SendFinalizeBlock\<close>. The source repeats one loop in each
  of them, which is \<open>broadcast\<close> here. The locale \<open>fan_out\<close> is the contract they share: only the
  environment changes, every client is asked at most once, and an answer means all were asked.
\<close>

section \<open>The shared loop\<close>

text \<open>\<open>for i := 1; i < len(responses); i++ { if !reflect.DeepEqual(responses[i], responses[0]) ... }\<close>\<close>

fun not_all_equal :: "'r list \<Rightarrow> bool" where
  "not_all_equal [] = False"
| "not_all_equal (r # rs) = list_ex (\<lambda>x. x \<noteq> r) rs"

definition broadcast :: "'w env \<Rightarrow> (counterparty \<Rightarrow> ('w, 'r) run) \<Rightarrow> ('w, 'r) run" where
  "broadcast E ask =
     bindP (range_clients E) (\<lambda>clients.
     bindP (collect ask clients) (\<lambda>responses.
     bindP (get_client ErrorOnUnequalResponses) (\<lambda>errorOnUnequal.
       if errorOnUnequal \<and> not_all_equal responses then throw ResponsesNotEqual
       else (case responses of [] \<Rightarrow> panic IndexOutOfRange | r # _ \<Rightarrow> ret r))))"

section \<open>The calls\<close>

definition SendAbciInfo :: "'w env \<Rightarrow> ('w, response_info) run" where
  "SendAbciInfo E =
     broadcast E (\<lambda>c. call (CallInfo (acc_Client c)) (app_Info E (acc_Client c)))"

definition SendCommit :: "'w env \<Rightarrow> ('w, response_commit) run" where
  "SendCommit E =
     broadcast E (\<lambda>c. call (CallCommit (acc_Client c)) (app_Commit E (acc_Client c)))"

definition SendCheckTx :: "'w env \<Rightarrow> check_tx_type \<Rightarrow> tx \<Rightarrow> ('w, response_check_tx) run" where
  "SendCheckTx E checkType tx =
     (let checkTxRequest = \<lparr>rct_Tx = tx, rct_Type = checkType\<rparr>
      in broadcast E (\<lambda>c. call (CallCheckTx (acc_Client c) checkTxRequest)
           (app_CheckTx E (acc_Client c) checkTxRequest)))"

definition SendAbciQuery :: "'w env \<Rightarrow> bytes \<Rightarrow> string \<Rightarrow> int \<Rightarrow> bool \<Rightarrow> ('w, response_query) run" where
  "SendAbciQuery E data path height prove =
     (let request = \<lparr>rq_Data = data, rq_Path = path, rq_Height = height, rq_Prove = prove\<rparr>
      in broadcast E (\<lambda>c. call (CallQuery (acc_Client c) request) (app_Query E (acc_Client c) request)))"

definition SendFinalizeBlock ::
    "'w env \<Rightarrow> block \<Rightarrow> commit_info \<Rightarrow> ('w, response_finalize_block) run" where
  "SendFinalizeBlock E block lastCommitInfo =
     (let request =
        \<lparr>rfb_Txs = blk_Txs block, rfb_DecidedLastCommit = lastCommitInfo,
         rfb_Misbehavior = evidence_ToABCI E (blk_Evidence block),
         rfb_Height = hd_Height (blk_Header block), rfb_Hash = block_Hash E block,
         rfb_Time = hd_Time (blk_Header block),
         rfb_ProposerAddress = hd_ProposerAddress (blk_Header block),
         rfb_NextValidatorsHash = hd_NextValidatorsHash (blk_Header block)\<rparr>
      in broadcast E (\<lambda>c. call (CallFinalizeBlock (acc_Client c) request)
           (app_FinalizeBlock E (acc_Client c) request)))"

section \<open>InitChain\<close>

definition upd_state :: "(comet_state \<Rightarrow> comet_state) \<Rightarrow> ('w, unit) run" where
  "upd_state f = upd_client (\<lambda>a. a\<lparr>CurState := f (CurState a)\<rparr>)"

definition or_panic :: "string + 'a \<Rightarrow> ('w, 'a) run" where
  "or_panic r = (case r of Inl p \<Rightarrow> panic (LibPanic p) | Inr a \<Rightarrow> ret a)"

definition init_validators :: "'w env \<Rightarrow> response_init_chain \<Rightarrow> ('w, unit) run" where
  "init_validators E res =
     (if rsi_Validators res \<noteq> [] then
        (case PB2TM_ValidatorUpdates E (rsi_Validators res) of
           Inl err \<Rightarrow> throw (LibError err)
         | Inr validators \<Rightarrow>
             bindP (or_panic (NewValidatorSet E validators)) (\<lambda>vs.
             seqP (upd_state (\<lambda>st. st\<lparr>st_LastValidators := vs\<rparr>))
            (bindP (or_panic (NewValidatorSet E validators)) (\<lambda>vs.
             seqP (upd_state (\<lambda>st. st\<lparr>st_Validators := vs\<rparr>))
            (bindP (or_panic (NewValidatorSet E validators)) (\<lambda>vs.
             bindP (or_panic (CopyIncrementProposerPriority E vs 1)) (\<lambda>vs.
             upd_state (\<lambda>st. st\<lparr>st_NextValidators := vs\<rparr>))))))))
      else ret ())"

definition init_params :: "'w env \<Rightarrow> response_init_chain \<Rightarrow> ('w, unit) run" where
  "init_params E res =
     (case rsi_ConsensusParams res of
        None \<Rightarrow> ret ()
      | Some updates \<Rightarrow>
          seqP (upd_state (\<lambda>st. st\<lparr>st_ConsensusParams := cp_Update E (st_ConsensusParams st) updates\<rparr>))
            (upd_state (\<lambda>st. st\<lparr>st_Version :=
               (st_Version st)\<lparr>ver_ConsensusApp := cp_VersionApp (st_ConsensusParams st)\<rparr>\<rparr>)))"

definition UpdateStateFromInit :: "'w env \<Rightarrow> response_init_chain \<Rightarrow> ('w, unit) run" where
  "UpdateStateFromInit E res =
     seqP (if rsi_AppHash res \<noteq> [] then upd_state (\<lambda>st. st\<lparr>st_AppHash := rsi_AppHash res\<rparr>) else ret ())
    (seqP (init_validators E res)
    (seqP (init_params E res)
     (upd_state (\<lambda>st. st\<lparr>st_LastResultsHash := HashFromByteSlices_nil E\<rparr>))))"

definition SendInitChain :: "'w env \<Rightarrow> comet_state \<Rightarrow> genesis_doc \<Rightarrow> ('w, unit) run" where
  "SendInitChain E genesisState genesisDoc =
     bindP (lift_outcome (CreateInitChainRequest E genesisState genesisDoc)) (\<lambda>initChainRequest.
     bindP (broadcast E (\<lambda>c. call (CallInitChain (acc_Client c) initChainRequest)
              (app_InitChain E (acc_Client c) initChainRequest))) (\<lambda>res.
     UpdateStateFromInit E res))"

section \<open>Lemmas about the loop\<close>

lemmas send_defs = SendAbciInfo_def SendCommit_def SendCheckTx_def SendAbciQuery_def SendFinalizeBlock_def

lemma keeps_broadcast [keeps_intros]:
  "env_blind P \<Longrightarrow> (\<And>c. keeps P (ask c)) \<Longrightarrow> keeps P (broadcast E ask)"
  by (auto simp: broadcast_def intro!: keeps_intros)

lemma keeps_sends [keeps_intros]:
  assumes "env_blind P"
  shows "keeps P (SendAbciInfo E)" "keeps P (SendCommit E)" "keeps P (SendCheckTx E ty tx)"
    "keeps P (SendAbciQuery E d p h b)" "keeps P (SendFinalizeBlock E blk lci)"
  using assms by (auto simp: send_defs Let_def intro!: keeps_intros)

lemma call_core: "call k f s = (r, t) \<Longrightarrow> core t = core s"
  by (auto simp: call_def core_def split: prod.splits)

lemma call_log: "call k f s = (r, t) \<Longrightarrow> abci_log t = abci_log s @ [k]"
  by (auto simp: call_def split: prod.splits)

lemma call_not_blocked: "fst (call k f s) \<noteq> Blocked"
  by (auto simp: call_def split: prod.split sum.split)

lemma collect_call_log:
  assumes "collect (\<lambda>c. call (k c) (f c)) cs s = (r, t)"
  shows "\<exists>n \<le> length cs. abci_log t = abci_log s @ map k (take n cs)
    \<and> (\<forall>rs. r = Return rs \<longrightarrow> n = length cs)"
  using assms
proof (induction cs arbitrary: s r t)
  case Nil
  then show ?case by simp
next
  case (Cons c cs)
  obtain r1 u where c1: "call (k c) (f c) s = (r1, u)" by fastforce
  note log1 = call_log [OF c1]
  show ?case
  proof (cases "\<exists>a. r1 = Return a")
    case False
    then have "t = u" "\<forall>rs. r \<noteq> Return rs" using Cons.prems c1 by (cases r1; auto simp: run_bindP)+
    then show ?thesis using log1 by (intro exI [of _ 1]) simp
  next
    case True
    obtain r2 v where c2: "collect (\<lambda>c. call (k c) (f c)) cs u = (r2, v)" by fastforce
    then obtain n where n: "n \<le> length cs" "abci_log v = abci_log u @ map k (take n cs)"
        "\<forall>rs. r2 = Return rs \<longrightarrow> n = length cs"
      using Cons.IH by blast
    have "t = v" "\<forall>rs. r = Return rs \<longrightarrow> (\<exists>rs'. r2 = Return rs')"
      using Cons.prems c1 c2 True by (cases r2; auto simp: run_bindP)+
    then show ?thesis using n log1 by (intro exI [of _ "Suc n"]) auto
  qed
qed

lemma collect_not_blocked:
  "(\<And>x s. fst (f x s) \<noteq> Blocked) \<Longrightarrow> fst (collect f xs s) \<noteq> Blocked"
proof (induction xs arbitrary: s)
  case (Cons x xs)
  obtain r1 u where 1: "f x s = (r1, u)" by fastforce
  obtain r2 v where 2: "collect f xs u = (r2, v)" by fastforce
  have "r1 \<noteq> Blocked" "r2 \<noteq> Blocked"
    using Cons.prems [of x s] Cons.IH [of u] Cons.prems 1 2 by force+
  then show ?case using 1 2 by (cases r1; cases r2) (auto simp: run_bindP)
qed simp

lemma broadcast_Return_iff:
  "broadcast E ask s = (Return r, t) \<longleftrightarrow>
     (\<exists>cs u rs. range_clients E s = (Return cs, u) \<and> collect ask cs u = (Return (r # rs), t)
        \<and> (ErrorOnUnequalResponses (client t) \<longrightarrow> set rs \<subseteq> {r}))"
  by (fastforce simp: broadcast_def bindP_Return_iff list_ex_iff split: if_splits list.splits)

lemma range_clients_Return: "\<exists>cs t. range_clients E s = (Return cs, t)"
  by (simp add: range_clients_def split: prod.split)

text \<open>What a broadcast adds to the history, whatever its outcome.\<close>

lemma broadcast_log:
  assumes "orders_maps E" "distinct (map fst (Clients (client s)))"
    and "broadcast E (\<lambda>c. call (k c) (f c)) s = (r, t)"
  shows "\<exists>cs n. mset cs = mset (map snd (Clients (client s))) \<and> n \<le> length cs
    \<and> abci_log t = abci_log s @ map k (take n cs) \<and> (\<forall>x. r = Return x \<longrightarrow> n = length cs)"
proof -
  obtain cs u where rc: "range_clients E s = (Return cs, u)" using range_clients_Return by blast
  have cs: "mset cs = mset (map snd (Clients (client s)))" "abci_log u = abci_log s"
    using range_clients_perm [OF assms(1,2) rc] by auto
  obtain r2 v where c: "collect (\<lambda>c. call (k c) (f c)) cs u = (r2, v)" by fastforce
  then obtain n where n: "n \<le> length cs" "abci_log v = abci_log u @ map k (take n cs)"
      "\<forall>rs. r2 = Return rs \<longrightarrow> n = length cs"
    using collect_call_log by blast
  have "t = v" "\<forall>x. r = Return x \<longrightarrow> (\<exists>rs. r2 = Return rs)"
    using assms(3) rc c
    by (cases r2; auto simp: broadcast_def run_bindP split: if_splits list.splits)+
  then show ?thesis using cs n by auto
qed

lemma broadcast_not_blocked:
  assumes "\<And>c s. fst (ask c s) \<noteq> Blocked"
  shows "fst (broadcast E ask s) \<noteq> Blocked"
proof -
  obtain cs u where rc: "range_clients E s = (Return cs, u)" using range_clients_Return by blast
  obtain r2 v where c: "collect ask cs u = (r2, v)" by fastforce
  then have "r2 \<noteq> Blocked" using collect_not_blocked [of ask cs u] assms by auto
  then show ?thesis using rc c
    by (cases r2) (auto simp: broadcast_def run_bindP split: list.split)
qed

section \<open>The contract of a broadcast\<close>

locale fan_out =
  fixes E :: "'w env" and send :: "('w, 'r) run" and made_call :: "counterparty \<Rightarrow> abci_call"
  assumes keeps_core: "keeps (\<lambda>s. core s = x) send"
    and asks: "orders_maps E \<Longrightarrow> distinct (map fst (Clients (client s))) \<Longrightarrow> send s = (r, t) \<Longrightarrow>
      \<exists>cs n. mset cs = mset (map snd (Clients (client s))) \<and> n \<le> length cs
        \<and> abci_log t = abci_log s @ map made_call (take n cs) \<and> (\<forall>x. r = Return x \<longrightarrow> n = length cs)"
    and never_blocks: "fst (send s) \<noteq> Blocked"
begin

lemma client_unchanged: "send s = (r, t) \<Longrightarrow> client t = client s"
  using keeps_run [OF keeps_core, of s r t "core s"] by (simp add: core_def)

lemma core_unchanged: "send s = (r, t) \<Longrightarrow> core t = core s"
  by (rule keeps_run [OF keeps_core]) auto

lemma returned_calls:
  assumes "orders_maps E" "distinct (map fst (Clients (client s)))" "send s = (Return x, t)"
  shows "\<exists>new. abci_log t = abci_log s @ new
    \<and> mset new = image_mset made_call (mset (map snd (Clients (client s))))"
proof -
  obtain cs where "mset cs = mset (map snd (Clients (client s)))"
      "abci_log t = abci_log s @ map made_call cs"
    using asks [OF assms] by auto
  then show ?thesis by (intro exI [of _ "map made_call cs"]) (simp only: mset_map)
qed

lemma calls_at_most_once:
  assumes "orders_maps E" "distinct (map fst (Clients (client s)))" "send s = (r, t)"
  shows "\<exists>new. abci_log t = abci_log s @ new
    \<and> mset new \<subseteq># image_mset made_call (mset (map snd (Clients (client s))))"
proof -
  obtain cs n where cs: "mset cs = mset (map snd (Clients (client s)))"
      "abci_log t = abci_log s @ map made_call (take n cs)"
    using asks [OF assms] by auto
  have "mset (take n cs) \<subseteq># mset cs" by (metis append_take_drop_id mset_append mset_subset_eq_add_left)
  then have "mset (map made_call (take n cs)) \<subseteq># image_mset made_call (mset cs)"
    by (simp add: image_mset_subseteq_mono)
  then show ?thesis using cs by (intro exI [of _ "map made_call (take n cs)"]) simp
qed

end

lemma broadcast_fan_out: "fan_out E (broadcast E (\<lambda>c. call (k c) (f c))) k"
proof (unfold_locales, goal_cases)
  case (1 x)
  show ?case by (auto intro!: keeps_intros)
next
  case (2 s r t)
  then show ?case by (rule broadcast_log)
next
  case (3 s)
  show ?case by (rule broadcast_not_blocked) (rule call_not_blocked)
qed

definition finalize_request :: "'w env \<Rightarrow> block \<Rightarrow> commit_info \<Rightarrow> request_finalize_block" where
  "finalize_request E block lci =
     \<lparr>rfb_Txs = blk_Txs block, rfb_DecidedLastCommit = lci,
      rfb_Misbehavior = evidence_ToABCI E (blk_Evidence block),
      rfb_Height = hd_Height (blk_Header block), rfb_Hash = block_Hash E block,
      rfb_Time = hd_Time (blk_Header block),
      rfb_ProposerAddress = hd_ProposerAddress (blk_Header block),
      rfb_NextValidatorsHash = hd_NextValidatorsHash (blk_Header block)\<rparr>"

interpretation commit_call: fan_out E "SendCommit E" "\<lambda>c. CallCommit (acc_Client c)" for E :: "'w env"
  unfolding SendCommit_def by (rule broadcast_fan_out)

interpretation check_call: fan_out E "SendCheckTx E ty tx"
    "\<lambda>c. CallCheckTx (acc_Client c) \<lparr>rct_Tx = tx, rct_Type = ty\<rparr>" for E :: "'w env" and ty and tx
  unfolding SendCheckTx_def Let_def by (rule broadcast_fan_out)

interpretation info_call: fan_out E "SendAbciInfo E" "\<lambda>c. CallInfo (acc_Client c)" for E :: "'w env"
  unfolding SendAbciInfo_def by (rule broadcast_fan_out)

interpretation query_call: fan_out E "SendAbciQuery E d p h b"
    "\<lambda>c. CallQuery (acc_Client c) \<lparr>rq_Data = d, rq_Path = p, rq_Height = h, rq_Prove = b\<rparr>"
    for E :: "'w env" and d p h b
  unfolding SendAbciQuery_def Let_def by (rule broadcast_fan_out)

interpretation finalize_call: fan_out E "SendFinalizeBlock E blk lci"
    "\<lambda>c. CallFinalizeBlock (acc_Client c) (finalize_request E blk lci)" for E :: "'w env" and blk lci
  unfolding SendFinalizeBlock_def Let_def finalize_request_def by (rule broadcast_fan_out)

end
