(* ===== verification/Block_Proposal.thy ===== *)
theory Block_Proposal
  imports Abci_Calls
begin

text \<open>
  The steps of \<open>abci_client/client.go\<close> that talk to one application while a block is decided:
  \<open>CreateProposalBlock\<close>, \<open>decideProposal\<close>, \<open>ProcessProposal\<close> and \<open>ExtendAndSignVote\<close>.
\<close>

section \<open>PrepareProposal\<close>

definition CreateProposalBlock ::
    "'w env \<Rightarrow> counterparty \<Rightarrow> validator \<Rightarrow> int \<Rightarrow> comet_state \<Rightarrow> ext_commit \<Rightarrow> tx list \<Rightarrow> evidence list
      \<Rightarrow> ('w, block) run" where
  "CreateProposalBlock E proposerApp proposerVal height curState lastExtCommit txs misbehaviour =
     (let commit = ec_ToCommit E lastExtCommit;
          block = MakeBlock E curState height txs commit misbehaviour (val_Address proposerVal)
      in bindP (lift_outcome (BuildExtendedCommitInfo E lastExtCommit (st_LastValidators curState)
                  (st_InitialHeight curState) (cp_ABCI (st_ConsensusParams curState)))) (\<lambda>localLastCommit.
         let request =
           \<lparr>rpp_MaxTxBytes = MaxBlockSizeBytes E, rpp_Txs = blk_Txs block,
            rpp_LocalLastCommit = localLastCommit,
            rpp_Misbehavior = evidence_ToABCI E (blk_Evidence block),
            rpp_Height = hd_Height (blk_Header block), rpp_Time = hd_Time (blk_Header block),
            rpp_NextValidatorsHash = hd_NextValidatorsHash (blk_Header block),
            rpp_ProposerAddress = hd_ProposerAddress (blk_Header block)\<rparr>
         in bindP (attempt (call (CallPrepareProposal (acc_Client proposerApp) request)
                     (app_PrepareProposal E (acc_Client proposerApp) request))) (\<lambda>response.
            case response of
              Inl err \<Rightarrow> panic (PrepareProposalPanic err)
            | Inr modifiedTxs \<Rightarrow>
               (case txs_Validate E modifiedTxs (MaxBlockSizeBytes E) of
                  Some err \<Rightarrow> throw (LibError err)
                | None \<Rightarrow> ret (MakeBlock E curState height modifiedTxs commit misbehaviour
                    (hd_ProposerAddress (blk_Header block)))))))"

text \<open>A failure to sign the proposal is only logged.\<close>

definition decideProposal ::
    "'w env \<Rightarrow> counterparty \<Rightarrow> validator \<Rightarrow> int \<Rightarrow> int \<Rightarrow> tx list \<Rightarrow> evidence list \<Rightarrow> ('w, proposal \<times> block) run"
  where
  "decideProposal E proposerApp proposerVal height round txs misbehaviour =
     bindP (get_client CurState) (\<lambda>curState.
     bindP (get_client LastCommit) (\<lambda>lastCommit.
     bindP (CreateProposalBlock E proposerApp proposerVal height curState lastCommit txs misbehaviour) (\<lambda>block.
       case MakePartSet E block (BlockPartSizeBytes E) of
         Inl err \<Rightarrow> throw (ProposalPartSetError (LibError err))
       | Inr blockParts \<Rightarrow>
           bindP (gets world) (\<lambda>w.
           let propBlockID = \<lparr>bid_Hash = block_Hash E block, bid_PartSetHeader = ps_Header E blockParts\<rparr>;
               proposal = NewProposal E height round 0 propBlockID w
           in case SignProposal E (acc_PrivValidator proposerApp) (st_ChainID curState) proposal of
                Inr signature \<Rightarrow> ret (proposal\<lparr>pr_Signature := signature\<rparr>, block)
              | Inl err \<Rightarrow> ret (proposal, block)))))"

section \<open>ProcessProposal\<close>

definition process_request :: "'w env \<Rightarrow> block \<Rightarrow> bytes \<Rightarrow> commit_info \<Rightarrow> request_process_proposal" where
  "process_request E block h lastCommitInfo =
     \<lparr>rqp_Hash = h, rqp_Height = hd_Height (blk_Header block), rqp_Time = hd_Time (blk_Header block),
      rqp_Txs = blk_Txs block, rqp_ProposedLastCommit = lastCommitInfo,
      rqp_Misbehavior = evidence_ToABCI E (blk_Evidence block),
      rqp_ProposerAddress = hd_ProposerAddress (blk_Header block),
      rqp_NextValidatorsHash = hd_NextValidatorsHash (blk_Header block)\<rparr>"

definition ProcessProposal :: "'w env \<Rightarrow> counterparty \<Rightarrow> block \<Rightarrow> ('w, bool) run" where
  "ProcessProposal E app block =
     bindP (get_client CurState) (\<lambda>curState.
     bindP (lift_outcome (BuildLastCommitInfo E block (st_Validators curState) (st_InitialHeight curState)))
       (\<lambda>lastCommitInfo.
         let request = process_request E block (header_Hash E (blk_Header block)) lastCommitInfo
         in bindP (call (CallProcessProposal (acc_Client app) request)
                     (app_ProcessProposal E (acc_Client app) request)) (\<lambda>status.
            if status = StatusUnknown then panic ProcessProposalUnknown
            else ret (status = StatusAccept))))"

section \<open>ExtendVote and the signature\<close>

definition ExtendAndSignVote ::
    "'w env \<Rightarrow> counterparty \<Rightarrow> validator \<Rightarrow> int \<Rightarrow> block \<Rightarrow> ('w, vote) run" where
  "ExtendAndSignVote E app validator valIndex block =
     (case MakePartSet E block (BlockPartSizeBytes E) of
        Inl err \<Rightarrow> panic (PartSetPanic err)
      | Inr blockParts \<Rightarrow>
     (case blk_LastCommit block of
        None \<Rightarrow> panic NilDereference
      | Some lastCommit \<Rightarrow>
     (let vote0 =
        \<lparr>vt_Type = PrecommitType E, vt_Height = hd_Height (blk_Header block),
         vt_Round = cm_Round lastCommit,
         vt_BlockID = \<lparr>bid_Hash = block_Hash E block, bid_PartSetHeader = ps_Header E blockParts\<rparr>,
         vt_Timestamp = hd_Time (blk_Header block),
         vt_ValidatorAddress = val_Address validator, vt_ValidatorIndex = valIndex,
         vt_Signature = [], vt_Extension = [], vt_ExtensionSignature = []\<rparr>
      in bindP (get_client CurState) (\<lambda>curState.
         let enabled = VoteExtensionsEnabled E (cp_ABCI (st_ConsensusParams curState)) (vt_Height vote0)
         in bindP
              (if enabled then
                 bindP (lift_outcome (BuildLastCommitInfo E block (st_Validators curState)
                          (st_InitialHeight curState))) (\<lambda>lastCommitInfo.
                 let request = process_request E block (bid_Hash (vt_BlockID vote0)) lastCommitInfo
                 in bindP (wrap_error ExtendingVoteError (call (CallExtendVote (acc_Client app) request)
                             (app_ExtendVote E (acc_Client app) request)))
                      (\<lambda>ext. ret (vote0\<lparr>vt_Extension := ext\<rparr>)))
               else ret vote0)
            (\<lambda>vote.
              case SignVote E (acc_PrivValidator app) (st_ChainID curState) (vote_ToProto E vote) of
                (err, protoVote) \<Rightarrow>
                 (case err of
                    Some e \<Rightarrow> throw (VoteSignatureError (LibError e))
                  | None \<Rightarrow> ret (vote\<lparr>vt_Signature := vt_Signature protoVote,
                      vt_ExtensionSignature := (if enabled then vt_ExtensionSignature protoVote else [])\<rparr>)))))))"

section \<open>Lemmas\<close>

lemma keeps_CreateProposalBlock [keeps_intros]:
  "env_blind P \<Longrightarrow> keeps P (CreateProposalBlock E app v h st ec txs evs)"
  by (auto simp: CreateProposalBlock_def Let_def intro!: keeps_intros)

lemma keeps_decideProposal [keeps_intros]:
  "env_blind P \<Longrightarrow> keeps P (decideProposal E app v h r txs evs)"
  by (auto simp: decideProposal_def Let_def intro!: keeps_intros)

lemma keeps_ProcessProposal [keeps_intros]: "env_blind P \<Longrightarrow> keeps P (ProcessProposal E app b)"
  by (auto simp: ProcessProposal_def Let_def intro!: keeps_intros)

lemma keeps_ExtendAndSignVote [keeps_intros]: "env_blind P \<Longrightarrow> keeps P (ExtendAndSignVote E app v i b)"
  by (auto simp: ExtendAndSignVote_def Let_def intro!: keeps_intros)

text \<open>
  Documented behaviour of \<open>State.MakeBlock\<close>: the block carries the height, transactions, commit,
  evidence and proposer it is made from.
\<close>

definition makes_blocks :: "'w env \<Rightarrow> bool" where
  "makes_blocks E \<longleftrightarrow> (\<forall>st h txs c evs p.
     hd_Height (blk_Header (MakeBlock E st h txs c evs p)) = h
     \<and> blk_Txs (MakeBlock E st h txs c evs p) = txs
     \<and> blk_Evidence (MakeBlock E st h txs c evs p) = evs
     \<and> blk_LastCommit (MakeBlock E st h txs c evs p) = Some c
     \<and> hd_ProposerAddress (blk_Header (MakeBlock E st h txs c evs p)) = p)"

lemma sample_makes_blocks: "makes_blocks sample_env"
  by (simp add: makes_blocks_def sample_env_def sample_block_of_def)

lemma CreateProposalBlock_made:
  assumes "makes_blocks E" "CreateProposalBlock E app v h st ec txs evs s = (Return b, t)"
  obtains txs' where "b = MakeBlock E st h txs' (ec_ToCommit E ec) evs (val_Address v)"
    "txs_Validate E txs' (MaxBlockSizeBytes E) = None"
  using assms unfolding CreateProposalBlock_def makes_blocks_def Let_def
  by (auto elim!: bindP_ReturnE split: sum.splits option.splits)

lemma decideProposal_block:
  assumes "makes_blocks E" "decideProposal E app v h r txs evs s = (Return (p, b), t)"
  shows "hd_Height (blk_Header b) = h" "blk_Evidence b = evs"
    "blk_LastCommit b = Some (ec_ToCommit E (LastCommit (client s)))"
    "hd_ProposerAddress (blk_Header b) = val_Address v"
    "txs_Validate E (blk_Txs b) (MaxBlockSizeBytes E) = None"
proof -
  obtain u where "CreateProposalBlock E app v h (CurState (client s)) (LastCommit (client s)) txs evs s = (Return b, u)"
    using assms(2) unfolding decideProposal_def Let_def
    by (auto elim!: bindP_ReturnE split: sum.splits)
  then obtain txs' where b: "b = MakeBlock E (CurState (client s)) h txs' (ec_ToCommit E (LastCommit (client s))) evs
      (val_Address v)" "txs_Validate E txs' (MaxBlockSizeBytes E) = None"
    by (rule CreateProposalBlock_made [OF assms(1)])
  show "hd_Height (blk_Header b) = h" "blk_Evidence b = evs"
    "blk_LastCommit b = Some (ec_ToCommit E (LastCommit (client s)))"
    "hd_ProposerAddress (blk_Header b) = val_Address v"
    "txs_Validate E (blk_Txs b) (MaxBlockSizeBytes E) = None"
    using b assms(1) unfolding makes_blocks_def by simp_all
qed

lemma ExtendAndSignVote_vote:
  assumes "ExtendAndSignVote E app v i b s = (Return vote, t)"
  shows "vt_ValidatorAddress vote = val_Address v" "vt_ValidatorIndex vote = i"
    "vt_Height vote = hd_Height (blk_Header b)" "vt_Timestamp vote = hd_Time (blk_Header b)"
    "vt_Type vote = PrecommitType E" "bid_Hash (vt_BlockID vote) = block_Hash E b"
    "MakePartSet E b (BlockPartSizeBytes E) = Inr ps \<Longrightarrow> bid_PartSetHeader (vt_BlockID vote) = ps_Header E ps"
    "blk_LastCommit b = Some c \<Longrightarrow> vt_Round vote = cm_Round c"
    "\<not> VoteExtensionsEnabled E (cp_ABCI (st_ConsensusParams (CurState (client s)))) (hd_Height (blk_Header b))
      \<Longrightarrow> vt_Extension vote = [] \<and> vt_ExtensionSignature vote = []"
    "\<exists>ps. MakePartSet E b (BlockPartSizeBytes E) = Inr ps
      \<and> vt_BlockID vote = \<lparr>bid_Hash = block_Hash E b, bid_PartSetHeader = ps_Header E ps\<rparr>"
  using assms
  by (auto simp: ExtendAndSignVote_def Let_def prog_Return_iffs split_def
      split: sum.splits option.splits if_splits)

end
