(* ===== verification/Evidence_Builder.thy ===== *)
theory Evidence_Builder
  imports Block_Proposal
begin

text \<open>
  The evidence of \<open>abci_client/client.go\<close>: \<open>ConstructDuplicateVoteEvidence\<close> and
  \<open>ConstructLightClientAttackEvidence\<close>. The protobuf forms of votes and block identifiers have the
  fields of the others, so they are the same records.
\<close>

section \<open>Definitions\<close>

text \<open>\<open>types.VoteFromProto\<close> followed by \<open>ValidateBasic\<close>.\<close>

definition checked_vote :: "'w env \<Rightarrow> vote \<Rightarrow> ('w, vote) run" where
  "checked_vote E v =
     (case VoteFromProto E v of
        Inl err \<Rightarrow> throw (LibError err)
      | Inr converted \<Rightarrow>
         (case vote_ValidateBasic E converted of
            Some err \<Rightarrow> throw (LibError err)
          | None \<Rightarrow> ret converted))"

text \<open>The vote literal of the source, which only differs in the round.\<close>

definition evidence_vote :: "'w env \<Rightarrow> validator \<Rightarrow> block \<Rightarrow> block_id \<Rightarrow> int \<Rightarrow> int \<Rightarrow> vote" where
  "evidence_vote E v lastBlock blockId index round =
     \<lparr>vt_Type = PrecommitType E, vt_Height = hd_Height (blk_Header lastBlock), vt_Round = round,
      vt_BlockID = blockId, vt_Timestamp = hd_Time (blk_Header lastBlock),
      vt_ValidatorAddress = val_Address v, vt_ValidatorIndex = i32 index,
      vt_Signature = [], vt_Extension = [], vt_ExtensionSignature = []\<rparr>"

definition ConstructDuplicateVoteEvidence ::
    "'w env \<Rightarrow> validator \<Rightarrow> ('w, duplicate_vote_evidence) run" where
  "ConstructDuplicateVoteEvidence E v =
     bindP (get_client (\<lambda>a. map_of (Clients a) (addr_String E (val_Address v)))) (\<lambda>entry.
     bindP (get_client LastBlock) (\<lambda>lastBlock.
     bindP (lift_outcome (GetBlockIdFromBlock E lastBlock)) (\<lambda>blockId.
     bindP (in_storage (GetState (hd_Height (blk_Header lastBlock)))) (\<lambda>lastState.
       case vs_GetByAddress E (st_Validators lastState) (val_Address v) of
         (index, valInLastState) \<Rightarrow>
           (let voteA = evidence_vote E v lastBlock blockId index 1;
                voteB = evidence_vote E v lastBlock blockId index 2
            in case entry of
                 None \<Rightarrow> panic NilDereference
               | Some c \<Rightarrow>
                   bindP (get_client (\<lambda>a. st_ChainID (CurState a))) (\<lambda>chainID.
                   bindP (checked_vote E (snd (SignVote E (acc_PrivValidator c) chainID voteA))) (\<lambda>convertedVoteA.
                   bindP (checked_vote E (snd (SignVote E (acc_PrivValidator c) chainID voteB))) (\<lambda>convertedVoteB.
                     case valInLastState of
                       None \<Rightarrow> panic NilDereference
                     | Some valInLast \<Rightarrow>
                         ret \<lparr>dve_VoteA = convertedVoteA, dve_VoteB = convertedVoteB,
                           dve_TotalVotingPower = vs_TotalVotingPower E (st_Validators lastState),
                           dve_ValidatorPower = val_VotingPower valInLast,
                           dve_Timestamp = hd_Time (blk_Header lastBlock)\<rparr>))))))))"

definition ConstructLightClientAttackEvidence ::
    "'w env \<Rightarrow> validator \<Rightarrow> misbehaviour_type \<Rightarrow> ('w, light_client_attack_evidence) run" where
  "ConstructLightClientAttackEvidence E v misbehaviourType =
     bindP (get_client LastBlock) (\<lambda>lastBlock.
     bindP (in_storage (GetState (hd_Height (blk_Header lastBlock)))) (\<lambda>lastState.
       case deepcopy_Anything E lastBlock of
         Inl err \<Rightarrow> throw (LibError err)
       | Inr cp \<Rightarrow>
           bindP
             (case misbehaviourType of
                Lunatic \<Rightarrow> ret ((blk_Header cp)\<lparr>hd_AppHash := ''some other app hash''\<rparr>)
              | Amnesia \<Rightarrow> ret (blk_Header cp)
              | Equivocation \<Rightarrow>
                  ret ((blk_Header cp)\<lparr>hd_Time := time_Add (hd_Time (blk_Header cp)) (1 * nano_second)\<rparr>)
              | DuplicateVote \<Rightarrow> throw (UnknownLightClientMisbehaviour misbehaviourType))
           (\<lambda>conflictingHeader.
             bindP (get_client LastCommit) (\<lambda>lastCommit.
             bindP (get_client (\<lambda>a. st_Validators (CurState a))) (\<lambda>validators.
               ret \<lparr>lcae_TotalVotingPower = vs_TotalVotingPower E (st_Validators lastState),
                 lcae_Timestamp = hd_Time (blk_Header lastBlock),
                 lcae_ByzantineValidators = [v],
                 lcae_CommonHeight = i64 (hd_Height (blk_Header lastBlock) - 1),
                 lcae_ConflictingBlock =
                   \<lparr>lb_SignedHeader = \<lparr>sh_Header = conflictingHeader, sh_Commit = ec_ToCommit E lastCommit\<rparr>,
                    lb_ValidatorSet = validators\<rparr>\<rparr>)))))"

section \<open>Lemmas\<close>

text \<open>
  Reading a state from the store may allocate its map, which no read can see. \<open>same_but_storage\<close>
  relates two systems that agree on everything except that, the history and the environment.
\<close>

definition same_reads :: "map_storage \<Rightarrow> map_storage \<Rightarrow> bool" where
  "same_reads m n \<longleftrightarrow> stateUpdateMutex m = stateUpdateMutex n \<and> made (ms_blocks m) = made (ms_blocks n)
     \<and> made (ms_commits m) = made (ms_commits n) \<and> made (ms_states m) = made (ms_states n)
     \<and> made (ms_responses m) = made (ms_responses n)"

lemma same_reads_refl [simp]: "same_reads m m"
  by (simp add: same_reads_def)

lemma same_reads_GetState: "same_reads m n \<Longrightarrow> same_reads m (snd (GetState h n))"
  by (simp add: same_reads_def reads_frame)

text \<open>A predicate blind to the environment and to the allocation of the store's maps.\<close>

definition read_blind :: "('w sys \<Rightarrow> bool) \<Rightarrow> bool" where
  "read_blind P \<longleftrightarrow> env_blind P \<and> (\<forall>s m. same_reads (Storage (client s)) m \<longrightarrow>
     P (s\<lparr>client := (client s)\<lparr>Storage := m\<rparr>\<rparr>) = P s)"

lemma read_blindD [simp]: "read_blind P \<Longrightarrow> env_blind P"
  by (simp add: read_blind_def)

lemma keeps_GetState [keeps_intros]: "read_blind P \<Longrightarrow> keeps P (in_storage (GetState h))"
  by (intro keeps_in_storage) (simp add: read_blind_def same_reads_GetState)

lemma keeps_checked_vote [keeps_intros]: "keeps P (checked_vote E v)"
  by (auto simp: checked_vote_def intro!: keeps_intros)

lemma keeps_ConstructDuplicateVoteEvidence [keeps_intros]:
  "read_blind P \<Longrightarrow> keeps P (ConstructDuplicateVoteEvidence E v)"
  by (auto simp: ConstructDuplicateVoteEvidence_def Let_def intro!: keeps_intros)

lemma keeps_ConstructLightClientAttackEvidence [keeps_intros]:
  "read_blind P \<Longrightarrow> keeps P (ConstructLightClientAttackEvidence E v m)"
  by (cases m) (auto simp: ConstructLightClientAttackEvidence_def Let_def intro!: keeps_intros)

lemma run_in_storage_GetState:
  assumes "in_storage (GetState h) s = (Return st, t)"
  shows "made (ms_states (Storage (client s))) h = Some st" "\<not> stateUpdateMutex (Storage (client s))"
    "t = s\<lparr>client := (client s)\<lparr>Storage := snd (GetState h (Storage (client s)))\<rparr>\<rparr>"
proof -
  let ?m = "Storage (client s)"
  obtain r n where g: "GetState h ?m = (r, n)" by fastforce
  then have r: "r = Return st" and t: "t = s\<lparr>client := (client s)\<lparr>Storage := n\<rparr>\<rparr>"
    using assms by (simp_all add: in_storage_def)
  show l: "\<not> stateUpdateMutex ?m" using g r reads_blocked(3) [of ?m h] by auto
  show "made (ms_states ?m) h = Some st"
    using run_reads(3) [OF l, of h] g r by (cases "made (ms_states ?m) h") auto
  show "t = s\<lparr>client := (client s)\<lparr>Storage := snd (GetState h ?m)\<rparr>\<rparr>" using g t by simp
qed

end
