(* ===== verification/Run_Block.thy ===== *)
theory Run_Block
  imports Evidence_Builder
begin

text \<open>
  \<open>runBlock_helper\<close> of \<open>abci_client/client.go\<close> and everything around it: the phases of one block in the
  order of the source, \<open>UpdateStateFromBlock\<close> and \<open>fireEvents\<close>, the functions that take the block mutex
  around it, and the operations that run blocks with misbehaviour. The map of misbehaving
  validators is the list of its entries in the order the loop visits them; every caller in the
  source passes at most one entry.
\<close>

section \<open>Transactions\<close>

text \<open>
  One of the two loops that check a queue: \<open>queue\<close> and \<open>set_queue\<close> select it. A rejected transaction is
  overwritten with the empty one, in place.
\<close>

definition check_queue ::
    "'w env \<Rightarrow> check_tx_type \<Rightarrow> (abci_client \<Rightarrow> tx list) \<Rightarrow> (tx list \<Rightarrow> abci_client \<Rightarrow> abci_client)
      \<Rightarrow> ('w, unit) run" where
  "check_queue E checkType queue set_queue =
     bindP (get_client queue) (\<lambda>txs.
       foreach (\<lambda>(index, tx).
         bindP (wrap_error CheckTxError (SendCheckTx E checkType tx)) (\<lambda>resCheckTx.
           if rsc_Code resCheckTx \<noteq> CodeTypeOK E
           then upd_client (\<lambda>a. set_queue ((queue a)[index := []]) a)
           else ret ()))
       (enumerate 0 txs))"

definition check_fresh_txs :: "'w env \<Rightarrow> ('w, unit) run" where
  "check_fresh_txs E = check_queue E CheckTxType_New FreshTxQueue (\<lambda>q a. a\<lparr>FreshTxQueue := q\<rparr>)"

definition check_stale_txs :: "'w env \<Rightarrow> ('w, unit) run" where
  "check_stale_txs E = check_queue E CheckTxType_Recheck StaleTxQueue (\<lambda>q a. a\<lparr>StaleTxQueue := q\<rparr>)"

definition non_empty_txs :: "abci_client \<Rightarrow> tx list" where
  "non_empty_txs a = filter (\<lambda>tx. 0 < length tx) (FreshTxQueue a @ StaleTxQueue a)"

section \<open>Evidence, the proposer and its block\<close>

definition collect_evidence ::
    "'w env \<Rightarrow> (validator \<times> misbehaviour_type) list \<Rightarrow> ('w, evidence list) run" where
  "collect_evidence E misbehavingValidators =
     collect (\<lambda>(v, misbehaviourType).
       wrap_error EvidenceError
         (if misbehaviourType = DuplicateVote
          then bindP (ConstructDuplicateVoteEvidence E v) (\<lambda>ev. ret (DuplicateVoteEvidence ev))
          else bindP (ConstructLightClientAttackEvidence E v misbehaviourType)
                 (\<lambda>ev. ret (LightClientAttackEvidence ev))))
       misbehavingValidators"

definition find_proposer_app :: "'w env \<Rightarrow> bytes \<Rightarrow> ('w, counterparty) run" where
  "find_proposer_app E proposerAddress =
     bindP (range_clients E) (\<lambda>cs.
       case find (\<lambda>c. acc_ValidatorAddress c = addr_String E proposerAddress) cs of
         Some c \<Rightarrow> ret c
       | None \<Rightarrow> throw (ProposerAppNotFound proposerAddress))"

text \<open>
  The block is dereferenced before the error of \<open>decideProposal\<close> is looked at, and it is nil exactly when
  there is one; the same happens inside \<open>decideProposal\<close> to a proposer that is nil.
\<close>

definition propose_block ::
    "'w env \<Rightarrow> counterparty \<Rightarrow> validator option \<Rightarrow> time \<Rightarrow> tx list \<Rightarrow> evidence list \<Rightarrow> ('w, block) run" where
  "propose_block E proposerApp proposer blockTime newTxQueue evidences =
     (case proposer of
        None \<Rightarrow> panic NilDereference
      | Some proposerVal \<Rightarrow>
          bindP (get_client (\<lambda>a. st_LastBlockHeight (CurState a))) (\<lambda>lastHeight.
          bindP (attempt (decideProposal E proposerApp proposerVal (i64 (lastHeight + 1)) 0
                   newTxQueue evidences)) (\<lambda>result.
            case result of
              Inl err \<Rightarrow> panic NilDereference
            | Inr decided \<Rightarrow>
                (let block0 = snd decided;
                     block = block0\<lparr>blk_Header := (blk_Header block0)\<lparr>hd_Time := blockTime\<rparr>\<rparr>
                 in seqP ClearTxs
                   (seqP (foreach (\<lambda>tx.
                       if \<not> Contains (blk_Txs block) tx
                       then upd_client (\<lambda>a. a\<lparr>StaleTxQueue := StaleTxQueue a @ [tx]\<rparr>)
                       else ret ()) newTxQueue)
                    (ret block))))))"

section \<open>The proposal is processed and voted on\<close>

definition current_validators :: "('w, validator list) run" where
  "current_validators = get_client (\<lambda>a. vs_Validators (st_Validators (CurState a)))"

definition counterparty_of :: "'w env \<Rightarrow> validator \<Rightarrow> ('w, counterparty) run" where
  "counterparty_of E val =
     wrap_error (CounterpartyError (addr_String E (val_Address val)))
       (GetCounterpartyFromAddress E (addr_String E (val_Address val)))"

definition find_non_proposers :: "'w env \<Rightarrow> bytes \<Rightarrow> ('w, counterparty list) run" where
  "find_non_proposers E proposerAddress =
     bindP current_validators (\<lambda>vals.
     bindP (collect (counterparty_of E) vals) (\<lambda>clients.
       ret (filter (\<lambda>c. acc_ValidatorAddress c \<noteq> addr_String E proposerAddress) clients)))"

definition process_proposals :: "'w env \<Rightarrow> counterparty list \<Rightarrow> block \<Rightarrow> ('w, unit) run" where
  "process_proposals E nonProposers block =
     foreach (\<lambda>app.
       bindP (wrap_error ProcessProposalError (ProcessProposal E app block)) (\<lambda>accepted.
         if \<not> accepted then throw (ProposalNotAccepted (acc_ValidatorAddress app)) else ret ()))
     nonProposers"

text \<open>A validator that is told not to sign contributes a nil vote.\<close>

definition sign_vote :: "'w env \<Rightarrow> block \<Rightarrow> nat \<times> validator \<Rightarrow> ('w, vote option) run" where
  "sign_vote E block iv =
     (let index = fst iv; val = snd iv; address = addr_String E (val_Address val)
      in bindP (wrap_error (SigningStatusError address) (GetSigningStatus address)) (\<lambda>shouldSign.
         if shouldSign then
           bindP (get_client (\<lambda>a. map_of (Clients a) address)) (\<lambda>entry.
             case entry of
               None \<Rightarrow> throw (PrivvalNotFound address)
             | Some app \<Rightarrow>
                 bindP (wrap_error (SigningVoteError address)
                          (ExtendAndSignVote E app val (i32 (int index)) block))
                   (\<lambda>vote. ret (Some vote)))
         else ret None))"

definition sign_votes :: "'w env \<Rightarrow> block \<Rightarrow> ('w, vote option list) run" where
  "sign_votes E block =
     bindP current_validators (\<lambda>vals. collect (sign_vote E block) (enumerate 0 vals))"

definition verify_extension :: "'w env \<Rightarrow> counterparty \<Rightarrow> block \<Rightarrow> vote option \<Rightarrow> ('w, unit) run" where
  "verify_extension E app block v =
     (case v of
        None \<Rightarrow> ret ()
      | Some vote \<Rightarrow>
          if addr_String E (vt_ValidatorAddress vote) \<noteq> acc_ValidatorAddress app then
            (let request =
               \<lparr>rvv_Hash = block_Hash E block, rvv_ValidatorAddress = vt_ValidatorAddress vote,
                rvv_Height = hd_Height (blk_Header block), rvv_VoteExtension = vt_Extension vote\<rparr>
             in bindP (attempt (call (CallVerifyVoteExtension (acc_Client app) request)
                         (app_VerifyVoteExtension E (acc_Client app) request))) (\<lambda>resp.
                case resp of
                  Inl err \<Rightarrow> panic (VerifyExtensionError err)
                | Inr status \<Rightarrow>
                    if status = StatusUnknown then panic VerifyExtensionUnknown
                    else if status \<noteq> StatusAccept then panic VerifyExtensionRejected
                    else ret ()))
          else ret ())"

definition verify_extensions :: "'w env \<Rightarrow> block \<Rightarrow> vote option list \<Rightarrow> ('w, unit) run" where
  "verify_extensions E block votes =
     bindP (get_client (\<lambda>a. cp_ABCI (st_ConsensusParams (CurState a)))) (\<lambda>abci.
       if VoteExtensionsEnabled E abci (hd_Height (blk_Header block)) then
         bindP current_validators (\<lambda>vals.
           foreach (\<lambda>val. bindP (counterparty_of E val)
             (\<lambda>app. foreach (verify_extension E app block) votes)) vals)
       else ret ())"

section \<open>The commit\<close>

text \<open>\<open>NewExtendedVoteSet\<close> or \<open>NewVoteSet\<close>; the round is 0.\<close>

definition new_vote_set :: "'w env \<Rightarrow> comet_state \<Rightarrow> int \<Rightarrow> vote_set" where
  "new_vote_set E st height =
     \<lparr>vos_Extended = VoteExtensionsEnabled E (cp_ABCI (st_ConsensusParams st)) height,
      vos_ChainID = st_ChainID st, vos_Height = height, vos_Round = 0, vos_Type = PrecommitType E,
      vos_Validators = st_Validators st, vos_Votes = []\<rparr>"

fun add_votes :: "'w env \<Rightarrow> vote_set \<Rightarrow> vote option list \<Rightarrow> vote_set go" where
  "add_votes E voteSet [] = Return voteSet"
| "add_votes E voteSet (None # votes) = add_votes E voteSet votes"
| "add_votes E voteSet (Some vote # votes) =
     (case AddVote E voteSet vote of
        (added, Some err) \<Rightarrow> Error (AddingVoteError (LibError err))
      | (added, None) \<Rightarrow>
          if \<not> added then Error VoteNotAdded
          else add_votes E (voteSet\<lparr>vos_Votes := vos_Votes voteSet @ [vote]\<rparr>) votes)"

definition make_commit :: "'w env \<Rightarrow> block \<Rightarrow> vote option list \<Rightarrow> ('w, unit) run" where
  "make_commit E block votes =
     bindP (get_client CurState) (\<lambda>st.
     bindP (lift_outcome (add_votes E (new_vote_set E st (hd_Height (blk_Header block))) votes)) (\<lambda>voteSet.
     bindP (or_panic (MakeExtendedCommit E voteSet (cp_ABCI (st_ConsensusParams st)))) (\<lambda>lastCommit.
     seqP (upd_client (\<lambda>a. a\<lparr>LastCommit := lastCommit\<rparr>))
       (case VerifyCommitLightTrusting E (st_Validators st) (st_ChainID st) (ec_ToCommit E lastCommit) (1, 3) of
          Some err \<Rightarrow> throw (VerifyingCommitError (LibError err))
        | None \<Rightarrow>
           (case lb_ValidateBasic E
               \<lparr>lb_SignedHeader = \<lparr>sh_Header = blk_Header block, sh_Commit = ec_ToCommit E lastCommit\<rparr>,
                lb_ValidatorSet = st_Validators st\<rparr> (st_ChainID st) of
              Some err \<Rightarrow> throw (LibError err)
            | None \<Rightarrow> ret ())))))"

section \<open>The state update and its events\<close>

text \<open>A failure to publish is only logged.\<close>

definition fireEvents ::
    "block \<Rightarrow> block_id \<Rightarrow> response_finalize_block \<Rightarrow> validator list \<Rightarrow> ('w, unit) run" where
  "fireEvents block blockID abciResponse validatorUpdates =
     (let height = hd_Height (blk_Header block)
      in seqP (publish (EventNewBlock block blockID abciResponse))
        (seqP (publish (EventNewBlockHeader (blk_Header block)))
        (seqP (publish (EventNewBlockEvents height (rsf_Events abciResponse) (int (length (blk_Txs block)))))
        (seqP (foreach (\<lambda>ev. publish (EventNewEvidence ev height)) (blk_Evidence block))
        (seqP (foreach (\<lambda>(i, tx).
            case at_index (rsf_TxResults abciResponse) i of
              None \<Rightarrow> panic IndexOutOfRange
            | Some result \<Rightarrow>
                publish (EventTx \<lparr>tr_Height = height, tr_Index = u32 (int i), tr_Tx = tx, tr_Result = result\<rparr>))
            (enumerate 0 (blk_Txs block)))
         (if validatorUpdates \<noteq> [] then publish (EventValidatorSetUpdates validatorUpdates)
          else ret ()))))))"

definition UpdateStateFromBlock ::
    "'w env \<Rightarrow> block_id \<Rightarrow> block \<Rightarrow> response_finalize_block \<Rightarrow> ('w, unit) run" where
  "UpdateStateFromBlock E blockId block finalizeBlockRes =
     bindP (get_client CurState) (\<lambda>curState.
     seqP (wrap_error ValidatorUpdatesError (lift_outcome
             (validateValidatorUpdates E (rsf_ValidatorUpdates finalizeBlockRes)
               (cp_ValidatorPubKeyTypes (st_ConsensusParams curState)))))
       (case PB2TM_ValidatorUpdates E (rsf_ValidatorUpdates finalizeBlockRes) of
          Inl err \<Rightarrow> throw (ConvertingUpdatesError (LibError err))
        | Inr validatorUpdates \<Rightarrow>
            bindP (wrap_error UpdatingStateError (lift_outcome
                     (UpdateState E curState blockId (blk_Header block) finalizeBlockRes validatorUpdates)))
              (\<lambda>newState.
            seqP (upd_client (\<lambda>a. a\<lparr>CurState := newState\<rparr>))
              (fireEvents block blockId finalizeBlockRes validatorUpdates))))"

text \<open>The part of a block after the answer to FinalizeBlock. An error before the unlock leaves the store locked.\<close>

definition store_and_commit :: "'w env \<Rightarrow> int \<Rightarrow> block \<Rightarrow> response_finalize_block \<Rightarrow> ('w, unit) run" where
  "store_and_commit E newHeight block resFinalizeBlock =
     seqP (in_storage LockBeforeStateUpdate)
    (seqP (upd_client (\<lambda>a. a\<lparr>LastBlock := block\<rparr>))
    (bindP (get_client CurState) (\<lambda>state.
     bindP (get_client (\<lambda>a. ec_ToCommit E (LastCommit a))) (\<lambda>commit.
     seqP (wrap_error UpdatingStoresError
             (in_storage (UpdateStores newHeight block commit state resFinalizeBlock)))
    (bindP (wrap_error BlockIdError (lift_outcome (GetBlockIdFromBlock E block))) (\<lambda>blockId.
     seqP (wrap_error UpdatingStateForResultError (UpdateStateFromBlock E blockId block resFinalizeBlock))
    (seqP (in_storage UnlockAfterStateUpdate)
    (seqP (wrap_error CommitError (SendCommit E))
     (upd_state (\<lambda>st. st\<lparr>st_AppHash := rsf_AppHash resFinalizeBlock\<rparr>))))))))))"

definition finalize_and_commit :: "'w env \<Rightarrow> int \<Rightarrow> block \<Rightarrow> ('w, unit) run" where
  "finalize_and_commit E newHeight block =
     bindP (get_client CurState) (\<lambda>st.
     bindP (lift_outcome (BuildLastCommitInfo E block (st_Validators st) (st_InitialHeight st))) (\<lambda>lastCommitInfo.
     bindP (wrap_error FinalizeBlockError (SendFinalizeBlock E block lastCommitInfo)) (\<lambda>resFinalizeBlock.
     store_and_commit E newHeight block resFinalizeBlock)))"

section \<open>A block\<close>

definition runBlock_helper ::
    "'w env \<Rightarrow> time \<Rightarrow> validator option \<Rightarrow> (validator \<times> misbehaviour_type) list \<Rightarrow> ('w, unit) run" where
  "runBlock_helper E blockTime proposer misbehavingValidators =
     bindP (get_client (\<lambda>a. i64 (st_LastBlockHeight (CurState a) + 1))) (\<lambda>newHeight.
     seqP (check_fresh_txs E)
    (seqP (check_stale_txs E)
    (bindP (get_client non_empty_txs) (\<lambda>newTxQueue.
     let proposerAddress = (case proposer of None \<Rightarrow> [] | Some p \<Rightarrow> val_Address p)
     in bindP (collect_evidence E misbehavingValidators) (\<lambda>evidences.
        bindP (find_proposer_app E proposerAddress) (\<lambda>proposerApp.
        bindP (propose_block E proposerApp proposer blockTime newTxQueue evidences) (\<lambda>block.
        bindP (find_non_proposers E proposerAddress) (\<lambda>nonProposers.
        seqP (process_proposals E nonProposers block)
       (bindP (sign_votes E block) (\<lambda>votes.
        seqP (verify_extensions E block votes)
       (seqP (make_commit E block votes)
        (finalize_and_commit E newHeight block))))))))))))"

text \<open>The unlock is a plain statement, not a deferred one: a panic of the helper skips it.\<close>

definition RunBlockWithTimeAndProposer ::
    "'w env \<Rightarrow> time \<Rightarrow> validator option \<Rightarrow> (validator \<times> misbehaviour_type) list \<Rightarrow> ('w, unit) run" where
  "RunBlockWithTimeAndProposer E blockTime proposer misbehavingValidators =
     seqP blockMutex_Lock
    (bindP (attempt (runBlock_helper E blockTime proposer misbehavingValidators)) (\<lambda>err.
     seqP blockMutex_Unlock
       (case err of Inl e \<Rightarrow> throw e | Inr _ \<Rightarrow> ret ())))"

definition last_proposer :: "('w, validator option) run" where
  "last_proposer = get_client (\<lambda>a. vs_Proposer (st_LastValidators (CurState a)))"

definition RunBlockWithEvidence :: "'w env \<Rightarrow> (validator \<times> misbehaviour_type) list \<Rightarrow> ('w, unit) run" where
  "RunBlockWithEvidence E misbehavingValidators =
     bindP (get_client (\<lambda>a. hd_Time (blk_Header (LastBlock a)))) (\<lambda>lastTime.
     bindP (GetBlockTime E lastTime) (\<lambda>blockTime.
     bindP last_proposer (\<lambda>proposer.
     RunBlockWithTimeAndProposer E blockTime proposer misbehavingValidators)))"

definition RunBlock :: "'w env \<Rightarrow> ('w, unit) run" where
  "RunBlock E =
     bindP (get_client (\<lambda>a. hd_Time (blk_Header (LastBlock a)))) (\<lambda>lastTime.
     bindP (GetBlockTime E lastTime) (\<lambda>blockTime.
     bindP last_proposer (\<lambda>proposer.
     RunBlockWithTimeAndProposer E blockTime proposer [])))"

definition RunBlockWithTime :: "'w env \<Rightarrow> time \<Rightarrow> ('w, unit) run" where
  "RunBlockWithTime E t =
     bindP last_proposer (\<lambda>proposer. RunBlockWithTimeAndProposer E t proposer [])"

definition RunEmptyBlocks :: "'w env \<Rightarrow> int \<Rightarrow> ('w, unit) run" where
  "RunEmptyBlocks E numBlocks = foreach (\<lambda>_. RunBlock E) [0..<nat numBlocks]"

definition CauseLightClientAttack :: "'w env \<Rightarrow> string \<Rightarrow> string \<Rightarrow> ('w, unit) run" where
  "CauseLightClientAttack E address misbehaviourType =
     bindP (GetValidatorFromAddress E address) (\<lambda>validator.
       if misbehaviourType = ''Lunatic'' then RunBlockWithEvidence E [(validator, Lunatic)]
       else if misbehaviourType = ''Amnesia'' then RunBlockWithEvidence E [(validator, Amnesia)]
       else if misbehaviourType = ''Equivocation'' then RunBlockWithEvidence E [(validator, Equivocation)]
       else throw (UnknownMisbehaviour misbehaviourType))"

definition CauseDoubleSign :: "'w env \<Rightarrow> string \<Rightarrow> ('w, unit) run" where
  "CauseDoubleSign E address =
     bindP (GetValidatorFromAddress E address) (\<lambda>validator.
       RunBlockWithEvidence E [(validator, DuplicateVote)])"

end
