(* ===== verification/Sample_Run.thy ===== *)
theory Sample_Run
  imports Run_Block
begin

text \<open>
  A concrete system on \<open>sample_env\<close>: two validators with their applications, at the first height, with
  two transactions in the queue of which the applications reject one. That its first block
  runs is evaluated here once, for the witnesses of the properties about blocks.
\<close>

definition sample_clients :: "(string \<times> counterparty) list" where
  "sample_clients = [(''v1'', NewAbciCounterpartyClient ''c1'' ''n1'' ''v1'' ''v1''),
     (''v2'', NewAbciCounterpartyClient ''c2'' ''n2'' ''v2'' ''v2'')]"

definition sample_vals :: "validator list" where
  "sample_vals = [sample_validator ''v1'' 10, sample_validator ''v2'' 20]"

definition sample_sys :: "int sys" where
  "sample_sys =
     \<lparr>client = \<lparr>Clients = sample_clients, CurState = sample_state sample_vals 0,
        LastBlock = sample_block 0, LastCommit = sample_ec 0,
        Storage = empty_MapStorage, ErrorOnUnequalResponses = True,
        signingStatus = [''v1'' \<mapsto> True, ''v2'' \<mapsto> True],
        TimeHandler = FixedBlockTimeHandler (NewFixedBlockTimeHandler 10),
        AutoIncludeTx = False, FreshTxQueue = [''a'', ''bad''], StaleTxQueue = []\<rparr>,
      blockMutex = False, goroutines = 0, published = [], abci_log = [], world = 1000\<rparr>"

lemmas run_eval = run_bindP run_seqP run_wrap_error run_attempt ret_def throw_def panic_def lift_outcome_def
  Let_def List.map_filter_simps in64_def i32_def enumerate_eq_zip

lemmas block_defs = RunBlockWithTimeAndProposer_def runBlock_helper_def check_fresh_txs_def check_stale_txs_def
  check_queue_def send_defs broadcast_def range_clients_def call_def non_empty_txs_def collect_evidence_def
  find_proposer_app_def propose_block_def decideProposal_def CreateProposalBlock_def
  BuildExtendedCommitInfo_def BuildLastCommitInfo_def ClearTxs_def find_non_proposers_def
  current_validators_def counterparty_of_def GetCounterpartyFromAddress_def process_proposals_def
  ProcessProposal_def process_request_def sign_votes_def sign_vote_def GetSigningStatus_def
  ExtendAndSignVote_def verify_extensions_def make_commit_def new_vote_set_def or_panic_def
  finalize_and_commit_def store_and_commit_def UpdateStateFromBlock_def UpdateState_def fireEvents_def
  publish_def GetBlockIdFromBlock_def in_storage_def storage_defs upd_state_def blockMutex_Lock_def
  blockMutex_Unlock_def

lemmas sample_sys_defs = sample_sys_def sample_clients_def sample_vals_def sample_defs sample_state_def
  sample_block_def sample_ec_def empty_MapStorage_def NewAbciCounterpartyClient_def

lemma sample_block_runs:
  "\<exists>t. RunBlockWithTimeAndProposer sample_env 10 (Some (sample_validator ''v1'' 10)) [] sample_sys = (Return (), t)
    \<and> FreshTxQueue (client t) = [] \<and> blk_Txs (LastBlock (client t)) = [''a'']
    \<and> st_LastBlockHeight (CurState (client t)) = 1 \<and> \<not> stateUpdateMutex (Storage (client t))"
  by (simp add: block_defs sample_sys_defs run_eval)

end
