(* ===== verification/Block_Frame.thy ===== *)
theory Block_Frame
  imports Run_Block
begin

text \<open>
  What the phases of a block leave alone. Up to the votes being counted, a block that runs
  changes the transaction queues, the environment and nothing else of the program; the
  remaining two phases change what their definitions say. These facts hold on every outcome, so
  the properties of the error paths rest on them as well as those of a successful block.
\<close>

section \<open>The frame of a block\<close>

text \<open>A store up to the allocation of its maps, which no read can see.\<close>

definition allocated :: "map_storage \<Rightarrow> map_storage" where
  "allocated m = m\<lparr>ms_blocks := Some (made (ms_blocks m)), ms_commits := Some (made (ms_commits m)),
     ms_states := Some (made (ms_states m)), ms_responses := Some (made (ms_responses m))\<rparr>"

text \<open>The system without the transaction queues, the environment and the history.\<close>

definition frame :: "'w sys \<Rightarrow> abci_client \<times> bool \<times> nat \<times> event list" where
  "frame s = ((client s)\<lparr>Storage := allocated (Storage (client s)), FreshTxQueue := [], StaleTxQueue := []\<rparr>,
     blockMutex s, goroutines s, published s)"

lemma same_reads_allocated: "same_reads m n \<Longrightarrow> allocated n = allocated m"
  by (simp add: same_reads_def allocated_def)

lemma allocated_fields [simp]:
  "stateUpdateMutex (allocated m) = stateUpdateMutex m" "ms_entries (allocated m) = ms_entries m"
  "ms_wf (allocated m) = ms_wf m"
  "made (ms_states (allocated m)) = made (ms_states m)"
  by (simp_all add: allocated_def ms_entries_def ms_wf_def fun_eq_iff)

lemma read_blind_frame [simp]: "read_blind (\<lambda>s. frame s = x)"
  by (auto simp: read_blind_def env_blind_def frame_def same_reads_allocated)

lemma env_blind_frame [simp]: "env_blind (\<lambda>s. frame s = x)"
  by (rule read_blindD) simp

lemma frameD:
  assumes "frame t = frame s"
  shows "Clients (client t) = Clients (client s)" "CurState (client t) = CurState (client s)"
    "LastBlock (client t) = LastBlock (client s)" "LastCommit (client t) = LastCommit (client s)"
    "signingStatus (client t) = signingStatus (client s)" "TimeHandler (client t) = TimeHandler (client s)"
    "ErrorOnUnequalResponses (client t) = ErrorOnUnequalResponses (client s)"
    "AutoIncludeTx (client t) = AutoIncludeTx (client s)"
    "stateUpdateMutex (Storage (client t)) = stateUpdateMutex (Storage (client s))"
    "ms_entries (Storage (client t)) = ms_entries (Storage (client s))"
    "ms_wf (Storage (client t)) = ms_wf (Storage (client s))"
    "made (ms_states (Storage (client t))) = made (ms_states (Storage (client s)))"
    "blockMutex t = blockMutex s" "goroutines t = goroutines s" "published t = published s"
proof -
  have c: "(client t)\<lparr>Storage := allocated (Storage (client t)), FreshTxQueue := [], StaleTxQueue := []\<rparr>
      = (client s)\<lparr>Storage := allocated (Storage (client s)), FreshTxQueue := [], StaleTxQueue := []\<rparr>"
    using assms by (simp add: frame_def)
  have a: "allocated (Storage (client t)) = allocated (Storage (client s))"
    using arg_cong [OF c, of Storage] by simp
  show "stateUpdateMutex (Storage (client t)) = stateUpdateMutex (Storage (client s))"
    using arg_cong [OF a, of stateUpdateMutex] by simp
  show "ms_entries (Storage (client t)) = ms_entries (Storage (client s))"
    using arg_cong [OF a, of ms_entries] by simp
  show "ms_wf (Storage (client t)) = ms_wf (Storage (client s))"
    using arg_cong [OF a, of ms_wf] by simp
  show "made (ms_states (Storage (client t))) = made (ms_states (Storage (client s)))"
    using arg_cong [OF a, of "\<lambda>m. made (ms_states m)"] by simp
  show "Clients (client t) = Clients (client s)" using arg_cong [OF c, of Clients] by simp
  show "CurState (client t) = CurState (client s)" using arg_cong [OF c, of CurState] by simp
  show "LastBlock (client t) = LastBlock (client s)" using arg_cong [OF c, of LastBlock] by simp
  show "LastCommit (client t) = LastCommit (client s)" using arg_cong [OF c, of LastCommit] by simp
  show "signingStatus (client t) = signingStatus (client s)"
    using arg_cong [OF c, of signingStatus] by simp
  show "TimeHandler (client t) = TimeHandler (client s)" using arg_cong [OF c, of TimeHandler] by simp
  show "ErrorOnUnequalResponses (client t) = ErrorOnUnequalResponses (client s)"
    using arg_cong [OF c, of ErrorOnUnequalResponses] by simp
  show "AutoIncludeTx (client t) = AutoIncludeTx (client s)"
    using arg_cong [OF c, of AutoIncludeTx] by simp
qed (use assms in \<open>simp_all add: frame_def\<close>)

section \<open>The phases that keep it\<close>

text \<open>Predicates that also cannot see the transaction queues.\<close>

definition queue_blind :: "('w sys \<Rightarrow> bool) \<Rightarrow> bool" where
  "queue_blind P \<longleftrightarrow> read_blind P \<and>
     (\<forall>s f g. P (s\<lparr>client := (client s)\<lparr>FreshTxQueue := f, StaleTxQueue := g\<rparr>\<rparr>) = P s)"

lemma queue_blindD [simp]: "queue_blind P \<Longrightarrow> read_blind P" "queue_blind P \<Longrightarrow> env_blind P"
  by (simp_all add: queue_blind_def)

lemma queue_blind_queues:
  assumes "queue_blind P"
  shows "P (s\<lparr>client := (client s)\<lparr>FreshTxQueue := f\<rparr>\<rparr>) = P s"
    and "P (s\<lparr>client := (client s)\<lparr>StaleTxQueue := g\<rparr>\<rparr>) = P s"
    and "P (s\<lparr>client := (client s)\<lparr>FreshTxQueue := f, StaleTxQueue := g\<rparr>\<rparr>) = P s"
proof -
  have *: "P (s\<lparr>client := (client s)\<lparr>FreshTxQueue := f, StaleTxQueue := g\<rparr>\<rparr>) = P s" for s f g
    using assms by (simp add: queue_blind_def)
  show "P (s\<lparr>client := (client s)\<lparr>FreshTxQueue := f\<rparr>\<rparr>) = P s"
    using * [where s = s and f = f and g = "StaleTxQueue (client s)"] by simp
  show "P (s\<lparr>client := (client s)\<lparr>StaleTxQueue := g\<rparr>\<rparr>) = P s"
    using * [where s = s and f = "FreshTxQueue (client s)" and g = g] by simp
  show "P (s\<lparr>client := (client s)\<lparr>FreshTxQueue := f, StaleTxQueue := g\<rparr>\<rparr>) = P s" by (rule *)
qed

lemma queue_blind_frame [simp]: "queue_blind (\<lambda>s. frame s = x)"
  by (simp add: queue_blind_def) (simp add: frame_def)

lemma keeps_check_txs [keeps_intros]:
  assumes "queue_blind P"
  shows "keeps P (check_fresh_txs E)" "keeps P (check_stale_txs E)"
  using assms
  by (auto simp: check_fresh_txs_def check_stale_txs_def check_queue_def queue_blind_queues intro!: keeps_intros)

lemma keeps_collect_evidence [keeps_intros]: "read_blind P \<Longrightarrow> keeps P (collect_evidence E misb)"
  by (auto simp: collect_evidence_def intro!: keeps_intros)

lemma keeps_find_proposer_app [keeps_intros]: "env_blind P \<Longrightarrow> keeps P (find_proposer_app E a)"
  by (auto simp: find_proposer_app_def intro!: keeps_intros)

lemma keeps_propose_block [keeps_intros]: "queue_blind P \<Longrightarrow> keeps P (propose_block E app p t txs evs)"
  by (auto simp: propose_block_def ClearTxs_def Let_def queue_blind_queues intro!: keeps_intros)

lemma keeps_counterparty_of [keeps_intros]: "env_blind P \<Longrightarrow> keeps P (counterparty_of E v)"
  by (auto simp: counterparty_of_def intro!: keeps_intros)

lemma keeps_current_validators [keeps_intros, simp]: "keeps P current_validators"
  by (simp add: current_validators_def)

lemma keeps_find_non_proposers [keeps_intros]: "env_blind P \<Longrightarrow> keeps P (find_non_proposers E a)"
  by (auto simp: find_non_proposers_def intro!: keeps_intros)

lemma keeps_process_proposals [keeps_intros]: "env_blind P \<Longrightarrow> keeps P (process_proposals E cs b)"
  by (auto simp: process_proposals_def intro!: keeps_intros)

lemma keeps_sign_vote [keeps_intros]: "env_blind P \<Longrightarrow> keeps P (sign_vote E b iv)"
  by (auto simp: sign_vote_def Let_def intro!: keeps_intros)

lemma keeps_sign_votes [keeps_intros]: "env_blind P \<Longrightarrow> keeps P (sign_votes E b)"
  by (auto simp: sign_votes_def intro!: keeps_intros)

lemma keeps_verify_extension [keeps_intros]: "env_blind P \<Longrightarrow> keeps P (verify_extension E app b v)"
  by (auto simp: verify_extension_def Let_def intro!: keeps_intros)

lemma keeps_verify_extensions [keeps_intros]: "env_blind P \<Longrightarrow> keeps P (verify_extensions E b vs)"
  by (auto simp: verify_extensions_def intro!: keeps_intros)

lemma keeps_make_commit [keeps_intros]:
  "(\<And>s ec. P s \<Longrightarrow> P (s\<lparr>client := (client s)\<lparr>LastCommit := ec\<rparr>\<rparr>)) \<Longrightarrow> keeps P (make_commit E b vs)"
  by (auto simp: make_commit_def or_panic_def intro!: keeps_intros)

lemma keeps_fireEvents [keeps_intros]:
  "(\<And>s ev. P s \<Longrightarrow> P (s\<lparr>published := published s @ [ev]\<rparr>)) \<Longrightarrow> keeps P (fireEvents b bid r us)"
  by (auto simp: fireEvents_def Let_def intro!: keeps_intros)

section \<open>A block that ran\<close>

text \<open>The states between the phases of a block that returned.\<close>

lemma helper_Return:
  assumes "runBlock_helper E t p misb s = (Return (), s')"
  obtains s1 s2 evs s3 app s4 b s5 nps s6 s7 votes s8 s9 s10 where
    "check_fresh_txs E s = (Return (), s1)" "check_stale_txs E s1 = (Return (), s2)"
    "collect_evidence E misb s2 = (Return evs, s3)"
    "find_proposer_app E (case p of None \<Rightarrow> [] | Some v \<Rightarrow> val_Address v) s3 = (Return app, s4)"
    "propose_block E app p t (non_empty_txs (client s2)) evs s4 = (Return b, s5)"
    "find_non_proposers E (case p of None \<Rightarrow> [] | Some v \<Rightarrow> val_Address v) s5 = (Return nps, s6)"
    "process_proposals E nps b s6 = (Return (), s7)"
    "sign_votes E b s7 = (Return votes, s8)" "verify_extensions E b votes s8 = (Return (), s9)"
    "make_commit E b votes s9 = (Return (), s10)"
    "finalize_and_commit E (i64 (st_LastBlockHeight (CurState (client s)) + 1)) b s10 = (Return (), s')"
  using assms unfolding runBlock_helper_def Let_def
  by (auto elim!: bindP_ReturnE seqP_ReturnE)

lemma keeps_frame:
  "keeps (\<lambda>u. frame u = frame s) m \<Longrightarrow> m s = (r, t) \<Longrightarrow> frame t = frame s"
  by (drule keeps_run) auto

lemma phase_frames:
  "check_fresh_txs E s = (r, t) \<Longrightarrow> frame t = frame s"
  "check_stale_txs E s = (r, t) \<Longrightarrow> frame t = frame s"
  "collect_evidence E misb s = (r1, t) \<Longrightarrow> frame t = frame s"
  "find_proposer_app E a s = (r2, t) \<Longrightarrow> frame t = frame s"
  "propose_block E app p time txs evs s = (r3, t) \<Longrightarrow> frame t = frame s"
  by (erule keeps_frame [rotated], intro keeps_intros, simp)+

lemma keeps_client: "keeps (\<lambda>u. client u = client s) m \<Longrightarrow> m s = (r, t) \<Longrightarrow> client t = client s"
  by (drule keeps_run) auto

text \<open>After the proposal and up to the commit, only the environment changes.\<close>

lemma keeps_core: "keeps (\<lambda>u. core u = core s) m \<Longrightarrow> m s = (r, t) \<Longrightarrow> core t = core s"
  by (drule keeps_run) auto

lemma phase_cores:
  "find_proposer_app E a s = (r, t) \<Longrightarrow> core t = core s"
  "find_non_proposers E a s = (r1, t) \<Longrightarrow> core t = core s"
  "process_proposals E nps b s = (r2, t) \<Longrightarrow> core t = core s"
  "sign_votes E b s = (r3, t) \<Longrightarrow> core t = core s"
  "verify_extensions E b votes s = (r2, t) \<Longrightarrow> core t = core s"
  by (erule keeps_core [rotated], intro keeps_intros, simp)+

lemma core_frame: "core t = core s \<Longrightarrow> frame t = frame s"
  by (simp add: core_def frame_def)

lemma coreD:
  assumes "core t = core s"
  shows "client t = client s" "blockMutex t = blockMutex s" "goroutines t = goroutines s"
    "published t = published s"
  using assms by (simp_all add: core_def)

section \<open>The block mutex\<close>

lemma run_blockMutex:
  "\<not> blockMutex s \<Longrightarrow> blockMutex_Lock s = (Return (), s\<lparr>blockMutex := True\<rparr>)"
  "blockMutex s \<Longrightarrow> blockMutex_Lock s = (Blocked, s)"
  "blockMutex s \<Longrightarrow> blockMutex_Unlock s = (Return (), s\<lparr>blockMutex := False\<rparr>)"
  by (simp_all add: blockMutex_Lock_def blockMutex_Unlock_def run_bindP stuck_def)

lemma keeps_in_storage_mutex: "keeps (\<lambda>s. blockMutex s = x) (in_storage p)"
  by (rule keeps_in_storage) simp

lemma keeps_runBlock_helper_mutex: "keeps (\<lambda>s. blockMutex s = x) (runBlock_helper E t p misb)"
proof -
  have q: "queue_blind (\<lambda>s. blockMutex s = x)"
    by (simp add: queue_blind_def read_blind_def env_blind_def)
  note e = queue_blindD [OF q]
  have "keeps (\<lambda>s. blockMutex s = x) (store_and_commit E h b res)" for h b res
    using e by (auto simp: store_and_commit_def UpdateStateFromBlock_def upd_state_def
        intro!: keeps_intros keeps_in_storage_mutex)
  then have "keeps (\<lambda>s. blockMutex s = x) (finalize_and_commit E h b)" for h b
    using e by (auto simp: finalize_and_commit_def intro!: keeps_intros)
  then show ?thesis using q e by (auto simp: runBlock_helper_def Let_def intro!: keeps_intros)
qed

text \<open>A block takes the mutex, runs, and gives it back exactly when the helper returned a value or an error.\<close>

lemma run_RunBlockWithTimeAndProposer:
  assumes "\<not> blockMutex s" and "runBlock_helper E t p misb (s\<lparr>blockMutex := True\<rparr>) = (r, u)"
  shows "RunBlockWithTimeAndProposer E t p misb s = (case r of
      Return _ \<Rightarrow> (Return (), u\<lparr>blockMutex := False\<rparr>) | Error e \<Rightarrow> (Error e, u\<lparr>blockMutex := False\<rparr>)
    | Panic e \<Rightarrow> (Panic e, u) | Blocked \<Rightarrow> (Blocked, u))" and "blockMutex u"
proof -
  show "blockMutex u" using keeps_run [OF keeps_runBlock_helper_mutex assms(2), of True] by simp
  then show "RunBlockWithTimeAndProposer E t p misb s = (case r of
      Return _ \<Rightarrow> (Return (), u\<lparr>blockMutex := False\<rparr>) | Error e \<Rightarrow> (Error e, u\<lparr>blockMutex := False\<rparr>)
    | Panic e \<Rightarrow> (Panic e, u) | Blocked \<Rightarrow> (Blocked, u))"
    using assms by (cases r) (simp_all add: RunBlockWithTimeAndProposer_def run_seqP run_bindP run_attempt
        run_blockMutex throw_def ret_def)
qed

lemma RunBlock_mutex_held: "blockMutex s \<Longrightarrow> RunBlockWithTimeAndProposer E t p misb s = (Blocked, s)"
  by (simp add: RunBlockWithTimeAndProposer_def run_seqP run_blockMutex)

lemma RunBlock_Return_iff:
  "RunBlockWithTimeAndProposer E t p misb s = (Return (), s') \<longleftrightarrow> \<not> blockMutex s \<and>
    (\<exists>u. runBlock_helper E t p misb (s\<lparr>blockMutex := True\<rparr>) = (Return (), u) \<and> s' = u\<lparr>blockMutex := False\<rparr>)"
proof (cases "blockMutex s")
  case True
  then show ?thesis by (simp add: RunBlock_mutex_held)
next
  case False
  obtain r u where "runBlock_helper E t p misb (s\<lparr>blockMutex := True\<rparr>) = (r, u)" by fastforce
  with run_RunBlockWithTimeAndProposer [OF False this] False show ?thesis
    by (cases r) auto
qed

end
