(* ===== verification/Block_Success.thy ===== *)
theory Block_Success
  imports Block_Frame
begin

text \<open>
  What a block that ran has done: the proposal, the commit, the four stores, the chain state,
  the events. The last phase is first reduced to one equation on the program's state.
\<close>

section \<open>Events\<close>

definition tx_event :: "int \<Rightarrow> bytes list \<Rightarrow> nat \<times> tx \<Rightarrow> event" where
  "tx_event height results it = EventTx \<lparr>tr_Height = height, tr_Index = u32 (int (fst it)),
     tr_Tx = snd it, tr_Result = results ! fst it\<rparr>"

text \<open>The events of a block, in the order they are published.\<close>

definition block_events ::
    "block \<Rightarrow> block_id \<Rightarrow> response_finalize_block \<Rightarrow> validator list \<Rightarrow> event list" where
  "block_events b bid res ups =
     [EventNewBlock b bid res, EventNewBlockHeader (blk_Header b),
      EventNewBlockEvents (hd_Height (blk_Header b)) (rsf_Events res) (int (length (blk_Txs b)))]
     @ map (\<lambda>ev. EventNewEvidence ev (hd_Height (blk_Header b))) (blk_Evidence b)
     @ map (tx_event (hd_Height (blk_Header b)) (rsf_TxResults res)) (enumerate 0 (blk_Txs b))
     @ (if ups = [] then [] else [EventValidatorSetUpdates ups])"

lemma run_publish [simp]: "publish ev s = (Return (), s\<lparr>published := published s @ [ev]\<rparr>)"
  by (simp add: publish_def)

lemma run_foreach_publish:
  "foreach (\<lambda>x. publish (f x)) xs s = (Return (), s\<lparr>published := published s @ map f xs\<rparr>)"
  by (induction xs arbitrary: s) (simp_all add: run_seqP ret_def)

definition publish_tx :: "int \<Rightarrow> bytes list \<Rightarrow> nat \<times> tx \<Rightarrow> ('w, unit) run" where
  "publish_tx height results = (\<lambda>(i, tx).
     case at_index results i of
       None \<Rightarrow> panic IndexOutOfRange
     | Some result \<Rightarrow>
         publish (EventTx \<lparr>tr_Height = height, tr_Index = u32 (int i), tr_Tx = tx, tr_Result = result\<rparr>))"

lemma run_publish_txs:
  "n + length txs \<le> length rs \<Longrightarrow> foreach (publish_tx h rs) (enumerate n txs) s
    = (Return (), s\<lparr>published := published s @ map (tx_event h rs) (enumerate n txs)\<rparr>)"
  by (induction txs arbitrary: n s) (simp_all add: run_seqP ret_def publish_tx_def tx_event_def)

lemma publish_txs_panic:
  "length rs < n + length txs \<Longrightarrow> n \<le> length rs \<Longrightarrow>
    fst (foreach (publish_tx h rs) (enumerate n txs) s) = Panic IndexOutOfRange"
proof (induction txs arbitrary: n s)
  case (Cons tx txs)
  show ?case
  proof (cases "n < length rs")
    case True
    then show ?thesis using Cons by (simp add: run_seqP publish_tx_def)
  next
    case False
    then show ?thesis by (simp add: run_seqP publish_tx_def panic_def)
  qed
qed simp

lemma fireEvents_eq:
  "fireEvents b bid res ups = (let height = hd_Height (blk_Header b) in
     seqP (publish (EventNewBlock b bid res))
    (seqP (publish (EventNewBlockHeader (blk_Header b)))
    (seqP (publish (EventNewBlockEvents height (rsf_Events res) (int (length (blk_Txs b)))))
    (seqP (foreach (\<lambda>ev. publish (EventNewEvidence ev height)) (blk_Evidence b))
    (seqP (foreach (publish_tx height (rsf_TxResults res)) (enumerate 0 (blk_Txs b)))
     (if ups \<noteq> [] then publish (EventValidatorSetUpdates ups) else ret ()))))))"
  by (simp add: fireEvents_def publish_tx_def)

lemma run_fireEvents:
  "length (blk_Txs b) \<le> length (rsf_TxResults res) \<Longrightarrow>
    fireEvents b bid res ups s = (Return (), s\<lparr>published := published s @ block_events b bid res ups\<rparr>)"
  by (simp add: fireEvents_eq Let_def run_seqP run_foreach_publish run_publish_txs block_events_def)

lemma fireEvents_panic:
  assumes "length (rsf_TxResults res) < length (blk_Txs b)"
  shows "fst (fireEvents b bid res ups s) = Panic IndexOutOfRange"
proof -
  let ?loop = "foreach (publish_tx (hd_Height (blk_Header b)) (rsf_TxResults res)) (enumerate 0 (blk_Txs b))"
  have "fst (?loop u) = Panic IndexOutOfRange" for u :: "'a sys"
    using assms by (intro publish_txs_panic) simp_all
  then have "\<exists>v. ?loop u = (Panic IndexOutOfRange, v)" for u :: "'a sys" by (metis prod.collapse)
  then show ?thesis by (simp add: fireEvents_eq Let_def run_seqP run_foreach_publish) (metis fst_conv seq_outcome.simps(3))
qed

lemma fireEvents_Return_iff:
  "fireEvents b bid res ups s = (Return (), t) \<longleftrightarrow> length (blk_Txs b) \<le> length (rsf_TxResults res)
    \<and> t = s\<lparr>published := published s @ block_events b bid res ups\<rparr>"
proof (cases "length (blk_Txs b) \<le> length (rsf_TxResults res)")
  case True
  then show ?thesis using run_fireEvents [OF True, of bid ups s] by auto
next
  case False
  then show ?thesis using fireEvents_panic [of res b bid ups s] by auto
qed

section \<open>The state update\<close>

lemma UpdateStateFromBlock_Return:
  assumes "UpdateStateFromBlock E bid b res s = (Return (), t)"
  obtains ups st where
    "validateValidatorUpdates E (rsf_ValidatorUpdates res)
       (cp_ValidatorPubKeyTypes (st_ConsensusParams (CurState (client s)))) = Return ()"
    "PB2TM_ValidatorUpdates E (rsf_ValidatorUpdates res) = Inr ups"
    "UpdateState E (CurState (client s)) bid (blk_Header b) res ups = Return st"
    "length (blk_Txs b) \<le> length (rsf_TxResults res)"
    "t = s\<lparr>client := (client s)\<lparr>CurState := st\<rparr>, published := published s @ block_events b bid res ups\<rparr>"
  using assms unfolding UpdateStateFromBlock_def
  by (auto elim!: bindP_ReturnE seqP_ReturnE simp: wrap_error_Return_iff fireEvents_Return_iff
      split: sum.splits)

lemma run_in_storage: "in_storage p s = (fst (p (Storage (client s))),
    s\<lparr>client := (client s)\<lparr>Storage := snd (p (Storage (client s)))\<rparr>\<rparr>)"
  by (simp add: in_storage_def split_def)

lemma run_locks:
  "\<not> stateUpdateMutex m \<Longrightarrow> LockBeforeStateUpdate m = (Return (), m\<lparr>stateUpdateMutex := True\<rparr>)"
  "stateUpdateMutex m \<Longrightarrow> LockBeforeStateUpdate m = (Blocked, m)"
  "stateUpdateMutex m \<Longrightarrow> UnlockAfterStateUpdate m = (Return (), m\<lparr>stateUpdateMutex := False\<rparr>)"
  by (simp_all add: storage_defs run_bindP stuck_def)

section \<open>The last phase\<close>

definition stored :: "int \<Rightarrow> block \<Rightarrow> commit \<Rightarrow> comet_state \<Rightarrow> response_finalize_block \<Rightarrow> map_storage \<Rightarrow> map_storage"
  where
  "stored h b c st r m =
     m\<lparr>ms_blocks := Some ((made (ms_blocks m))(h \<mapsto> b)), ms_commits := Some ((made (ms_commits m))(h \<mapsto> c)),
       ms_states := Some ((made (ms_states m))(h \<mapsto> st)), ms_responses := Some ((made (ms_responses m))(h \<mapsto> r))\<rparr>"

lemma ms_entries_stored [simp]: "ms_entries (stored h b c st r m) = (ms_entries m)(h \<mapsto> (b, c, st, r))"
  by (simp add: stored_def ms_entries_update)

lemma stored_fields [simp]:
  "stateUpdateMutex (stored h b c st r m) = stateUpdateMutex m"
  "stored h b c st r (m\<lparr>stateUpdateMutex := l\<rparr>) = (stored h b c st r m)\<lparr>stateUpdateMutex := l\<rparr>"
  by (simp_all add: stored_def)

lemma ms_wf_stored [simp]: "ms_wf m \<Longrightarrow> ms_wf (stored h b c st r m)"
  by (simp add: ms_wf_def stored_def)

text \<open>What the last phase does to the client, once the application answered \<open>res\<close>.\<close>

definition finalized ::
    "'w env \<Rightarrow> int \<Rightarrow> block \<Rightarrow> response_finalize_block \<Rightarrow> comet_state \<Rightarrow> abci_client \<Rightarrow> abci_client" where
  "finalized E h b res st a =
     a\<lparr>LastBlock := b, CurState := st\<lparr>st_AppHash := rsf_AppHash res\<rparr>,
       Storage := stored h b (ec_ToCommit E (LastCommit a)) (CurState a) res (Storage a)\<rparr>"

lemma store_and_commit_Return:
  assumes "store_and_commit E h b res s = (Return (), s')"
  obtains bid ups st v x w where
    "\<not> stateUpdateMutex (Storage (client s))" "GetBlockIdFromBlock E b = Return bid"
    "PB2TM_ValidatorUpdates E (rsf_ValidatorUpdates res) = Inr ups"
    "validateValidatorUpdates E (rsf_ValidatorUpdates res)
       (cp_ValidatorPubKeyTypes (st_ConsensusParams (CurState (client s)))) = Return ()"
    "UpdateState E (CurState (client s)) bid (blk_Header b) res ups = Return st"
    "length (blk_Txs b) \<le> length (rsf_TxResults res)"
    "SendCommit E v = (Return x, w)" "abci_log v = abci_log s" "Clients (client v) = Clients (client s)"
    "abci_log s' = abci_log w"
    "core s' = (finalized E h b res st (client s), blockMutex s, goroutines s,
       published s @ block_events b bid res ups)"
proof -
  have lock: "\<not> stateUpdateMutex (Storage (client s))"
    using assms by (cases "stateUpdateMutex (Storage (client s))")
      (auto simp: store_and_commit_def run_seqP run_in_storage run_locks)
  define s2 where "s2 = s\<lparr>client := (client s)\<lparr>LastBlock := b, Storage :=
    stored h b (ec_ToCommit E (LastCommit (client s))) (CurState (client s)) res
      ((Storage (client s))\<lparr>stateUpdateMutex := True\<rparr>)\<rparr>\<rparr>"
  obtain bid s3 where bid: "GetBlockIdFromBlock E b = Return bid"
    and upd: "UpdateStateFromBlock E bid b res s2 = (Return (), s3)"
    and rest: "seqP (in_storage UnlockAfterStateUpdate) (seqP (wrap_error CommitError (SendCommit E))
      (upd_state (\<lambda>st. st\<lparr>st_AppHash := rsf_AppHash res\<rparr>))) s3 = (Return (), s')"
    using assms lock unfolding store_and_commit_def s2_def stored_def
    by (auto elim!: bindP_ReturnE simp: wrap_error_Return_iff run_in_storage run_locks run_UpdateStores
        seqP_Return_iff [of "in_storage LockBeforeStateUpdate"] seqP_Return_iff [of "upd_client f" for f]
        seqP_Return_iff [of "wrap_error UpdatingStoresError m" for m]
        seqP_Return_iff [of "wrap_error UpdatingStateForResultError m" for m])
  from upd obtain ups st where u: "PB2TM_ValidatorUpdates E (rsf_ValidatorUpdates res) = Inr ups"
    "validateValidatorUpdates E (rsf_ValidatorUpdates res)
       (cp_ValidatorPubKeyTypes (st_ConsensusParams (CurState (client s)))) = Return ()"
    "UpdateState E (CurState (client s)) bid (blk_Header b) res ups = Return st"
    "length (blk_Txs b) \<le> length (rsf_TxResults res)"
    and s3: "s3 = s2\<lparr>client := (client s2)\<lparr>CurState := st\<rparr>, published := published s2 @ block_events b bid res ups\<rparr>"
    by (rule UpdateStateFromBlock_Return) (auto simp: s2_def)
  define v where "v = s3\<lparr>client := (client s3)\<lparr>Storage := (Storage (client s3))\<lparr>stateUpdateMutex := False\<rparr>\<rparr>\<rparr>"
  have "stateUpdateMutex (Storage (client s3))" by (simp add: s3 s2_def)
  with rest obtain x w where c: "SendCommit E v = (Return x, w)"
    and s': "s' = w\<lparr>client := (client w)\<lparr>CurState := (CurState (client w))\<lparr>st_AppHash := rsf_AppHash res\<rparr>\<rparr>\<rparr>"
    by (auto elim!: seqP_ReturnE simp: wrap_error_Return_iff run_in_storage run_locks upd_state_def v_def)
  have w: "core w = core v" by (rule commit_call.core_unchanged [OF c])
  have "(stored h b c s0 r (Storage (client s)))\<lparr>stateUpdateMutex := False\<rparr> = stored h b c s0 r (Storage (client s))"
    for c s0 r using lock by (simp add: stored_def)
  then have "core s' = (finalized E h b res st (client s), blockMutex s, goroutines s,
       published s @ block_events b bid res ups)"
    using w by (simp add: core_def s' v_def s3 s2_def finalized_def)
  then show thesis
    using that [OF lock bid u c] by (simp add: v_def s3 s2_def s')
qed

lemma finalize_and_commit_Return:
  assumes "finalize_and_commit E h b s = (Return (), s')"
  obtains lci res u where
    "BuildLastCommitInfo E b (st_Validators (CurState (client s))) (st_InitialHeight (CurState (client s))) = Return lci"
    "SendFinalizeBlock E b lci s = (Return res, u)" "core u = core s"
    "store_and_commit E h b res u = (Return (), s')"
  using assms unfolding finalize_and_commit_def
  by (auto elim!: bindP_ReturnE simp: wrap_error_Return_iff) (blast dest: finalize_call.core_unchanged)

lemma make_commit_Return:
  assumes "make_commit E b votes s = (Return (), t)"
  obtains vos ec where
    "add_votes E (new_vote_set E (CurState (client s)) (hd_Height (blk_Header b))) votes = Return vos"
    "MakeExtendedCommit E vos (cp_ABCI (st_ConsensusParams (CurState (client s)))) = Inr ec"
    "VerifyCommitLightTrusting E (st_Validators (CurState (client s))) (st_ChainID (CurState (client s)))
       (ec_ToCommit E ec) (1, 3) = None"
    "t = s\<lparr>client := (client s)\<lparr>LastCommit := ec\<rparr>\<rparr>"
  using assms unfolding make_commit_def or_panic_def
  by (auto elim!: bindP_ReturnE seqP_ReturnE split: sum.splits option.splits)

lemma foreach_stale:
  "foreach (\<lambda>tx. if tx \<notin> set txs then upd_client (\<lambda>a. a\<lparr>StaleTxQueue := StaleTxQueue a @ [tx]\<rparr>)
      else ret ()) xs s
    = (Return (), s\<lparr>client := (client s)\<lparr>StaleTxQueue := StaleTxQueue (client s) @ filter (\<lambda>tx. tx \<notin> set txs) xs\<rparr>\<rparr>)"
  by (induction xs arbitrary: s) (simp_all add: run_seqP ret_def)

lemma propose_block_Return:
  assumes "propose_block E app p t txs evs s = (Return b, s')"
  obtains v prp b0 u where "p = Some v"
    "decideProposal E app v (i64 (st_LastBlockHeight (CurState (client s)) + 1)) 0 txs evs s = (Return (prp, b0), u)"
    "b = b0\<lparr>blk_Header := (blk_Header b0)\<lparr>hd_Time := t\<rparr>\<rparr>"
    "s' = u\<lparr>client := (client u)\<lparr>FreshTxQueue := [], StaleTxQueue := filter (\<lambda>tx. tx \<notin> set (blk_Txs b)) txs\<rparr>\<rparr>"
  using assms unfolding propose_block_def ClearTxs_def
  by (auto elim!: bindP_ReturnE seqP_ReturnE simp: attempt_Inr_iff attempt_Inl_iff foreach_stale Let_def
      split: option.splits sum.splits)

section \<open>The whole block\<close>

text \<open>The block proposed at the state of a client, with the time it is given.\<close>

definition proposed :: "'w env \<Rightarrow> time \<Rightarrow> validator \<Rightarrow> abci_client \<Rightarrow> block \<Rightarrow> bool" where
  "proposed E t v a b \<longleftrightarrow>
     hd_Height (blk_Header b) = i64 (st_LastBlockHeight (CurState a) + 1) \<and> hd_Time (blk_Header b) = t
     \<and> hd_ProposerAddress (blk_Header b) = val_Address v
     \<and> blk_LastCommit b = Some (ec_ToCommit E (LastCommit a))"

lemma helper_success:
  fixes E :: "'w env"
  assumes "makes_blocks E" "runBlock_helper E t p misb s = (Return (), s')"
  obtains v b votes vos ec lci res bid ups st and s9 :: "'w sys" where
    "p = Some v" "proposed E t v (client s) b"
    "add_votes E (new_vote_set E (CurState (client s)) (hd_Height (blk_Header b))) votes = Return vos"
    "MakeExtendedCommit E vos (cp_ABCI (st_ConsensusParams (CurState (client s)))) = Inr ec"
    "BuildLastCommitInfo E b (st_Validators (CurState (client s))) (st_InitialHeight (CurState (client s))) = Return lci"
    "\<not> stateUpdateMutex (Storage (client s))" "GetBlockIdFromBlock E b = Return bid"
    "PB2TM_ValidatorUpdates E (rsf_ValidatorUpdates res) = Inr ups"
    "UpdateState E (CurState (client s)) bid (blk_Header b) res ups = Return st"
    "frame s9 = frame s" "FreshTxQueue (client s9) = []"
    "core s' = (finalized E (hd_Height (blk_Header b)) b res st ((client s9)\<lparr>LastCommit := ec\<rparr>), blockMutex s,
       goroutines s, published s @ block_events b bid res ups)"
proof -
  obtain s1 s2 evs s3 app s4 b s5 nps s6 s7 votes s8 s9 s10 where ph:
    "check_fresh_txs E s = (Return (), s1)" "check_stale_txs E s1 = (Return (), s2)"
    "collect_evidence E misb s2 = (Return evs, s3)"
    "find_proposer_app E (case p of None \<Rightarrow> [] | Some v \<Rightarrow> val_Address v) s3 = (Return app, s4)"
    "propose_block E app p t (non_empty_txs (client s2)) evs s4 = (Return b, s5)"
    "find_non_proposers E (case p of None \<Rightarrow> [] | Some v \<Rightarrow> val_Address v) s5 = (Return nps, s6)"
    "process_proposals E nps b s6 = (Return (), s7)"
    "sign_votes E b s7 = (Return votes, s8)" "verify_extensions E b votes s8 = (Return (), s9)"
    "make_commit E b votes s9 = (Return (), s10)"
    "finalize_and_commit E (i64 (st_LastBlockHeight (CurState (client s)) + 1)) b s10 = (Return (), s')"
    using assms(2) by (rule helper_Return)
  note f = phase_frames(1) [OF ph(1)] phase_frames(2) [OF ph(2)] phase_frames(3) [OF ph(3)]
    phase_frames(4) [OF ph(4)] phase_frames(5) [OF ph(5)]
  have c9: "core s9 = core s5"
    using phase_cores(2) [OF ph(6)] phase_cores(3) [OF ph(7)] phase_cores(4) [OF ph(8)]
      phase_cores(5) [OF ph(9)] by simp
  have f4: "frame s4 = frame s" and f9: "frame s9 = frame s" using f core_frame [OF c9] by simp_all
  obtain v prp b0 u where p: "p = Some v"
    and dec: "decideProposal E app v (i64 (st_LastBlockHeight (CurState (client s4)) + 1)) 0
      (non_empty_txs (client s2)) evs s4 = (Return (prp, b0), u)"
    and b: "b = b0\<lparr>blk_Header := (blk_Header b0)\<lparr>hd_Time := t\<rparr>\<rparr>"
    and s5: "s5 = u\<lparr>client := (client u)\<lparr>FreshTxQueue := [],
      StaleTxQueue := filter (\<lambda>tx. tx \<notin> set (blk_Txs b)) (non_empty_txs (client s2))\<rparr>\<rparr>"
    using ph(5) by (rule propose_block_Return)
  have pr: "proposed E t v (client s) b"
    using decideProposal_block [OF assms(1) dec] by (simp add: proposed_def b frameD [OF f4])
  then have h: "hd_Height (blk_Header b) = i64 (st_LastBlockHeight (CurState (client s)) + 1)"
    by (simp add: proposed_def)
  obtain vos ec where mc:
    "add_votes E (new_vote_set E (CurState (client s9)) (hd_Height (blk_Header b))) votes = Return vos"
    "MakeExtendedCommit E vos (cp_ABCI (st_ConsensusParams (CurState (client s9)))) = Inr ec"
    and s10: "s10 = s9\<lparr>client := (client s9)\<lparr>LastCommit := ec\<rparr>\<rparr>"
    using ph(10) by (rule make_commit_Return)
  obtain lci res u2 where lci: "BuildLastCommitInfo E b (st_Validators (CurState (client s10)))
      (st_InitialHeight (CurState (client s10))) = Return lci"
    and u2: "core u2 = core s10" and st: "store_and_commit E (hd_Height (blk_Header b)) b res u2 = (Return (), s')"
    using ph(11) unfolding h [symmetric] by (rule finalize_and_commit_Return)
  note e = frameD [OF f9] coreD [OF u2]
  show thesis
    using st
  proof (rule store_and_commit_Return, goal_cases)
    case (1 bid ups st v' x w)
    show ?thesis
      by (rule that [OF p pr mc [unfolded e] lci [unfolded s10, simplified, unfolded e] _ 1(2,3) _ f9])
        (use 1 s5 c9 in \<open>simp_all add: e s10 core_def\<close>)
  qed
qed

end
