(* ===== verification/Block_Order.thy ===== *)
theory Block_Order
  imports Block_Success Sample_Run
begin

text \<open>
  The order of the ABCI calls of a block. Every call has a stage, and a block, whatever its
  outcome, adds to the history a sequence of calls whose stages never decrease. \<open>emits\<close> is the
  small logic this is proved in.
\<close>

section \<open>Stages\<close>

fun stage :: "abci_call \<Rightarrow> nat" where
  "stage (CallInfo c) = 0"
| "stage (CallInitChain c r) = 0"
| "stage (CallQuery c r) = 0"
| "stage (CallCheckTx c r) = (if rct_Type r = CheckTxType_New then 1 else 2)"
| "stage (CallPrepareProposal c r) = 3"
| "stage (CallProcessProposal c r) = 4"
| "stage (CallExtendVote c r) = 5"
| "stage (CallVerifyVoteExtension c r) = 6"
| "stage (CallFinalizeBlock c r) = 7"
| "stage (CallCommit c) = 8"

text \<open>The calls a program adds, on every outcome, go through the stages \<open>i\<close> to \<open>j\<close> in order.\<close>

definition emits :: "nat \<Rightarrow> nat \<Rightarrow> ('w, 'a) run \<Rightarrow> bool" where
  "emits i j m \<longleftrightarrow> (\<forall>s. \<exists>new. abci_log (snd (m s)) = abci_log s @ new
     \<and> sorted (map stage new) \<and> (\<forall>c \<in> set new. i \<le> stage c \<and> stage c \<le> j))"

named_theorems emits_intros \<open>rules for the stages of a program\<close>

lemma emitsI:
  assumes "\<And>s. \<exists>new. abci_log (snd (m s)) = abci_log s @ new \<and> sorted (map stage new)
    \<and> (\<forall>c \<in> set new. i \<le> stage c \<and> stage c \<le> j)"
  shows "emits i j m"
  using assms by (simp add: emits_def)

lemma emits_silent: "(\<And>s. abci_log (snd (m s)) = abci_log s) \<Longrightarrow> emits i j m"
  by (rule emitsI) (simp add: exI [of _ "[]"])

lemma emits_pure [emits_intros]:
  "emits i j (ret a)" "emits i j (throw e)" "emits i j (panic p)" "emits i j stuck" "emits i j (gets f)"
  "emits i j (lift_outcome r)" "emits i j (get_client g)" "emits i j (upd_client h)"
  "emits i j (in_storage q)" "emits i j (publish ev)" "emits i j (or_panic x)"
  by (rule emits_silent; simp add: in_storage_def split_def or_panic_def split: sum.split)+

lemma emits_range_clients [emits_intros]: "emits i j (range_clients E)"
  by (rule emits_silent) (simp add: range_clients_def split_def)

lemma emits_call [emits_intros]: "i \<le> stage k \<Longrightarrow> stage k \<le> j \<Longrightarrow> emits i j (call k f)"
  by (rule emitsI) (simp add: call_def split_def)

lemma emits_wrap_error [emits_intros]: "emits i j m \<Longrightarrow> emits i j (wrap_error f m)"
  by (simp add: emits_def run_wrap_error)

lemma emits_attempt [emits_intros]: "emits i j m \<Longrightarrow> emits i j (attempt m)"
  by (simp add: emits_def run_attempt)

text \<open>Sequencing: the stages of the second program start where those of the first end.\<close>

lemma emits_bindP:
  assumes m: "emits i j m" and "\<And>a. emits j' k (f a)" and "i \<le> j'" "j \<le> j'" "j \<le> k"
  shows "emits i k (bindP m f)"
proof (rule emitsI)
  fix s :: "'a sys"
  obtain r u where mu: "m s = (r, u)" by fastforce
  with m obtain n1 where n1: "abci_log u = abci_log s @ n1" "sorted (map stage n1)"
      "\<forall>c \<in> set n1. i \<le> stage c \<and> stage c \<le> j"
    unfolding emits_def by (metis snd_conv)
  have "\<exists>n2. abci_log (snd (bindP m f s)) = abci_log u @ n2 \<and> sorted (map stage n2)
      \<and> (\<forall>c \<in> set n2. j' \<le> stage c \<and> stage c \<le> k)"
  proof (cases r)
    case (Return a)
    then show ?thesis using assms(2) [of a] mu by (auto simp: emits_def run_bindP)
  qed (use mu in \<open>auto simp: run_bindP intro: exI [of _ "[]"]\<close>)
  then obtain n2 where n2: "abci_log (snd (bindP m f s)) = abci_log u @ n2" "sorted (map stage n2)"
      "\<forall>c \<in> set n2. j' \<le> stage c \<and> stage c \<le> k"
    by blast
  have "sorted (map stage (n1 @ n2))"
    using n1 n2 assms(4) by (fastforce simp: sorted_append)
  then show "\<exists>new. abci_log (snd (bindP m f s)) = abci_log s @ new \<and> sorted (map stage new)
      \<and> (\<forall>c \<in> set new. i \<le> stage c \<and> stage c \<le> k)"
    using n1 n2 assms(3,5) by (intro exI [of _ "n1 @ n2"]) fastforce
qed

text \<open>Inside one stage.\<close>

lemma emits_bind1 [emits_intros]: "emits i i m \<Longrightarrow> (\<And>a. emits i i (f a)) \<Longrightarrow> emits i i (bindP m f)"
  by (rule emits_bindP) auto

lemma emits_seq1 [emits_intros]: "emits i i m \<Longrightarrow> emits i i k \<Longrightarrow> emits i i (seqP m k)"
  by (simp add: seqP_def emits_bind1)

lemma emits_foreach [emits_intros]: "(\<And>x. x \<in> set xs \<Longrightarrow> emits i i (f x)) \<Longrightarrow> emits i i (foreach f xs)"
  by (induction xs) (auto intro: emits_intros)

lemma emits_collect [emits_intros]: "(\<And>x. x \<in> set xs \<Longrightarrow> emits i i (f x)) \<Longrightarrow> emits i i (collect f xs)"
  by (induction xs) (auto intro!: emits_intros)

lemma emits_cases [emits_intros]:
  "(b \<Longrightarrow> emits i j m) \<Longrightarrow> (\<not> b \<Longrightarrow> emits i j k) \<Longrightarrow> emits i j (if b then m else k)"
  "(x = None \<Longrightarrow> emits i j m) \<Longrightarrow> (\<And>a. x = Some a \<Longrightarrow> emits i j (f a)) \<Longrightarrow>
    emits i j (case x of None \<Rightarrow> m | Some a \<Rightarrow> f a)"
  "(\<And>a. y = Inl a \<Longrightarrow> emits i j (g a)) \<Longrightarrow> (\<And>b. y = Inr b \<Longrightarrow> emits i j (h b)) \<Longrightarrow>
    emits i j (case y of Inl a \<Rightarrow> g a | Inr b \<Rightarrow> h b)"
  "(\<And>a b. z = (a, b) \<Longrightarrow> emits i j (q a b)) \<Longrightarrow> emits i j (case z of (a, b) \<Rightarrow> q a b)"
  "(xs = [] \<Longrightarrow> emits i j m) \<Longrightarrow> (\<And>a as. xs = a # as \<Longrightarrow> emits i j (l a as)) \<Longrightarrow>
    emits i j (case xs of [] \<Rightarrow> m | a # as \<Rightarrow> l a as)"
  by (cases b; cases x; cases y; cases z; cases xs; simp)+

lemma emits_broadcast [emits_intros]: "(\<And>c. emits i i (ask c)) \<Longrightarrow> emits i i (broadcast E ask)"
  by (auto simp: broadcast_def intro!: emits_intros)

lemma emits_mono: "emits i j m \<Longrightarrow> i' \<le> i \<Longrightarrow> j \<le> j' \<Longrightarrow> emits i' j' m"
  unfolding emits_def by (meson order_trans)

section \<open>The stages of the phases\<close>

lemma emits_check_txs: "emits 1 1 (check_fresh_txs E)" "emits 2 2 (check_stale_txs E)"
  by (auto simp: check_fresh_txs_def check_stale_txs_def check_queue_def SendCheckTx_def Let_def
      intro!: emits_intros)

lemma emits_checked_vote [emits_intros]: "emits i i (checked_vote E v)"
  by (auto simp: checked_vote_def intro!: emits_intros)

lemma emits_collect_evidence: "emits i i (collect_evidence E misb)"
proof -
  have "emits i i (ConstructDuplicateVoteEvidence E v)" for v
    by (auto simp: ConstructDuplicateVoteEvidence_def Let_def intro!: emits_intros)
  moreover have "emits i i (ConstructLightClientAttackEvidence E v m)" for v m
    by (cases m) (auto simp: ConstructLightClientAttackEvidence_def Let_def intro!: emits_intros)
  ultimately show ?thesis
    by (auto simp: collect_evidence_def intro!: emits_intros)
qed

lemma emits_find_proposer_app: "emits i i (find_proposer_app E a)"
  by (auto simp: find_proposer_app_def intro!: emits_intros)

lemma emits_propose_block: "emits 3 3 (propose_block E app p t txs evs)"
  by (auto simp: propose_block_def decideProposal_def CreateProposalBlock_def ClearTxs_def Let_def
      intro!: emits_intros)

lemma emits_counterparty_of [emits_intros]: "emits i i (counterparty_of E v)"
  by (auto simp: counterparty_of_def GetCounterpartyFromAddress_def intro!: emits_intros)

lemma emits_current_validators [emits_intros]: "emits i i current_validators"
  by (auto simp: current_validators_def intro!: emits_intros)

lemma emits_find_non_proposers: "emits i i (find_non_proposers E a)"
  by (auto simp: find_non_proposers_def intro!: emits_intros)

lemma emits_process_proposals: "emits 4 4 (process_proposals E cs b)"
  by (auto simp: process_proposals_def ProcessProposal_def Let_def intro!: emits_intros)

lemma emits_sign_votes: "emits 5 5 (sign_votes E b)"
  by (auto simp: sign_votes_def sign_vote_def GetSigningStatus_def ExtendAndSignVote_def Let_def
      intro!: emits_intros)

lemma emits_verify_extensions: "emits 6 6 (verify_extensions E b vs)"
  by (auto simp: verify_extensions_def verify_extension_def Let_def intro!: emits_intros)

lemma emits_make_commit: "emits i i (make_commit E b vs)"
  by (auto simp: make_commit_def intro!: emits_intros)

lemma emits_store_and_commit: "emits 8 8 (store_and_commit E h b res)"
  by (auto simp: store_and_commit_def UpdateStateFromBlock_def fireEvents_def SendCommit_def upd_state_def Let_def
      intro!: emits_intros)

lemma emits_finalize_and_commit: "emits 7 8 (finalize_and_commit E h b)"
proof -
  have f: "emits 7 7 (SendFinalizeBlock E b lci)" for lci
    by (auto simp: SendFinalizeBlock_def Let_def intro!: emits_intros)
  have l: "emits 7 8 (bindP (wrap_error FinalizeBlockError (SendFinalizeBlock E b lci))
      (\<lambda>res. store_and_commit E h b res))" for lci
    by (rule emits_bindP [OF emits_wrap_error [OF f] emits_store_and_commit]) auto
  show ?thesis unfolding finalize_and_commit_def
    by (rule emits_bindP [OF emits_pure(7) [of 7 7] emits_bindP [OF emits_pure(6) [of 7 7] l]]) auto
qed

lemma emits_seqP:
  "emits i j m \<Longrightarrow> emits j' k n \<Longrightarrow> i \<le> j' \<Longrightarrow> j \<le> j' \<Longrightarrow> j \<le> k \<Longrightarrow> emits i k (seqP m n)"
  unfolding seqP_def by (rule emits_bindP)

text \<open>The phases of a block, in the order of the stages.\<close>

lemma emits_runBlock_helper: "emits 1 8 (runBlock_helper E t p misb)"
proof -
  have v: "emits 6 8 (seqP (verify_extensions E b votes) (seqP (make_commit E b votes)
      (finalize_and_commit E h b)))" for b votes h
    by (rule emits_seqP [OF emits_verify_extensions
          emits_seqP [OF emits_make_commit [of 7] emits_finalize_and_commit]]) auto
  have s: "emits 4 8 (seqP (process_proposals E nps b) (bindP (sign_votes E b) (\<lambda>votes.
      seqP (verify_extensions E b votes) (seqP (make_commit E b votes) (finalize_and_commit E h b)))))" for nps b h
    by (rule emits_seqP [OF emits_process_proposals emits_bindP [OF emits_sign_votes v]]) auto
  have n: "emits 3 8 (bindP (propose_block E app p t txs evs) (\<lambda>b. bindP (find_non_proposers E a) (\<lambda>nps.
      seqP (process_proposals E nps b) (bindP (sign_votes E b) (\<lambda>votes.
      seqP (verify_extensions E b votes) (seqP (make_commit E b votes) (finalize_and_commit E h b)))))))"
    for app txs evs a h
    by (rule emits_bindP [OF emits_propose_block emits_bindP [OF emits_find_non_proposers [of 4] s]]) auto
  have f: "emits 3 8 (bindP (collect_evidence E misb) (\<lambda>evs. bindP (find_proposer_app E a) (\<lambda>app.
      bindP (propose_block E app p t txs evs) (\<lambda>b. bindP (find_non_proposers E a) (\<lambda>nps.
      seqP (process_proposals E nps b) (bindP (sign_votes E b) (\<lambda>votes.
      seqP (verify_extensions E b votes) (seqP (make_commit E b votes) (finalize_and_commit E h b)))))))))"
    for txs a h
    by (rule emits_bindP [OF emits_collect_evidence [of 3] emits_bindP [OF emits_find_proposer_app [of 3] n]]) auto
  show ?thesis unfolding runBlock_helper_def Let_def
    by (rule emits_bindP [OF emits_pure(7) [of 1 1] emits_seqP [OF emits_check_txs(1) emits_seqP [OF emits_check_txs(2)
          emits_bindP [OF emits_pure(7) [of 3 3] f]]]]) auto
qed

section \<open>The calls of a successful block\<close>

text \<open>The history grew by calls of stages up to \<open>j\<close>.\<close>

definition grew :: "nat \<Rightarrow> 'w sys \<Rightarrow> 'w sys \<Rightarrow> bool" where
  "grew j s t \<longleftrightarrow> (\<exists>new. abci_log t = abci_log s @ new \<and> list_all (\<lambda>c. stage c \<le> j) new)"

lemma grew_emits: "emits i j m \<Longrightarrow> m s = (r, t) \<Longrightarrow> j \<le> k \<Longrightarrow> grew k s t"
  unfolding emits_def grew_def list_all_iff by (metis order_trans snd_conv)

lemma grew_trans: "grew j s t \<Longrightarrow> grew j t u \<Longrightarrow> grew j s u"
  unfolding grew_def by fastforce

lemma grew_phases:
  "check_fresh_txs E s = (r, t) \<Longrightarrow> grew 6 s t" "check_stale_txs E s = (r, t) \<Longrightarrow> grew 6 s t"
  "collect_evidence E misb s = (r1, t) \<Longrightarrow> grew 6 s t" "find_proposer_app E a s = (r2, t) \<Longrightarrow> grew 6 s t"
  "propose_block E app p time txs evs s = (r3, t) \<Longrightarrow> grew 6 s t"
  "find_non_proposers E a s = (r4, t) \<Longrightarrow> grew 6 s t" "process_proposals E nps b s = (r, t) \<Longrightarrow> grew 6 s t"
  "sign_votes E b s = (r5, t) \<Longrightarrow> grew 6 s t" "verify_extensions E b votes s = (r, t) \<Longrightarrow> grew 6 s t"
  "make_commit E b votes s = (r, t) \<Longrightarrow> grew 6 s t"
  subgoal by (erule grew_emits [OF emits_check_txs(1)]) simp
  subgoal by (erule grew_emits [OF emits_check_txs(2)]) simp
  subgoal by (erule grew_emits [OF emits_collect_evidence [of 6]]) simp
  subgoal by (erule grew_emits [OF emits_find_proposer_app [of 6]]) simp
  subgoal by (erule grew_emits [OF emits_propose_block]) simp
  subgoal by (erule grew_emits [OF emits_find_non_proposers [of 6]]) simp
  subgoal by (erule grew_emits [OF emits_process_proposals]) simp
  subgoal by (erule grew_emits [OF emits_sign_votes]) simp
  subgoal by (erule grew_emits [OF emits_verify_extensions]) simp
  subgoal by (erule grew_emits [OF emits_make_commit [of 6]]) simp
  done

lemma helper_calls:
  assumes E: "makes_blocks E" "orders_maps E" and d: "distinct (map fst (Clients (client s)))"
    and run: "runBlock_helper E t p misb s = (Return (), s')"
  obtains pre fin com b lci where "abci_log s' = abci_log s @ pre @ fin @ com"
    "list_all (\<lambda>c. stage c \<le> 6) pre" "LastBlock (client s') = b"
    "mset fin = image_mset (\<lambda>c. CallFinalizeBlock (acc_Client c) (finalize_request E b lci))
       (mset (map snd (Clients (client s))))"
    "mset com = image_mset (\<lambda>c. CallCommit (acc_Client c)) (mset (map snd (Clients (client s))))"
    "BuildLastCommitInfo E b (st_Validators (CurState (client s))) (st_InitialHeight (CurState (client s))) = Return lci"
  using run
proof (rule helper_Return, goal_cases)
  case (1 s1 s2 evs s3 app s4 b s5 nps s6 s7 votes s8 s9 s10)
  note ph = 1(2-12)
  have f9: "frame s9 = frame s"
    using phase_frames(1) [OF ph(1)] phase_frames(2) [OF ph(2)] phase_frames(3) [OF ph(3)]
      phase_frames(4) [OF ph(4)] phase_frames(5) [OF ph(5)] phase_cores(2) [OF ph(6), THEN core_frame]
      phase_cores(3) [OF ph(7), THEN core_frame] phase_cores(4) [OF ph(8), THEN core_frame]
      phase_cores(5) [OF ph(9), THEN core_frame] by simp
  have "Clients (client s10) = Clients (client s9) \<and> CurState (client s10) = CurState (client s9)"
    using ph(10) by (rule make_commit_Return) simp
  then have c10: "Clients (client s10) = Clients (client s)" "CurState (client s10) = CurState (client s)"
    using frameD(1,2) [OF f9] by simp_all
  have "grew 6 s s10"
    by (rule grew_trans [OF grew_phases(1) [OF ph(1)]
        grew_trans [OF grew_phases(2) [OF ph(2)]
        grew_trans [OF grew_phases(3) [OF ph(3)]
        grew_trans [OF grew_phases(4) [OF ph(4)]
        grew_trans [OF grew_phases(5) [OF ph(5)]
        grew_trans [OF grew_phases(6) [OF ph(6)]
        grew_trans [OF grew_phases(7) [OF ph(7)]
        grew_trans [OF grew_phases(8) [OF ph(8)]
        grew_trans [OF grew_phases(9) [OF ph(9)]
        grew_phases(10) [OF ph(10)]]]]]]]]]])
  then obtain pre where pre: "abci_log s10 = abci_log s @ pre" "list_all (\<lambda>c. stage c \<le> 6) pre"
    by (auto simp: grew_def)
  obtain lci res u where lci: "BuildLastCommitInfo E b (st_Validators (CurState (client s10)))
      (st_InitialHeight (CurState (client s10))) = Return lci"
    and fin: "SendFinalizeBlock E b lci s10 = (Return res, u)" and cu: "core u = core s10"
    and st: "store_and_commit E (i64 (st_LastBlockHeight (CurState (client s)) + 1)) b res u = (Return (), s')"
    using ph(11) by (rule finalize_and_commit_Return)
  obtain nf where nf: "abci_log u = abci_log s10 @ nf" "mset nf =
      image_mset (\<lambda>c. CallFinalizeBlock (acc_Client c) (finalize_request E b lci)) (mset (map snd (Clients (client s))))"
    using finalize_call.returned_calls [OF E(2) _ fin] d by (auto simp: c10)
  obtain v x w where com: "SendCommit E v = (Return x, w)" and v: "abci_log v = abci_log u"
      "Clients (client v) = Clients (client u)" and l: "abci_log s' = abci_log w"
    and LB: "LastBlock (client s') = b"
    using st by (rule store_and_commit_Return) (auto simp: core_def finalized_def)
  have cv: "Clients (client v) = Clients (client s)" using v(2) coreD(1) [OF cu] c10 by simp
  obtain nc where nc: "abci_log w = abci_log v @ nc"
      "mset nc = image_mset (\<lambda>c. CallCommit (acc_Client c)) (mset (map snd (Clients (client s))))"
    using commit_call.returned_calls [OF E(2) _ com] d by (auto simp: cv)
  show ?case by (rule 1(1) [OF _ pre(2) LB nf(2) nc(2) lci [unfolded c10]]) (simp add: l nc(1) v(1) nf(1) pre(1))
qed

section \<open>Properties\<close>

text \<open>
  Claim C3. The ABCI calls of a block follow the consensus order, on every outcome: whether the block succeeds,
  fails, panics or waits, the calls it made are CheckTx of the fresh transactions, CheckTx of the
  stale ones, PrepareProposal, ProcessProposal, ExtendVote, VerifyVoteExtension, FinalizeBlock and
  Commit, in this order and with none of an earlier stage after one of a later stage.
\<close>

theorem block_calls_in_order:
  "\<exists>new. abci_log (snd (RunBlockWithTimeAndProposer E t p misb s)) = abci_log s @ new
    \<and> sorted (map stage new) \<and> list_all (\<lambda>c. 1 \<le> stage c) new"
proof (cases "blockMutex s")
  case True
  then show ?thesis by (simp add: RunBlock_mutex_held)
next
  case False
  obtain r u where h: "runBlock_helper E t p misb (s\<lparr>blockMutex := True\<rparr>) = (r, u)" by fastforce
  have "\<exists>new. abci_log u = abci_log s @ new \<and> sorted (map stage new) \<and> (\<forall>c \<in> set new. 1 \<le> stage c)"
    using emits_runBlock_helper [of E t p misb, unfolded emits_def, rule_format, of "s\<lparr>blockMutex := True\<rparr>"] h
    by auto
  then show ?thesis
    using run_RunBlockWithTimeAndProposer(1) [OF False h] by (cases r) (auto simp: list_all_iff)
qed

text \<open>
  Claim C5. A successful block finalizes the same block at every application and commits it there, exactly
  once each: its calls end with one FinalizeBlock per client, all with the same request, whose
  transactions, height and time are those of the block that became the last block, followed by one
  Commit per client; no FinalizeBlock or Commit comes before.
\<close>

theorem block_finalized_once_everywhere:
  assumes "makes_blocks E" "orders_maps E" and "distinct (map fst (Clients (client s)))"
    and "RunBlockWithTimeAndProposer E t p misb s = (Return (), s')"
  shows "\<exists>pre fin com req. abci_log s' = abci_log s @ pre @ fin @ com \<and> list_all (\<lambda>c. stage c \<le> 6) pre
    \<and> mset fin = image_mset (\<lambda>c. CallFinalizeBlock (acc_Client c) req) (mset (map snd (Clients (client s))))
    \<and> mset com = image_mset (\<lambda>c. CallCommit (acc_Client c)) (mset (map snd (Clients (client s))))
    \<and> rfb_Txs req = blk_Txs (LastBlock (client s'))
    \<and> rfb_Height req = hd_Height (blk_Header (LastBlock (client s')))
    \<and> rfb_Time req = hd_Time (blk_Header (LastBlock (client s')))"
proof -
  obtain u where h: "runBlock_helper E t p misb (s\<lparr>blockMutex := True\<rparr>) = (Return (), u)"
    and s': "s' = u\<lparr>blockMutex := False\<rparr>"
    using assms(4) by (auto simp: RunBlock_Return_iff)
  show ?thesis
  proof (rule helper_calls [OF assms(1,2) _ h], goal_cases)
    case 1
    then show ?case using assms(3) by simp
  next
    case (2 pre fin com b lci)
    then show ?case
      by (intro exI [of _ pre] exI [of _ fin] exI [of _ com] exI [of _ "finalize_request E b lci"])
        (simp add: s' finalize_request_def)
  qed
qed

lemma sample_orders_maps: "orders_maps sample_env"
  by (simp add: orders_maps_def sample_env_def)

theorem block_finalized_once_everywhere_witness:
  "\<exists>t fin com req pre. RunBlockWithTimeAndProposer sample_env 10 (Some (sample_validator ''v1'' 10)) [] sample_sys = (Return (), t)
    \<and> abci_log t = pre @ fin @ com
    \<and> mset fin = {#CallFinalizeBlock ''c1'' req, CallFinalizeBlock ''c2'' req#} \<and> rfb_Txs req = [''a'']
    \<and> mset com = {#CallCommit ''c1'', CallCommit ''c2''#}"
proof -
  obtain t where run: "RunBlockWithTimeAndProposer sample_env 10 (Some (sample_validator ''v1'' 10)) [] sample_sys = (Return (), t)"
    and b: "blk_Txs (LastBlock (client t)) = [''a'']"
    using sample_block_runs by blast
  have "distinct (map fst (Clients (client sample_sys)))" by (simp add: sample_sys_def sample_clients_def)
  from block_finalized_once_everywhere [OF sample_makes_blocks sample_orders_maps this run] b run
  show ?thesis
    by (auto simp: sample_sys_def sample_clients_def NewAbciCounterpartyClient_def)
qed

end
