(* ===== verification/Block_Properties.thy ===== *)
theory Block_Properties
  imports Block_Order
begin

text \<open>
  The properties of one block: what a successful block does to the chain, what becomes of the
  queued transactions, who signs, and what the locks are left in on every outcome.
\<close>

section \<open>The check of the transaction queues\<close>

lemma collect_first:
  assumes "collect f xs s = (Return (y # ys), t)"
  obtains x u where "x \<in> set xs" "f x s = (Return y, u)"
  using assms by (cases xs) (auto simp: bindP_Return_iff)

lemma call_Return: "call k f s = (Return a, t) \<Longrightarrow> fst (f (world s)) = Inr a"
  by (auto simp: call_def split: prod.splits sum.splits)

text \<open>
  The verdicts on the transactions of a list, asked for one after the other: whether \<open>CheckTx\<close> answers with the code OK. Nothing
  is assumed of the applications; they may answer the same question differently each time.
\<close>

definition check_answers :: "'w env \<Rightarrow> check_tx_type \<Rightarrow> tx list \<Rightarrow> ('w, bool list) run" where
  "check_answers E checkType =
     collect (\<lambda>tx. bindP (SendCheckTx E checkType tx) (\<lambda>res. ret (rsc_Code res = CodeTypeOK E)))"

text \<open>The transactions that are not empty and got a positive verdict.\<close>

definition passed :: "tx list \<Rightarrow> bool list \<Rightarrow> tx list" where
  "passed txs oks = map fst (filter (\<lambda>(tx, ok). ok \<and> tx \<noteq> []) (zip txs oks))"

lemma check_answers_simps [simp]:
  "check_answers E ty [] = ret []"
  "check_answers E ty (tx # txs) = bindP (bindP (SendCheckTx E ty tx) (\<lambda>res. ret (rsc_Code res = CodeTypeOK E)))
     (\<lambda>ok. bindP (check_answers E ty txs) (\<lambda>oks. ret (ok # oks)))"
  by (simp_all add: check_answers_def)

lemma check_answers_length: "check_answers E ty txs s = (Return oks, t) \<Longrightarrow> length oks = length txs"
  unfolding check_answers_def by (rule collect_length)

text \<open>A check reads the registered clients and the settings, and nothing else of the client.\<close>

lemma collect_call_client:
  "collect (\<lambda>c :: counterparty. call (k c) (f c)) cs s = (r, t) \<Longrightarrow>
    collect (\<lambda>c. call (k c) (f c)) cs (s\<lparr>client := a\<rparr>) = (r, t\<lparr>client := a\<rparr>)"
proof (induction cs arbitrary: s r t)
  case (Cons c cs)
  let ?u = "snd (call (k c) (f c) s)"
  have one: "call (k c) (f c) (s\<lparr>client := a\<rparr>) = (fst (call (k c) (f c) s), ?u\<lparr>client := a\<rparr>)"
    by (auto simp: call_def split: prod.split)
  obtain r' t' where rest: "collect (\<lambda>c. call (k c) (f c)) cs ?u = (r', t')" by fastforce
  show ?case
    using Cons.prems one rest Cons.IH [OF rest]
    by (cases "fst (call (k c) (f c) s)"; cases "call (k c) (f c) s"; cases r') (auto simp: run_bindP ret_def)
qed (auto simp: ret_def)

lemma SendCheckTx_client:
  assumes "SendCheckTx E ty tx s = (r, t)" "Clients a = Clients (client s)"
    "ErrorOnUnequalResponses a = ErrorOnUnequalResponses (client s)"
  shows "SendCheckTx E ty tx (s\<lparr>client := a\<rparr>) = (r, t\<lparr>client := a\<rparr>)"
proof -
  let ?ask = "\<lambda>c :: counterparty. call (CallCheckTx (acc_Client c) \<lparr>rct_Tx = tx, rct_Type = ty\<rparr>)
    (app_CheckTx E (acc_Client c) \<lparr>rct_Tx = tx, rct_Type = ty\<rparr>)"
  obtain ks w where o: "map_order E (map fst (Clients (client s))) (world s) = (ks, w)" by fastforce
  let ?cs = "List.map_filter (map_of (Clients (client s))) ks"
  obtain q u where c: "collect ?ask ?cs (s\<lparr>world := w\<rparr>) = (q, u)" by fastforce
  have "keeps (\<lambda>v. client v = client s) (collect ?ask ?cs)" by (intro keeps_intros) (simp add: env_blind_def)
  from keepsD [OF this, of "s\<lparr>world := w\<rparr>"] have "client u = client s" by (simp add: c)
  moreover have "collect ?ask ?cs (s\<lparr>client := a, world := w\<rparr>) = (q, u\<lparr>client := a\<rparr>)"
    using collect_call_client [OF c, of a] by (cases s) simp
  ultimately show ?thesis
    using assms o c
    by (cases q) (auto simp: SendCheckTx_def broadcast_def range_clients_def run_bindP Let_def ret_def
        split: if_splits list.splits)
qed

text \<open>The loop over one queue, from the index \<open>length pre\<close> on: it asks what \<open>check_answers\<close> asks.\<close>

lemma check_loop:
  assumes lens: "\<And>a q. queue (set_queue q a) = q" "\<And>a q q'. set_queue q (set_queue q' a) = set_queue q a"
      "\<And>a. set_queue (queue a) a = a" "\<And>a q. Clients (set_queue q a) = Clients a"
      "\<And>a q. ErrorOnUnequalResponses (set_queue q a) = ErrorOnUnequalResponses a"
    and "queue (client s) = pre @ txs"
    and "foreach (\<lambda>(index, tx).
         bindP (wrap_error CheckTxError (SendCheckTx E ty tx)) (\<lambda>resCheckTx.
           if rsc_Code resCheckTx \<noteq> CodeTypeOK E
           then upd_client (\<lambda>a. set_queue ((queue a)[index := []]) a) else ret ()))
       (enumerate (length pre) txs) s = (Return (), t)"
  shows "\<exists>oks. client t = set_queue (pre @ map2 (\<lambda>tx ok. if ok then tx else []) txs oks) (client s)
    \<and> (\<forall>a. Clients a = Clients (client s) \<longrightarrow> ErrorOnUnequalResponses a = ErrorOnUnequalResponses (client s) \<longrightarrow>
        check_answers E ty txs (s\<lparr>client := a\<rparr>) = (Return oks, t\<lparr>client := a\<rparr>))"
  using assms(6,7)
proof (induction txs arbitrary: pre s)
  case Nil
  then show ?case using lens(3) [of "client s"] by (intro exI [of _ "[]"]) (simp add: ret_def)
next
  case (Cons tx txs)
  let ?body = "\<lambda>(index, tx). bindP (wrap_error CheckTxError (SendCheckTx E ty tx)) (\<lambda>resCheckTx.
           if rsc_Code resCheckTx \<noteq> CodeTypeOK E
           then upd_client (\<lambda>a. set_queue ((queue a)[index := []]) a) else ret ())"
  obtain u where one: "?body (length pre, tx) s = (Return (), u)"
    and rest: "foreach ?body (enumerate (Suc (length pre)) txs) u = (Return (), t)"
    using Cons.prems(2) by (auto elim!: seqP_ReturnE)
  obtain r v where r: "SendCheckTx E ty tx s = (Return r, v)"
    and u: "u = (if rsc_Code r \<noteq> CodeTypeOK E
      then v\<lparr>client := set_queue ((queue (client v))[length pre := []]) (client v)\<rparr> else v)"
    using one by (auto elim!: bindP_ReturnE simp: wrap_error_Return_iff split: if_splits)
  let ?ok = "rsc_Code r = CodeTypeOK E"
  let ?tx = "if ?ok then tx else []"
  have cv: "client v = client s" using check_call.client_unchanged [OF r] .
  have cu: "client u = set_queue ((pre @ [?tx]) @ txs) (client s)"
    using u Cons.prems(1) lens(3) [of "client s"] by (auto simp: cv)
  then have q: "queue (client u) = (pre @ [?tx]) @ txs" by (simp add: lens(1))
  obtain oks where t: "client t = set_queue ((pre @ [?tx]) @ map2 (\<lambda>tx ok. if ok then tx else []) txs oks) (client u)"
    and ans: "\<And>a. Clients a = Clients (client u) \<Longrightarrow> ErrorOnUnequalResponses a = ErrorOnUnequalResponses (client u) \<Longrightarrow>
        check_answers E ty txs (u\<lparr>client := a\<rparr>) = (Return oks, t\<lparr>client := a\<rparr>)"
    using Cons.IH [OF q] rest by auto
  have "u\<lparr>client := a\<rparr> = v\<lparr>client := a\<rparr>" for a using u by simp
  then have "check_answers E ty (tx # txs) (s\<lparr>client := a\<rparr>) = (Return (?ok # oks), t\<lparr>client := a\<rparr>)"
    if "Clients a = Clients (client s)" "ErrorOnUnequalResponses a = ErrorOnUnequalResponses (client s)" for a
    using SendCheckTx_client [OF r that] ans [of a] that by (simp add: cu lens(4,5) run_bindP ret_def)
  moreover have "client t = set_queue (pre @ map2 (\<lambda>tx ok. if ok then tx else []) (tx # txs) (?ok # oks)) (client s)"
    using t by (simp add: cu lens(2))
  ultimately show ?case by blast
qed

lemma filter_passed: "filter (\<lambda>tx. tx \<noteq> []) (map2 (\<lambda>tx ok. if ok then tx else []) q oks) = passed q oks"
  by (induction q oks rule: list_induct2') (auto simp: passed_def)

lemma check_txs_Return:
  assumes "check_fresh_txs E s = (Return (), s1)" "check_stale_txs E s1 = (Return (), s2)"
  obtains oks oks' u where "check_answers E CheckTxType_New (FreshTxQueue (client s)) s = (Return oks, u)"
    "check_answers E CheckTxType_Recheck (StaleTxQueue (client s)) u = (Return oks', s2\<lparr>client := client s\<rparr>)"
    "non_empty_txs (client s2) = passed (FreshTxQueue (client s)) oks @ passed (StaleTxQueue (client s)) oks'"
proof -
  let ?t = "\<lambda>tx ok. if ok then tx else ([] :: tx)"
  have "\<exists>oks. client s1 = (client s)\<lparr>FreshTxQueue := [] @ map2 ?t (FreshTxQueue (client s)) oks\<rparr>
    \<and> (\<forall>a. Clients a = Clients (client s) \<longrightarrow> ErrorOnUnequalResponses a = ErrorOnUnequalResponses (client s) \<longrightarrow>
        check_answers E CheckTxType_New (FreshTxQueue (client s)) (s\<lparr>client := a\<rparr>) = (Return oks, s1\<lparr>client := a\<rparr>))"
    by (rule check_loop [where queue = FreshTxQueue and set_queue = "\<lambda>q a. a\<lparr>FreshTxQueue := q\<rparr>"])
      (use assms(1) in \<open>simp_all add: check_fresh_txs_def check_queue_def bindP_Return_iff\<close>)
  then obtain oks where 1: "client s1 = (client s)\<lparr>FreshTxQueue := map2 ?t (FreshTxQueue (client s)) oks\<rparr>"
      "check_answers E CheckTxType_New (FreshTxQueue (client s)) (s\<lparr>client := client s\<rparr>) = (Return oks, s1\<lparr>client := client s\<rparr>)"
    by auto
  have "\<exists>oks. client s2 = (client s1)\<lparr>StaleTxQueue := [] @ map2 ?t (StaleTxQueue (client s1)) oks\<rparr>
    \<and> (\<forall>a. Clients a = Clients (client s1) \<longrightarrow> ErrorOnUnequalResponses a = ErrorOnUnequalResponses (client s1) \<longrightarrow>
        check_answers E CheckTxType_Recheck (StaleTxQueue (client s1)) (s1\<lparr>client := a\<rparr>) = (Return oks, s2\<lparr>client := a\<rparr>))"
    by (rule check_loop [where queue = StaleTxQueue and set_queue = "\<lambda>q a. a\<lparr>StaleTxQueue := q\<rparr>"])
      (use assms(2) in \<open>simp_all add: check_stale_txs_def check_queue_def bindP_Return_iff\<close>)
  then obtain oks' where 2: "client s2 = (client s1)\<lparr>StaleTxQueue := map2 ?t (StaleTxQueue (client s1)) oks'\<rparr>"
      "check_answers E CheckTxType_Recheck (StaleTxQueue (client s1)) (s1\<lparr>client := client s\<rparr>) = (Return oks', s2\<lparr>client := client s\<rparr>)"
    using 1(1) by auto
  have "non_empty_txs (client s2) = passed (FreshTxQueue (client s)) oks @ passed (StaleTxQueue (client s)) oks'"
    by (simp add: non_empty_txs_def 1(1) 2(1) filter_passed)
  then show thesis using that [of oks "s1\<lparr>client := client s\<rparr>" oks'] 1 2 by simp
qed

lemma helper_txs:
  assumes run: "runBlock_helper E t p misb s = (Return (), s')"
  obtains oks oks' u u' where "check_answers E CheckTxType_New (FreshTxQueue (client s)) s = (Return oks, u)"
    "check_answers E CheckTxType_Recheck (StaleTxQueue (client s)) u = (Return oks', u')" "FreshTxQueue (client s') = []"
    "StaleTxQueue (client s') = filter (\<lambda>tx. tx \<notin> set (blk_Txs (LastBlock (client s'))))
       (passed (FreshTxQueue (client s)) oks @ passed (StaleTxQueue (client s)) oks')"
  using run
proof (rule helper_Return, goal_cases)
  case (1 s1 s2 evs s3 app s4 b s5 nps s6 s7 votes s8 s9 s10)
  note ph = 1(2-12)
  have q5: "FreshTxQueue (client s5) = []"
    "StaleTxQueue (client s5) = filter (\<lambda>tx. tx \<notin> set (blk_Txs b)) (non_empty_txs (client s2))"
    using ph(5) by (auto elim!: propose_block_Return)
  have c9: "client s9 = client s5"
    using phase_cores(2) [OF ph(6)] phase_cores(3) [OF ph(7)] phase_cores(4) [OF ph(8)]
      phase_cores(5) [OF ph(9)] by (simp add: core_def)
  obtain ec where "client s10 = (client s9)\<lparr>LastCommit := ec\<rparr>"
    using ph(10) by (rule make_commit_Return) simp
  moreover obtain res u where cu: "core u = core s10"
    and st: "store_and_commit E (i64 (st_LastBlockHeight (CurState (client s)) + 1)) b res u = (Return (), s')"
    using ph(11) by (rule finalize_and_commit_Return)
  moreover obtain st where "client s' = finalized E (i64 (st_LastBlockHeight (CurState (client s)) + 1)) b res st (client u)"
    using st by (rule store_and_commit_Return) (simp add: core_def)
  ultimately have q: "FreshTxQueue (client s') = []"
    "StaleTxQueue (client s') = filter (\<lambda>tx. tx \<notin> set (blk_Txs (LastBlock (client s')))) (non_empty_txs (client s2))"
    using q5 c9 coreD(1) [OF cu] by (simp_all add: finalized_def)
  show ?case by (rule check_txs_Return [OF ph(1,2)], rule 1(1)) (use q in simp_all)
qed

section \<open>Every outcome of a block\<close>

text \<open>
  What the stores and the chain state may look like after a block that started in \<open>a\<close>: untouched, or
  moved on by exactly one block.
\<close>

definition untouched :: "abci_client \<Rightarrow> abci_client \<Rightarrow> bool" where
  "untouched a a' \<longleftrightarrow> CurState a' = CurState a \<and> LastBlock a' = LastBlock a
     \<and> ms_entries (Storage a') = ms_entries (Storage a) \<and> ms_wf (Storage a') = ms_wf (Storage a)
     \<and> \<not> stateUpdateMutex (Storage a')"

definition moved_on :: "'w env \<Rightarrow> time \<Rightarrow> validator option \<Rightarrow> abci_client \<Rightarrow> abci_client \<Rightarrow> bool" where
  "moved_on E t p a a' \<longleftrightarrow> (\<exists>v b res bid ups st ah. p = Some v \<and> proposed E t v a b \<and> LastBlock a' = b
     \<and> GetBlockIdFromBlock E b = Return bid \<and> PB2TM_ValidatorUpdates E (rsf_ValidatorUpdates res) = Inr ups
     \<and> UpdateState E (CurState a) bid (blk_Header b) res ups = Return st
     \<and> CurState a' = st\<lparr>st_AppHash := ah\<rparr> \<and> (ah = [] \<or> ah = rsf_AppHash res)
     \<and> ms_entries (Storage a') = (ms_entries (Storage a))
         (hd_Height (blk_Header b) \<mapsto> (b, ec_ToCommit E (LastCommit a'), CurState a, res))
     \<and> (ms_wf (Storage a) \<longrightarrow> ms_wf (Storage a')) \<and> \<not> stateUpdateMutex (Storage a'))"

definition block_outcome :: "'w env \<Rightarrow> time \<Rightarrow> validator option \<Rightarrow> abci_client \<Rightarrow> abci_client \<Rightarrow> bool" where
  "block_outcome E t p a a' \<longleftrightarrow> stateUpdateMutex (Storage a') \<or> untouched a a' \<or> moved_on E t p a a'"

lemma frame_untouched: "frame u = frame s \<Longrightarrow> \<not> stateUpdateMutex (Storage (client s)) \<Longrightarrow> untouched (client s) (client u)"
  using frameD [of u s] by (simp add: untouched_def)

lemma ms_wf_mutex [simp]: "ms_wf (m\<lparr>stateUpdateMutex := l\<rparr>) = ms_wf m"
  by (simp add: ms_wf_def)

lemma UpdateState_AppHash_nil:
  "UpdateState E st bid h res ups = Return st' \<Longrightarrow> st'\<lparr>st_AppHash := []\<rparr> = st'"
  by (drule UpdateState_Return(8)) (rule comet_state.equality, simp_all)

text \<open>From the lock of the stores on: a lock that stays, or a state that moved on.\<close>

lemma store_and_commit_outcome:
  assumes h: "h = hd_Height (blk_Header b)" and p: "proposed E t v a b"
    and u: "untouched a (client u)" and run: "store_and_commit E h b res u = (r, s')"
  shows "block_outcome E t (Some v) a (client s')"
proof -
  have lock: "\<not> stateUpdateMutex (Storage (client u))" using u by (simp add: untouched_def)
  define s2 where "s2 = u\<lparr>client := (client u)\<lparr>LastBlock := b, Storage :=
    stored h b (ec_ToCommit E (LastCommit (client u))) (CurState (client u)) res
      ((Storage (client u))\<lparr>stateUpdateMutex := True\<rparr>)\<rparr>\<rparr>"
  have locked: "block_outcome E t (Some v) a (client x)" if "stateUpdateMutex (Storage (client x))" for x :: "'a sys"
    using that by (simp add: block_outcome_def)
  let ?tail = "seqP (in_storage UnlockAfterStateUpdate) (seqP (wrap_error CommitError (SendCommit E))
      (upd_state (\<lambda>st. st\<lparr>st_AppHash := rsf_AppHash res\<rparr>)))"
  have run2: "bindP (wrap_error BlockIdError (lift_outcome (GetBlockIdFromBlock E b))) (\<lambda>blockId.
      seqP (wrap_error UpdatingStateForResultError (UpdateStateFromBlock E blockId b res)) ?tail) s2 = (r, s')"
    using run lock
    by (simp add: store_and_commit_def run_seqP run_bindP run_in_storage run_locks run_wrap_error run_UpdateStores
        s2_def stored_def)
  have l2: "stateUpdateMutex (Storage (client s2))" by (simp add: s2_def)
  show ?thesis
  proof (cases "GetBlockIdFromBlock E b")
    case (Return bid)
    obtain r3 s3 where upd: "UpdateStateFromBlock E bid b res s2 = (r3, s3)" by fastforce
    have k: "keeps (\<lambda>x. stateUpdateMutex (Storage (client x))) (UpdateStateFromBlock E bid b res)"
      by (auto simp: UpdateStateFromBlock_def intro!: keeps_intros)
    have l3: "stateUpdateMutex (Storage (client s3))" using keeps_run [OF k upd] l2 by simp
    show ?thesis
    proof (cases "r3 = Return ()")
      case True
      obtain ups st where up: "PB2TM_ValidatorUpdates E (rsf_ValidatorUpdates res) = Inr ups"
          "UpdateState E (CurState (client s2)) bid (blk_Header b) res ups = Return st"
        and s3: "client s3 = (client s2)\<lparr>CurState := st\<rparr>"
        using upd [unfolded True] by (rule UpdateStateFromBlock_Return) simp
      define s4 where "s4 = s3\<lparr>client := (client s3)\<lparr>Storage := (Storage (client s3))\<lparr>stateUpdateMutex := False\<rparr>\<rparr>\<rparr>"
      have run3: "seqP (wrap_error CommitError (SendCommit E))
          (upd_state (\<lambda>st. st\<lparr>st_AppHash := rsf_AppHash res\<rparr>)) s4 = (r, s')"
        using run2 Return True upd l3
        by (simp add: run_bindP run_seqP run_wrap_error run_in_storage run_locks s4_def lift_outcome_def)
      obtain r5 s5 where com: "SendCommit E s4 = (r5, s5)" by fastforce
      have s5: "client s5 = client s4" by (rule commit_call.client_unchanged [OF com])
      have s': "client s' = client s4 \<or> client s' = (client s4)\<lparr>CurState := st\<lparr>st_AppHash := rsf_AppHash res\<rparr>\<rparr>"
        using run3 com s5 by (cases r5) (auto simp: run_seqP run_wrap_error upd_state_def s4_def s3)
      have "moved_on E t (Some v) a (client s')" (is "?M (client s')")
      proof -
        have st0: "CurState (client s2) = CurState a" "LastBlock (client s2) = b"
            "ms_entries (Storage (client s2)) = (ms_entries (Storage a))
               (h \<mapsto> (b, ec_ToCommit E (LastCommit (client u)), CurState a, res))"
            "LastCommit (client s2) = LastCommit (client u)"
            "ms_wf (Storage a) \<longrightarrow> ms_wf (Storage (client s2))"
          using u by (simp_all add: s2_def untouched_def)
        have "LastBlock (client s') = b \<and> LastCommit (client s') = LastCommit (client u)
            \<and> ms_entries (Storage (client s')) = ms_entries (Storage (client s2))
            \<and> (ms_wf (Storage (client s2)) \<longrightarrow> ms_wf (Storage (client s')))
            \<and> \<not> stateUpdateMutex (Storage (client s'))
            \<and> (\<exists>ah. CurState (client s') = st\<lparr>st_AppHash := ah\<rparr> \<and> (ah = [] \<or> ah = rsf_AppHash res))"
          using s'
        proof
          assume "client s' = client s4"
          moreover have "st = st\<lparr>st_AppHash := []\<rparr>" using UpdateState_AppHash_nil [OF up(2)] by simp
          ultimately show ?thesis using st0 by (simp add: s4_def s3) metis
        next
          assume "client s' = (client s4)\<lparr>CurState := st\<lparr>st_AppHash := rsf_AppHash res\<rparr>\<rparr>"
          then show ?thesis using st0 by (simp add: s4_def s3) blast
        qed
        then show ?thesis
          using p h Return up st0 unfolding moved_on_def by simp blast
      qed
      then show ?thesis by (simp add: block_outcome_def)
    next
      case False
      then have "s' = s3" using run2 Return upd
        by (cases r3) (auto simp: run_bindP run_seqP run_wrap_error lift_outcome_def)
      then show ?thesis using locked [OF l3] by simp
    qed
  qed (use run2 locked [OF l2] in \<open>auto simp: run_bindP run_wrap_error lift_outcome_def\<close>)
qed

lemma triple_get_client: "(\<And>s. P s \<Longrightarrow> Q (f (client s)) s) \<Longrightarrow> triple P (get_client f) Q X"
  by (simp add: triple_def)

lemma propose_block_outcome:
  assumes E: "makes_blocks E" and l: "\<not> stateUpdateMutex (Storage (client s))"
  shows "triple (\<lambda>u. frame u = frame s) (propose_block E app p t txs evs)
    (\<lambda>b u. frame u = frame s \<and> (\<exists>v. p = Some v \<and> proposed E t v (client s) b))
    (\<lambda>u. untouched (client s) (client u))"
proof (rule tripleI)
  fix u b u' assume f: "frame u = frame s" and run: "propose_block E app p t txs evs u = (Return b, u')"
  have "\<exists>v. p = Some v \<and> proposed E t v (client s) b"
    using run
  proof (rule propose_block_Return, goal_cases)
    case (1 v prp b0 w)
    then show ?case using decideProposal_block [OF E 1(2)] frameD [OF f] by (simp add: proposed_def)
  qed
  then show "frame u' = frame s \<and> (\<exists>v. p = Some v \<and> proposed E t v (client s) b)"
    using phase_frames(5) [OF run] f by simp
qed (use phase_frames(5) frame_untouched [OF _ l] in metis)

lemma keeps_make_commit_untouched: "keeps (\<lambda>u. untouched a (client u)) (make_commit E b votes)"
  by (rule keeps_make_commit) (simp add: untouched_def)

lemma finalize_and_commit_outcome:
  assumes h: "h = hd_Height (blk_Header b)" and p: "proposed E t v a b"
  shows "triple (\<lambda>u. untouched a (client u)) (finalize_and_commit E h b)
    (\<lambda>_ u. block_outcome E t (Some v) a (client u)) (\<lambda>u. block_outcome E t (Some v) a (client u))"
proof -
  have "triple (\<lambda>u. untouched a (client u)) (store_and_commit E h b res)
      (\<lambda>_ u. block_outcome E t (Some v) a (client u)) (\<lambda>u. block_outcome E t (Some v) a (client u))" for res
    by (rule tripleI) (use store_and_commit_outcome [OF h p] in blast)+
  moreover have "keeps (\<lambda>u. untouched a (client u)) (SendFinalizeBlock E b lci)" for lci
    by (intro keeps_intros env_blind_client)
  ultimately show ?thesis unfolding finalize_and_commit_def
    by (intro triple_bindP [where R = "\<lambda>_ u. untouched a (client u)"] triple_wrap_error triple_keeps)
      (auto simp: block_outcome_def)
qed

text \<open>
  A block by its phases: \<open>F\<close> is kept up to the proposal, \<open>G\<close> from there up to the commit and \<open>M\<close> holds between the commit and its
  finalization. A block that returns ends in \<open>Y\<close>; \<open>X\<close> follows from \<open>F\<close> and \<open>G\<close> and holds at the end on every other outcome.
\<close>

lemma helper_triple:
  fixes E :: "'w env" and F :: "'w sys \<Rightarrow> bool"
  assumes F: "queue_blind F" "\<And>u. F u \<Longrightarrow> X u" and G: "\<And>b. env_blind (G b)" "\<And>b u. G b u \<Longrightarrow> X u"
    and prp: "\<And>app txs evs. triple F (propose_block E app p t txs evs) G X"
    and mc: "\<And>b votes. triple (G b) (make_commit E b votes) (\<lambda>_. M b) X"
    and fin: "\<And>b. triple (M b) (finalize_and_commit E (i64 (st_LastBlockHeight (CurState (client s)) + 1)) b) (\<lambda>_. Y) X"
    and s: "F s" and run: "runBlock_helper E t p misb s = (r, s')"
  shows "case r of Return _ \<Rightarrow> Y s' | _ \<Rightarrow> X s'"
proof -
  let ?h = "i64 (st_LastBlockHeight (CurState (client s)) + 1)"
    and ?a = "case p of None \<Rightarrow> [] | Some v \<Rightarrow> val_Address v"
  note q = queue_blindD [OF F(1)] F(1)
  have P: "triple F m (\<lambda>_. F) X" if "keeps F m" for m :: "('w, 'x) run" by (rule triple_keeps [OF that F(2)])
  have K: "triple (G b) m (\<lambda>_. G b) X" if "keeps (G b) m" for b and m :: "('w, 'x) run" by (rule triple_keeps [OF that G(2)])
  have post: "triple (G b) (bindP (find_non_proposers E ?a) (\<lambda>nps. seqP (process_proposals E nps b)
      (bindP (sign_votes E b) (\<lambda>votes. seqP (verify_extensions E b votes)
      (seqP (make_commit E b votes) (finalize_and_commit E ?h b)))))) (\<lambda>_. Y) X" for b
    by (rule triple_bindP [OF K triple_seqP [OF K triple_bindP [OF K triple_seqP [OF K triple_seqP [OF mc fin]]]]])
      (intro keeps_intros G(1))+
  have "triple F (seqP (check_fresh_txs E) (seqP (check_stale_txs E)
      (bindP (get_client non_empty_txs) (\<lambda>txs. bindP (collect_evidence E misb) (\<lambda>evs.
       bindP (find_proposer_app E ?a) (\<lambda>app. bindP (propose_block E app p t txs evs) (\<lambda>b.
       bindP (find_non_proposers E ?a) (\<lambda>nps. seqP (process_proposals E nps b)
      (bindP (sign_votes E b) (\<lambda>votes. seqP (verify_extensions E b votes)
      (seqP (make_commit E b votes) (finalize_and_commit E ?h b)))))))))))) (\<lambda>_. Y) X"
    by (rule triple_seqP [OF P triple_seqP [OF P triple_bindP [OF P triple_bindP [OF P triple_bindP [OF P
              triple_bindP [OF prp post]]]]]])
      (intro keeps_intros q)+
  then show ?thesis using run s by (cases r) (auto simp: triple_def runBlock_helper_def run_bindP Let_def)
qed

lemma helper_outcome:
  fixes E :: "'w env"
  assumes E: "makes_blocks E" and l: "\<not> stateUpdateMutex (Storage (client s))"
    and run: "runBlock_helper E t p misb s = (r, s')"
  shows "block_outcome E t p (client s) (client s')"
proof -
  let ?F = "\<lambda>u :: 'w sys. frame u = frame s" and ?X = "\<lambda>u :: 'w sys. block_outcome E t p (client s) (client u)"
  let ?G = "\<lambda>b u. ?F u \<and> (\<exists>v. p = Some v \<and> proposed E t v (client s) b)"
  let ?M = "\<lambda>b (u :: 'w sys). untouched (client s) (client u) \<and> (\<exists>v. p = Some v \<and> proposed E t v (client s) b)"
  have FX: "?X u" if "?F u" for u using frame_untouched [OF that l] by (simp add: block_outcome_def)
  have fin: "triple (?M b) (finalize_and_commit E (i64 (st_LastBlockHeight (CurState (client s)) + 1)) b) (\<lambda>_. ?X) ?X" for b
  proof (cases "\<exists>v. p = Some v \<and> proposed E t v (client s) b")
    case True
    then obtain v where "p = Some v" "proposed E t v (client s) b" by blast
    then show ?thesis
      using finalize_and_commit_outcome [of "i64 (st_LastBlockHeight (CurState (client s)) + 1)" b E t v "client s"]
      by (auto simp: proposed_def elim!: triple_weaken)
  qed (auto simp: triple_def)
  have mc: "triple (?G b) (make_commit E b votes) (\<lambda>_. ?M b) ?X" for b votes
    by (rule triple_weaken [OF triple_keeps [where P = "?M b"]])
      (use keeps_make_commit_untouched [of "client s" E b votes] frame_untouched [OF _ l]
        in \<open>auto simp: keeps_def block_outcome_def\<close>)
  have prp: "triple ?F (propose_block E app p t txs evs) ?G ?X" for app txs evs
    by (rule triple_weaken [OF propose_block_outcome [OF E l]]) (simp_all add: block_outcome_def)
  have "case r of Return _ \<Rightarrow> ?X s' | _ \<Rightarrow> ?X s'"
    by (rule helper_triple [where F = ?F and G = ?G and M = ?M and X = ?X, OF _ _ _ _ prp mc fin refl run])
      (use FX in \<open>auto simp: env_blind_def, simp_all add: frame_def\<close>)
  then show ?thesis by (cases r) auto
qed

section \<open>Votes\<close>

lemma collect_nth:
  assumes "\<And>x. keeps P (f x)" "P s" "collect f xs s = (Return ys, t)" "i < length xs"
  obtains u v where "P u" "f (xs ! i) u = (Return (ys ! i), v)"
  using assms(2-)
proof (induction xs arbitrary: s ys i thesis)
  case (Cons x xs)
  obtain y ys' u where x: "f x s = (Return y, u)" "collect f xs u = (Return ys', t)" "ys = y # ys'"
    using Cons.prems(3) by (auto elim!: bindP_ReturnE)
  show ?case
  proof (cases i)
    case 0
    then show ?thesis using Cons.prems(1,2) x by auto
  next
    case (Suc j)
    have "P u" using keeps_run [OF assms(1) x(1)] Cons.prems(2) by simp
    from Cons.IH [OF _ this x(2), of j] show ?thesis using Cons.prems(1,4) Suc x(3) by auto
  qed
qed simp

text \<open>The vote of the validator at index \<open>i\<close> for a block.\<close>

definition votes_for :: "'w env \<Rightarrow> block \<Rightarrow> nat \<Rightarrow> validator \<Rightarrow> vote \<Rightarrow> bool" where
  "votes_for E b i val vote \<longleftrightarrow> vt_ValidatorAddress vote = val_Address val \<and> vt_ValidatorIndex vote = i32 (int i)
     \<and> vt_Type vote = PrecommitType E \<and> vt_Height vote = hd_Height (blk_Header b)
     \<and> vt_Timestamp vote = hd_Time (blk_Header b)
     \<and> (\<exists>ps. MakePartSet E b (BlockPartSizeBytes E) = Inr ps
          \<and> vt_BlockID vote = \<lparr>bid_Hash = block_Hash E b, bid_PartSetHeader = ps_Header E ps\<rparr>)
     \<and> (\<forall>c. blk_LastCommit b = Some c \<longrightarrow> vt_Round vote = cm_Round c)"

lemma sign_vote_Return:
  assumes "sign_vote E b (i, val) s = (Return v, t)"
  shows "case signingStatus (client s) (addr_String E (val_Address val)) of
      None \<Rightarrow> False | Some False \<Rightarrow> v = None | Some True \<Rightarrow> (\<exists>vote. v = Some vote \<and> votes_for E b i val vote)"
proof (cases "signingStatus (client s) (addr_String E (val_Address val))")
  case None
  then show ?thesis using assms
    by (auto simp: sign_vote_def Let_def run_GetSigningStatus wrap_error_Return_iff elim!: bindP_ReturnE)
next
  case (Some status)
  show ?thesis
  proof (cases status)
    case True
    obtain app vote u where "v = Some vote" "ExtendAndSignVote E app val (i32 (int i)) b s = (Return vote, u)"
      using assms Some True
      by (auto simp: sign_vote_def Let_def run_GetSigningStatus wrap_error_Return_iff elim!: bindP_ReturnE
          split: option.splits)
    then show ?thesis using Some True ExtendAndSignVote_vote [of E app val "i32 (int i)" b s vote u]
      by (auto simp: votes_for_def)
  next
    case False
    then show ?thesis using assms Some
      by (auto simp: sign_vote_def Let_def run_GetSigningStatus wrap_error_Return_iff elim!: bindP_ReturnE)
  qed
qed

section \<open>A successful block in one statement\<close>

lemma RunBlock_success:
  assumes "makes_blocks E" and "RunBlockWithTimeAndProposer E t p misb s = (Return (), s')"
  shows "\<exists>v b res bid ups. p = Some v \<and> proposed E t v (client s) b \<and> LastBlock (client s') = b
    \<and> GetBlockIdFromBlock E b = Return bid
    \<and> ms_entries (Storage (client s')) = (ms_entries (Storage (client s)))(hd_Height (blk_Header b) \<mapsto>
        (b, ec_ToCommit E (LastCommit (client s')), CurState (client s), res))
    \<and> st_LastBlockHeight (CurState (client s')) = hd_Height (blk_Header b)
    \<and> st_LastBlockTime (CurState (client s')) = t \<and> st_LastBlockID (CurState (client s')) = bid
    \<and> st_Validators (CurState (client s')) = st_NextValidators (CurState (client s))
    \<and> st_LastValidators (CurState (client s')) = st_Validators (CurState (client s))
    \<and> st_AppHash (CurState (client s')) = rsf_AppHash res
    \<and> published s' = published s @ block_events b bid res ups
    \<and> \<not> blockMutex s' \<and> \<not> stateUpdateMutex (Storage (client s'))
    \<and> Clients (client s') = Clients (client s) \<and> signingStatus (client s') = signingStatus (client s)
    \<and> TimeHandler (client s') = TimeHandler (client s)"
proof -
  obtain u where h: "runBlock_helper E t p misb (s\<lparr>blockMutex := True\<rparr>) = (Return (), u)"
    and s': "s' = u\<lparr>blockMutex := False\<rparr>"
    using assms(2) by (auto simp: RunBlock_Return_iff)
  show ?thesis
    using assms(1) h
  proof (rule helper_success, goal_cases)
    case (1 v b votes vos ec lci res bid ups st s9)
    note f = frameD [OF 1(10)] and st = UpdateState_Return [OF 1(9)]
    have t: "hd_Time (blk_Header b) = t" using 1(2) by (simp add: proposed_def)
    show ?case
      by (rule exI [of _ v], rule exI [of _ b], rule exI [of _ res], rule exI [of _ bid], rule exI [of _ ups])
        (use 1 st t f in \<open>simp add: s' core_def finalized_def\<close>)
  qed
qed

lemma RunBlock_outcome:
  assumes "makes_blocks E" and "\<not> stateUpdateMutex (Storage (client s))"
    and "RunBlockWithTimeAndProposer E t p misb s = (r, s')"
  shows "stateUpdateMutex (Storage (client s')) \<or> untouched (client s) (client s') \<or> moved_on E t p (client s) (client s')"
proof (cases "blockMutex s")
  case True
  then show ?thesis using assms by (simp add: RunBlock_mutex_held untouched_def)
next
  case False
  obtain r1 u where h: "runBlock_helper E t p misb (s\<lparr>blockMutex := True\<rparr>) = (r1, u)" by fastforce
  have "client s' = client u"
    using run_RunBlockWithTimeAndProposer(1) [OF False h] assms(3) by (cases r1) auto
  then show ?thesis using helper_outcome [OF assms(1) _ h] assms(2) by (simp add: block_outcome_def)
qed

section \<open>Properties\<close>

text \<open>
  Claim C1. What a successful block does. It was proposed by the given proposer at the height after the last
  one and with the given time, and it carries the commit of the previous block. It becomes the last block; the
  store gains, at its height, the block with its own commit, the state it was run from and the
  application's response, and nothing else; the chain state is the update of the old one: new height, time
  and block identifier, the next validators become the current ones and the current ones the
  last ones, the app hash is the response's. Its events are published in the order of the source. Both locks
  are free again, and clients, signing status and time handler are as before.
\<close>

theorem successful_block:
  assumes "makes_blocks E" and "RunBlockWithTimeAndProposer E t p misb s = (Return (), s')"
  shows "\<exists>v b res bid ups. p = Some v \<and> proposed E t v (client s) b \<and> LastBlock (client s') = b
    \<and> GetBlockIdFromBlock E b = Return bid
    \<and> ms_entries (Storage (client s')) = (ms_entries (Storage (client s)))(hd_Height (blk_Header b) \<mapsto>
        (b, ec_ToCommit E (LastCommit (client s')), CurState (client s), res))
    \<and> st_LastBlockHeight (CurState (client s')) = hd_Height (blk_Header b)
    \<and> st_LastBlockTime (CurState (client s')) = t \<and> st_LastBlockID (CurState (client s')) = bid
    \<and> st_Validators (CurState (client s')) = st_NextValidators (CurState (client s))
    \<and> st_LastValidators (CurState (client s')) = st_Validators (CurState (client s))
    \<and> st_AppHash (CurState (client s')) = rsf_AppHash res
    \<and> published s' = published s @ block_events b bid res ups
    \<and> \<not> blockMutex s' \<and> \<not> stateUpdateMutex (Storage (client s'))
    \<and> Clients (client s') = Clients (client s) \<and> signingStatus (client s') = signingStatus (client s)
    \<and> TimeHandler (client s') = TimeHandler (client s)"
  using assms by (rule RunBlock_success)

theorem successful_block_witness:
  "\<exists>s' b. RunBlockWithTimeAndProposer sample_env 10 (Some (sample_validator ''v1'' 10)) [] sample_sys = (Return (), s')
    \<and> LastBlock (client s') = b \<and> hd_Height (blk_Header b) = 1 \<and> hd_Time (blk_Header b) = 10
    \<and> st_LastBlockHeight (CurState (client s')) = 1
    \<and> dom (ms_entries (Storage (client s'))) = {1} \<and> \<not> blockMutex s'"
proof -
  obtain s' where run: "RunBlockWithTimeAndProposer sample_env 10 (Some (sample_validator ''v1'' 10)) [] sample_sys
      = (Return (), s')"
    using sample_block_runs by blast
  have "st_LastBlockHeight (CurState (client sample_sys)) = 0" "ms_entries (Storage (client sample_sys)) = Map.empty"
    by (simp_all add: sample_sys_def sample_state_def empty_MapStorage_def ms_entries_def fun_eq_iff)
  with successful_block [OF sample_makes_blocks run] run show ?thesis
    by (auto simp: proposed_def in64_def split: if_splits)
qed

text \<open>
  Claim C6. No queued transaction is lost or invented by a successful block, whatever the applications answer. The block asks for the
  fresh transactions with \<open>CheckTx_New\<close> and then for the stale ones with \<open>CheckTx_Recheck\<close>, each once and in order; \<open>oks\<close> and \<open>oks'\<close> are
  the verdicts it gets. Afterwards the fresh queue is empty, and the stale queue holds, in order, exactly those transactions of
  the two queues that are not empty, got a positive verdict and are not in the block.
\<close>

theorem transactions_conserved:
  assumes "RunBlockWithTimeAndProposer E t p misb s = (Return (), s')"
  shows "\<exists>oks oks' u u'. check_answers E CheckTxType_New (FreshTxQueue (client s)) (s\<lparr>blockMutex := True\<rparr>) = (Return oks, u)
    \<and> check_answers E CheckTxType_Recheck (StaleTxQueue (client s)) u = (Return oks', u')
    \<and> length oks = length (FreshTxQueue (client s)) \<and> length oks' = length (StaleTxQueue (client s))
    \<and> FreshTxQueue (client s') = []
    \<and> StaleTxQueue (client s') = filter (\<lambda>tx. tx \<notin> set (blk_Txs (LastBlock (client s'))))
        (passed (FreshTxQueue (client s)) oks @ passed (StaleTxQueue (client s)) oks')"
proof -
  obtain v where h: "runBlock_helper E t p misb (s\<lparr>blockMutex := True\<rparr>) = (Return (), v)"
    and s': "s' = v\<lparr>blockMutex := False\<rparr>"
    using assms by (auto simp: RunBlock_Return_iff)
  show ?thesis
    using h
  proof (rule helper_txs, goal_cases)
    case (1 oks oks' u u')
    then show ?case using check_answers_length [OF 1(1)] check_answers_length [OF 1(2)]
      by (intro exI [of _ oks] exI [of _ oks'] exI [of _ u] exI [of _ u']) (simp add: s')
  qed
qed

lemma sample_check_answers:
  "\<exists>u. check_answers sample_env CheckTxType_New [''a'', ''bad''] (sample_sys\<lparr>blockMutex := True\<rparr>) = (Return [True, False], u)"
  by (simp add: block_defs sample_sys_defs run_eval)

theorem transactions_conserved_witness:
  "\<exists>s'. RunBlockWithTimeAndProposer sample_env 10 (Some (sample_validator ''v1'' 10)) [] sample_sys = (Return (), s')
    \<and> blk_Txs (LastBlock (client s')) = [''a''] \<and> FreshTxQueue (client s') = [] \<and> StaleTxQueue (client s') = []"
proof -
  obtain s' where run: "RunBlockWithTimeAndProposer sample_env 10 (Some (sample_validator ''v1'' 10)) [] sample_sys
      = (Return (), s')" and "blk_Txs (LastBlock (client s')) = [''a'']"
    using sample_block_runs by blast
  moreover have "FreshTxQueue (client sample_sys) = [''a'', ''bad'']" "StaleTxQueue (client sample_sys) = []"
    by (simp_all add: sample_sys_def)
  moreover obtain u where "check_answers sample_env CheckTxType_New [''a'', ''bad''] (sample_sys\<lparr>blockMutex := True\<rparr>)
      = (Return [True, False], u)"
    using sample_check_answers by blast
  ultimately show ?thesis using transactions_conserved [OF run] by (auto simp: passed_def)
qed

text \<open>
  Claim C2. A block is all or nothing, on every outcome. Whether it returns, fails, panics or waits, a client whose
  store was open ends with a store that is still locked, or with chain state, last block and
  stores exactly as they were, or with all of them moved on by one block: an error can separate
  the four stores, the last block and the chain state only behind the lock.
\<close>

theorem block_all_or_nothing:
  assumes "makes_blocks E" and "\<not> stateUpdateMutex (Storage (client s))"
    and "RunBlockWithTimeAndProposer E t p misb s = (r, s')"
  shows "stateUpdateMutex (Storage (client s')) \<or> untouched (client s) (client s') \<or> moved_on E t p (client s) (client s')"
  using assms by (rule RunBlock_outcome)

theorem block_all_or_nothing_witness:
  "\<exists>s'. RunBlockWithTimeAndProposer sample_env 10 None [] sample_sys = (Error (ProposerAppNotFound []), s')
    \<and> untouched (client sample_sys) (client s')"
proof -
  have run: "\<exists>s'. RunBlockWithTimeAndProposer sample_env 10 None [] sample_sys = (Error (ProposerAppNotFound []), s')
      \<and> \<not> stateUpdateMutex (Storage (client s')) \<and> LastBlock (client s') = sample_block 0"
    by (simp add: block_defs sample_sys_defs run_eval)
  then obtain s' where s': "RunBlockWithTimeAndProposer sample_env 10 None [] sample_sys = (Error (ProposerAppNotFound []), s')"
      "\<not> stateUpdateMutex (Storage (client s'))"
    by blast
  have "\<not> stateUpdateMutex (Storage (client sample_sys))" by (simp add: sample_sys_def empty_MapStorage_def)
  from block_all_or_nothing [OF sample_makes_blocks this s'(1)] s' show ?thesis
    by (auto simp: moved_on_def)
qed

text \<open>
  Claim C36. The block mutex. After a block that returned a value or an error it is free. After a block that panicked (or
  waits for the store's lock) it stays taken, and then every later block and every later
  \<open>QueueTx\<close> waits forever.
\<close>

theorem block_mutex_after:
  assumes "\<not> blockMutex s" and "RunBlockWithTimeAndProposer E t p misb s = (r, s')"
  shows "case r of
      Return _ \<Rightarrow> \<not> blockMutex s'
    | Error _ \<Rightarrow> \<not> blockMutex s'
    | _ \<Rightarrow> blockMutex s' \<and> RunBlockWithTimeAndProposer E' t' p' misb' s' = (Blocked, s') \<and> QueueTx tx s' = (Blocked, s')"
proof -
  obtain r1 u where h: "runBlock_helper E t p misb (s\<lparr>blockMutex := True\<rparr>) = (r1, u)" by fastforce
  have w: "RunBlockWithTimeAndProposer E' t' p' misb' u = (Blocked, u)" "QueueTx tx u = (Blocked, u)" if "blockMutex u"
    using that by (simp_all add: RunBlock_mutex_held QueueTx_def run_seqP run_blockMutex)
  show ?thesis
    using run_RunBlockWithTimeAndProposer [OF assms(1) h] assms(2) w by (cases r1) auto
qed

text \<open>An application that proposes more than a block may hold: PrepareProposal's transactions are not valid.\<close>

lemma sample_oversized_panics:
  "\<exists>s'. RunBlockWithTimeAndProposer (sample_env\<lparr>txs_Validate := (\<lambda>txs n. Some ''too large'')\<rparr>) 10
      (Some (sample_validator ''v1'' 10)) [] sample_sys = (Panic NilDereference, s')"
  by (simp add: block_defs sample_sys_defs run_eval)

theorem block_mutex_after_witness:
  "\<exists>s'. RunBlockWithTimeAndProposer (sample_env\<lparr>txs_Validate := (\<lambda>txs n. Some ''too large'')\<rparr>) 10
      (Some (sample_validator ''v1'' 10)) [] sample_sys = (Panic NilDereference, s')
    \<and> blockMutex s' \<and> RunBlockWithTimeAndProposer sample_env 20 None [] s' = (Blocked, s')
    \<and> QueueTx ''x'' s' = (Blocked, s')"
proof -
  obtain s' where run: "RunBlockWithTimeAndProposer (sample_env\<lparr>txs_Validate := (\<lambda>txs n. Some ''too large'')\<rparr>) 10
      (Some (sample_validator ''v1'' 10)) [] sample_sys = (Panic NilDereference, s')"
    using sample_oversized_panics by blast
  have "\<not> blockMutex sample_sys" by (simp add: sample_sys_def)
  from block_mutex_after [OF this run, of sample_env 20 None "[]" "''x''"] run show ?thesis by auto
qed

text \<open>
  An error of \<open>decideProposal\<close> never reaches the caller as an error: the block it did not return is dereferenced
  first, so the goroutine panics, in the state \<open>decideProposal\<close> left and before the queues are cleared.
\<close>

lemma decideProposal_error_panics:
  assumes "decideProposal E app v (i64 (st_LastBlockHeight (CurState (client s)) + 1)) 0 txs evs s = (Error e, s')"
  shows "propose_block E app (Some v) t txs evs s = (Panic NilDereference, s') \<and> client s' = client s"
proof -
  have "client s' = client s" by (rule keeps_client [OF keeps_decideProposal assms]) simp
  then show ?thesis using assms by (simp add: propose_block_def run_bindP run_attempt panic_def)
qed

end
