(* ===== verification/Block_Faults.thy ===== *)
theory Block_Faults
  imports Block_Properties
begin

text \<open>
  Who signs a block, and two ways in which the code as it is written stops a chain: a validator set
  that changes its size, and an application whose validator updates are refused after the stores were
  locked.
\<close>

section \<open>Lemmas\<close>

lemma add_votes_Return:
  "add_votes E vos votes = Return vos' \<Longrightarrow> vos_Validators vos' = vos_Validators vos"
  by (induction E vos votes rule: add_votes.induct) (auto split: prod.splits option.splits if_splits)

text \<open>
  Documented behaviour of the library: an extended commit has one signature per validator of its vote
  set, and turning it into a commit keeps them.
\<close>

definition commits_complete :: "'w env \<Rightarrow> bool" where
  "commits_complete E \<longleftrightarrow>
     (\<forall>vos ap ec. MakeExtendedCommit E vos ap = Inr ec \<longrightarrow>
        length (ec_ExtendedSignatures ec) = length (vs_Validators (vos_Validators vos)))
     \<and> (\<forall>ec. length (cm_Signatures (ec_ToCommit E ec)) = length (ec_ExtendedSignatures ec))"

lemma sample_commits_complete: "commits_complete sample_env"
  by (auto simp: commits_complete_def sample_defs Let_def split: list.splits if_splits)

lemma block_needs_sizes:
  assumes "makes_blocks E" "commit_sizes E" "commits_complete E"
    and "RunBlockWithTimeAndProposer E t p misb s = (Return (), s')"
    and "i64 (st_LastBlockHeight (CurState (client s)) + 1) \<noteq> st_InitialHeight (CurState (client s))"
  shows "length (ec_ExtendedSignatures (LastCommit (client s))) = length (vs_Validators (st_Validators (CurState (client s))))"
proof -
  obtain u where h: "runBlock_helper E t p misb (s\<lparr>blockMutex := True\<rparr>) = (Return (), u)"
    using assms(4) by (auto simp: RunBlock_Return_iff)
  show ?thesis
    using assms(1) h
  proof (rule helper_success, goal_cases)
    case (1 v b votes vos ec lci res bid ups st s9)
    let ?n = "length (cm_Signatures (ec_ToCommit E (LastCommit (client s))))"
    have "blk_LastCommit b = Some (ec_ToCommit E (LastCommit (client s)))"
      "hd_Height (blk_Header b) \<noteq> st_InitialHeight (CurState (client s))"
      using 1(2) assms(5) by (simp_all add: proposed_def)
    then have "int ?n = int (length (vs_Validators (st_Validators (CurState (client s)))))"
      using 1(5) assms(2) by (simp add: BuildLastCommitInfo_def commit_sizes_def Let_def split: if_splits)
    then show ?case using assms(3) by (simp add: commits_complete_def)
  qed
qed

section \<open>A chain that is halted\<close>

text \<open>Documented behaviour of the library: a vote set makes a commit of its own height.\<close>

definition commits_of_height :: "'w env \<Rightarrow> bool" where
  "commits_of_height E \<longleftrightarrow> (\<forall>vos ap ec. MakeExtendedCommit E vos ap = Inr ec \<longrightarrow> ec_Height ec = vos_Height vos)"

lemma sample_commits_of_height: "commits_of_height sample_env"
  by (auto simp: commits_of_height_def sample_defs Let_def split: list.splits if_splits)

lemma add_votes_Height: "add_votes E vos votes = Return vos' \<Longrightarrow> vos_Height vos' = vos_Height vos"
  by (induction E vos votes rule: add_votes.induct) (auto split: prod.splits option.splits if_splits)

lemma make_commit_height:
  assumes "commits_of_height E" "make_commit E b votes s = (r, t)"
  shows "client t = client s \<or> (\<exists>ec. client t = (client s)\<lparr>LastCommit := ec\<rparr> \<and> ec_Height ec = hd_Height (blk_Header b))"
proof (cases "add_votes E (new_vote_set E (CurState (client s)) (hd_Height (blk_Header b))) votes")
  case (Return vos)
  show ?thesis
  proof (cases "MakeExtendedCommit E vos (cp_ABCI (st_ConsensusParams (CurState (client s))))")
    case (Inr ec)
    have "client t = (client s)\<lparr>LastCommit := ec\<rparr>"
      using assms(2) Return Inr
      by (auto simp: make_commit_def or_panic_def run_bindP run_seqP lift_outcome_def throw_def ret_def split: option.splits)
    moreover have "ec_Height ec = hd_Height (blk_Header b)"
      using assms(1) Inr add_votes_Height [OF Return] by (simp add: commits_of_height_def new_vote_set_def)
    ultimately show ?thesis by blast
  qed (use assms(2) Return in \<open>auto simp: make_commit_def or_panic_def run_bindP lift_outcome_def panic_def\<close>)
qed (use assms(2) in \<open>auto simp: make_commit_def run_bindP lift_outcome_def\<close>)

text \<open>
  The last and the current validators differ in number, after the initial height. Then no last commit fits both: the proposal
  pairs it with the last validators, and the block with the current ones.
\<close>

definition mis_sized :: "comet_state \<Rightarrow> bool" where
  "mis_sized st \<longleftrightarrow> length (vs_Validators (st_LastValidators st)) \<noteq> length (vs_Validators (st_Validators st))
     \<and> st_InitialHeight st < i64 (st_LastBlockHeight st + 1)"

definition halted :: "abci_client \<Rightarrow> abci_client \<Rightarrow> bool" where
  "halted a a' \<longleftrightarrow> CurState a' = CurState a \<and> LastBlock a' = LastBlock a
     \<and> ms_entries (Storage a') = ms_entries (Storage a) \<and> st_InitialHeight (CurState a) \<le> ec_Height (LastCommit a')"

lemma propose_block_fits_last:
  assumes "makes_blocks E" "commit_sizes E" "propose_block E app p t txs evs s = (Return b, s')"
    and "st_InitialHeight (CurState (client s)) \<le> ec_Height (LastCommit (client s))"
  shows "length (ec_ExtendedSignatures (LastCommit (client s))) = length (vs_Validators (st_LastValidators (CurState (client s))))
    \<and> blk_LastCommit b = Some (ec_ToCommit E (LastCommit (client s)))
    \<and> hd_Height (blk_Header b) = i64 (st_LastBlockHeight (CurState (client s)) + 1)"
  using assms(3)
proof (rule propose_block_Return, goal_cases)
  case (1 v prp b0 u)
  let ?st = "CurState (client s)"
  have "\<exists>info. BuildExtendedCommitInfo E (LastCommit (client s)) (st_LastValidators ?st) (st_InitialHeight ?st)
      (cp_ABCI (st_ConsensusParams ?st)) = Return info"
    using 1(2) unfolding decideProposal_def CreateProposalBlock_def Let_def by (auto elim!: bindP_ReturnE split: sum.splits)
  then have "length (ec_ExtendedSignatures (LastCommit (client s))) = length (vs_Validators (st_LastValidators ?st))"
    using assms(2,4) by (auto simp: BuildExtendedCommitInfo_def commit_sizes_def Let_def split: if_splits)
  then show ?thesis using decideProposal_block [OF assms(1) 1(2)] 1(3) by simp
qed

lemma BuildLastCommitInfo_misfit:
  assumes "commit_sizes E" "commits_complete E" "blk_LastCommit b = Some (ec_ToCommit E ec)"
    and "length (ec_ExtendedSignatures ec) \<noteq> length (vs_Validators vs)" "hd_Height (blk_Header b) \<noteq> ih"
  shows "\<exists>x. BuildLastCommitInfo E b vs ih = Panic x"
  using assms by (simp add: BuildLastCommitInfo_def commit_sizes_def commits_complete_def Let_def)

lemma helper_halted:
  fixes E :: "'w env"
  assumes E: "makes_blocks E" "commit_sizes E" "commits_complete E" "commits_of_height E"
    and m: "mis_sized (CurState a)" and h: "halted a (client s)" and run: "runBlock_helper E t p misb s = (r, s')"
  shows "halted a (client s') \<and> r \<noteq> Return ()"
proof -
  let ?st = "CurState a"
  let ?H = "i64 (st_LastBlockHeight ?st + 1)"
  have st: "CurState (client s) = ?st" using h by (simp add: halted_def)
  let ?F = "\<lambda>u :: 'w sys. frame u = frame s" and ?X = "\<lambda>u :: 'w sys. halted a (client u)"
  let ?B = "\<lambda>b. hd_Height (blk_Header b) = ?H \<and> (\<exists>ec. blk_LastCommit b = Some (ec_ToCommit E ec)
      \<and> length (ec_ExtendedSignatures ec) = length (vs_Validators (st_LastValidators ?st)))"
  have FX: "?X u" if "?F u" for u using h frameD [OF that] by (simp add: halted_def)
  have prp: "triple ?F (propose_block E app p t txs evs) (\<lambda>b u. ?F u \<and> ?B b) ?X" for app txs evs
  proof (rule tripleI)
    fix u b v assume f: "?F u" and run: "propose_block E app p t txs evs u = (Return b, v)"
    have "st_InitialHeight (CurState (client u)) \<le> ec_Height (LastCommit (client u))" using FX [OF f] by (simp add: halted_def)
    from propose_block_fits_last [OF E(1,2) run this] show "?F v \<and> ?B b"
      using phase_frames(5) [OF run] f frameD(2) [OF f] st by auto
  qed (use phase_frames(5) FX in metis)
  have mc: "triple (\<lambda>u. ?F u \<and> ?B b) (make_commit E b votes) (\<lambda>_ u. ?X u \<and> ?B b) ?X" for b votes
  proof -
    have "?X v" if "?F u \<and> ?B b" "make_commit E b votes u = (q, v)" for u v q
      using make_commit_height [OF E(4) that(2)] FX [of u] that(1) m by (auto simp: halted_def mis_sized_def)
    then show ?thesis by (intro tripleI) blast+
  qed
  have fin: "triple (\<lambda>u. ?X u \<and> ?B b) (finalize_and_commit E (i64 (st_LastBlockHeight (CurState (client s)) + 1)) b) (\<lambda>_ _. False) ?X" for b
  proof -
    have "(\<exists>x. q = Panic x) \<and> v = u" if x: "?X u" "?B b" "finalize_and_commit E h b u = (q, v)" for u q v h
    proof -
      obtain ec where ec: "blk_LastCommit b = Some (ec_ToCommit E ec)" "length (ec_ExtendedSignatures ec) = length (vs_Validators (st_LastValidators ?st))"
        using x(2) by blast
      have "\<exists>x. BuildLastCommitInfo E b (st_Validators ?st) (st_InitialHeight ?st) = Panic x"
        by (rule BuildLastCommitInfo_misfit [OF E(2,3) ec(1)]) (use ec(2) m x(2) in \<open>auto simp: mis_sized_def\<close>)
      then show ?thesis using x(1,3) by (auto simp: finalize_and_commit_def run_bindP halted_def lift_outcome_def)
    qed
    then show ?thesis by (intro tripleI) blast+
  qed
  have "case r of Return _ \<Rightarrow> False | _ \<Rightarrow> ?X s'"
    by (rule helper_triple [where F = ?F and G = "\<lambda>b u. ?F u \<and> ?B b" and M = "\<lambda>b u. ?X u \<and> ?B b" and X = ?X,
        OF _ _ _ _ prp mc fin refl run])
      (use FX in \<open>auto simp: env_blind_def, simp_all add: frame_def\<close>)
  then show ?thesis by (cases r) auto
qed

lemma RunBlock_halted:
  assumes E: "makes_blocks E" "commit_sizes E" "commits_complete E" "commits_of_height E"
    and m: "mis_sized (CurState a)" and h: "halted a (client s)" and run: "RunBlockWithTimeAndProposer E t p misb s = (r, s')"
  shows "halted a (client s') \<and> r \<noteq> Return ()"
proof (cases "blockMutex s")
  case True
  then show ?thesis using h run by (auto simp: RunBlock_mutex_held)
next
  case False
  obtain r1 u where u: "runBlock_helper E t p misb (s\<lparr>blockMutex := True\<rparr>) = (r1, u)" by fastforce
  have "client s' = client u"
    using run_RunBlockWithTimeAndProposer(1) [OF False u] run by (cases r1) auto
  then show ?thesis using helper_halted [OF E m _ u] h run u by (auto simp: RunBlock_Return_iff)
qed

text \<open>After a block that made the number of validators change, the chain is halted.\<close>

lemma size_change_halts:
  assumes E: "makes_blocks E" "commits_of_height E" and run: "RunBlockWithTimeAndProposer E t p misb s = (Return (), s')"
    and n: "length (vs_Validators (st_NextValidators (CurState (client s))))
      \<noteq> length (vs_Validators (st_Validators (CurState (client s))))"
    and h: "0 \<le> st_LastBlockHeight (CurState (client s))" "st_LastBlockHeight (CurState (client s)) + 2 < 2 ^ 63"
      "st_InitialHeight (CurState (client s)) \<le> st_LastBlockHeight (CurState (client s)) + 1"
  shows "mis_sized (CurState (client s'))" "halted (client s') (client s')"
proof -
  obtain u where r: "runBlock_helper E t p misb (s\<lparr>blockMutex := True\<rparr>) = (Return (), u)"
    and s': "s' = u\<lparr>blockMutex := False\<rparr>"
    using run by (auto simp: RunBlock_Return_iff)
  let ?h = "st_LastBlockHeight (CurState (client s))"
  have i: "i64 (?h + 1) = ?h + 1" "i64 (?h + 2) = ?h + 2" using h by (simp_all add: in64_def)
  have "mis_sized (CurState (client s')) \<and> halted (client s') (client s')"
    using E(1) r
  proof (rule helper_success, goal_cases)
    case (1 v b votes vos ec lci res bid ups st s9)
    have "ec_Height ec = hd_Height (blk_Header b)"
      using 1(4) E(2) add_votes_Height [OF 1(3)] by (simp add: commits_of_height_def new_vote_set_def)
    then show ?case
      using 1(2,12) UpdateState_Return [OF 1(9)] n h i
      by (simp add: s' core_def finalized_def proposed_def mis_sized_def halted_def add.assoc)
  qed
  then show "mis_sized (CurState (client s'))" "halted (client s') (client s')" by simp_all
qed

section \<open>Properties\<close>

text \<open>
  Claim C14. Who signs. The votes of a block are one per current validator, in the validators' order: none for a
  validator whose signing status is off, and for one whose status is on its precommit for this block, with
  its address and index, the block's height, time, hash and part set header, and the round of the block's last
  commit. A validator without a status stops the block. Signing changes nothing of the program's state.
\<close>

theorem votes_follow_signing_status:
  assumes "sign_votes E b s = (Return votes, t)"
    and "vals = vs_Validators (st_Validators (CurState (client s)))"
  shows "length votes = length vals \<and> core t = core s \<and>
    (\<forall>i < length vals. case signingStatus (client s) (addr_String E (val_Address (vals ! i))) of
        None \<Rightarrow> False | Some False \<Rightarrow> votes ! i = None
      | Some True \<Rightarrow> (\<exists>vote. votes ! i = Some vote \<and> votes_for E b i (vals ! i) vote))"
proof (intro conjI allI impI)
  have c: "collect (sign_vote E b) (enumerate 0 vals) s = (Return votes, t)"
    using assms by (auto simp: sign_votes_def current_validators_def bindP_Return_iff)
  show "length votes = length vals" using collect_length [OF c] by simp
  show "core t = core s" by (rule phase_cores(4) [OF assms(1)])
  fix i assume i: "i < length vals"
  have k: "keeps (\<lambda>u. client u = client s) (sign_vote E b iv)" for iv by (intro keeps_intros) simp
  obtain u v where "client u = client s" "sign_vote E b (enumerate 0 vals ! i) u = (Return (votes ! i), v)"
    using collect_nth [OF k _ c, of i] i by auto
  then show "case signingStatus (client s) (addr_String E (val_Address (vals ! i))) of
        None \<Rightarrow> False | Some False \<Rightarrow> votes ! i = None
      | Some True \<Rightarrow> (\<exists>vote. votes ! i = Some vote \<and> votes_for E b i (vals ! i) vote)"
    using sign_vote_Return [of E b i "vals ! i" u] i by (simp add: nth_enumerate_eq)
qed

lemma sample_sign_votes:
  "\<exists>votes t. sign_votes sample_env (sample_block 1)
      (sample_sys\<lparr>client := (client sample_sys)\<lparr>signingStatus := [''v1'' \<mapsto> False, ''v2'' \<mapsto> True]\<rparr>\<rparr>) = (Return votes, t)"
  by (simp add: block_defs sample_sys_defs run_eval)

theorem votes_follow_signing_status_witness:
  "\<exists>votes t vote. sign_votes sample_env (sample_block 1)
      (sample_sys\<lparr>client := (client sample_sys)\<lparr>signingStatus := [''v1'' \<mapsto> False, ''v2'' \<mapsto> True]\<rparr>\<rparr>) = (Return votes, t)
    \<and> votes ! 0 = None \<and> votes ! 1 = Some vote \<and> vt_ValidatorAddress vote = ''v2''"
proof -
  let ?s = "sample_sys\<lparr>client := (client sample_sys)\<lparr>signingStatus := [''v1'' \<mapsto> False, ''v2'' \<mapsto> True]\<rparr>\<rparr>"
  obtain votes t where run: "sign_votes sample_env (sample_block 1) ?s = (Return votes, t)"
    using sample_sign_votes by blast
  have v: "vs_Validators (st_Validators (CurState (client ?s))) = sample_vals" "addr_String sample_env a = a" for a
    by (simp_all add: sample_sys_def sample_state_def sample_valset_def sample_env_def)
  have n: "0 < length sample_vals" "1 < length sample_vals" "val_Address (sample_vals ! 0) = ''v1''"
      "val_Address (sample_vals ! 1) = ''v2''"
    by (simp_all add: sample_vals_def sample_validator_def)
  have all: "\<forall>i < length sample_vals. case signingStatus (client ?s) (addr_String sample_env (val_Address (sample_vals ! i))) of
        None \<Rightarrow> False | Some False \<Rightarrow> votes ! i = None
      | Some True \<Rightarrow> (\<exists>vote. votes ! i = Some vote \<and> votes_for sample_env (sample_block 1) i (sample_vals ! i) vote)"
    using votes_follow_signing_status [OF run refl] unfolding v(1) by blast
  from all [rule_format, OF n(1)] all [rule_format, OF n(2)] run n(3,4) show ?thesis
    by (auto simp: v(2) votes_for_def)
qed

text \<open>The same system with a third validator pending.\<close>

definition sample_growing :: "int sys" where
  "sample_growing = sample_sys\<lparr>client := (client sample_sys)\<lparr>CurState := (CurState (client sample_sys))
     \<lparr>st_NextValidators := sample_valset (sample_vals @ [sample_validator ''v3'' 5])\<rparr>\<rparr>\<rparr>"

lemma sample_growing_runs:
  "\<exists>t. RunBlockWithTimeAndProposer sample_env 10 (Some (sample_validator ''v1'' 10)) [] sample_growing = (Return (), t)"
  by (simp add: sample_growing_def block_defs sample_sys_defs run_eval)

text \<open>
  Claim C33. A refused validator update locks the store for good. When the application answers FinalizeBlock with updates
  that \<open>validateValidatorUpdates\<close> refuses, the block fails with that error, but the block is
  already in the stores and is the last block, the chain state has not moved, and the store's lock stays
  taken: every later read of the store waits, and no later block can succeed.
\<close>

theorem refused_updates_lock_store:
  assumes "\<not> stateUpdateMutex (Storage (client s))" and "GetBlockIdFromBlock E b = Return bid"
    and "validateValidatorUpdates E (rsf_ValidatorUpdates res)
      (cp_ValidatorPubKeyTypes (st_ConsensusParams (CurState (client s)))) = Error e"
    and "store_and_commit E h b res s = (r, s')"
  shows "r = Error (UpdatingStateForResultError (ValidatorUpdatesError e))
    \<and> LastBlock (client s') = b \<and> CurState (client s') = CurState (client s)
    \<and> ms_entries (Storage (client s')) h = Some (b, ec_ToCommit E (LastCommit (client s)), CurState (client s), res)
    \<and> fst (in_storage (GetBlock h') s') = Blocked \<and> fst (in_storage (GetState h') s') = Blocked
    \<and> store_and_commit E' h'' b' res' s' \<noteq> (Return (), s'')"
proof -
  define s2 where "s2 = s\<lparr>client := (client s)\<lparr>LastBlock := b, Storage :=
    stored h b (ec_ToCommit E (LastCommit (client s))) (CurState (client s)) res
      ((Storage (client s))\<lparr>stateUpdateMutex := True\<rparr>)\<rparr>\<rparr>"
  have "r = Error (UpdatingStateForResultError (ValidatorUpdatesError e))" and s': "s' = s2"
    using assms(4,1,2,3)
    by (simp_all add: store_and_commit_def UpdateStateFromBlock_def run_seqP run_bindP run_in_storage run_locks
        run_wrap_error run_UpdateStores s2_def stored_def lift_outcome_def)
  moreover have l: "stateUpdateMutex (Storage (client s2))" by (simp add: s2_def)
  moreover have "store_and_commit E' h'' b' res' s2 \<noteq> (Return (), s'')"
    using l by (auto elim: store_and_commit_Return)
  ultimately show ?thesis by (simp add: run_in_storage reads_blocked) (simp add: s2_def)
qed

theorem refused_updates_lock_store_witness:
  "\<exists>s'. store_and_commit sample_env 1 (sample_block 1)
      \<lparr>rsf_Events = [], rsf_TxResults = [], rsf_ValidatorUpdates = [\<lparr>vu_PubKey = ''v1'', vu_Power = - 1\<rparr>],
       rsf_ConsensusParamUpdates = None, rsf_AppHash = []\<rparr> sample_sys
      = (Error (UpdatingStateForResultError (ValidatorUpdatesError (NegativePower (- 1)))), s')
    \<and> fst (in_storage (GetBlock 1) s') = Blocked"
proof -
  let ?res = "\<lparr>rsf_Events = [], rsf_TxResults = [], rsf_ValidatorUpdates = [\<lparr>vu_PubKey = ''v1'', vu_Power = - 1\<rparr>],
       rsf_ConsensusParamUpdates = None, rsf_AppHash = []\<rparr>"
  obtain r s' where run: "store_and_commit sample_env 1 (sample_block 1) ?res sample_sys = (r, s')" by fastforce
  have "\<not> stateUpdateMutex (Storage (client sample_sys))" "\<exists>bid. GetBlockIdFromBlock sample_env (sample_block 1) = Return bid"
    "validateValidatorUpdates sample_env (rsf_ValidatorUpdates ?res)
      (cp_ValidatorPubKeyTypes (st_ConsensusParams (CurState (client sample_sys)))) = Error (NegativePower (- 1))"
    by (simp_all add: sample_sys_def empty_MapStorage_def GetBlockIdFromBlock_def sample_env_def)
  with refused_updates_lock_store [OF _ _ _ run] run show ?thesis by blast
qed

end
