(* ===== verification/Chain.thy ===== *)
theory Chain
  imports Block_Faults
begin

text \<open>
  The chain as a whole: what an operation can do to it whatever its outcome, what it means that the stored chain is linked, and that
  a block keeps it so; and the times of blocks with a fixed block time.
\<close>

definition forget :: "('s, 'a, 'e, 'p) prog \<Rightarrow> ('s, unit, 'e, 'p) prog" where
  "forget m = seqP m (ret ())"

section \<open>What every operation keeps\<close>

lemma keeps_forget [keeps_intros]: "keeps P m \<Longrightarrow> keeps P (forget m)"
  by (auto simp: forget_def intro: keeps_intros)

lemma keeps_GetBlockTime [keeps_intros]:
  assumes "env_blind P" "\<And>s th. P s \<Longrightarrow> P (s\<lparr>client := (client s)\<lparr>TimeHandler := th\<rparr>\<rparr>)"
  shows "keeps P (GetBlockTime E t)" "keeps P (AdvanceTime E d)"
  unfolding GetBlockTime_def AdvanceTime_def
  using assms by (auto intro!: keeps_intros split: time_handler.split)

lemma keeps_SetSigningStatus [keeps_intros]:
  "(\<And>s m. P s \<Longrightarrow> P (s\<lparr>client := (client s)\<lparr>signingStatus := m\<rparr>\<rparr>)) \<Longrightarrow> keeps P (SetSigningStatus a b)"
  by (auto simp: SetSigningStatus_def intro!: keeps_intros)

lemma keeps_QueueTx [keeps_intros]:
  assumes "\<And>s q. P s \<Longrightarrow> P (s\<lparr>client := (client s)\<lparr>FreshTxQueue := q\<rparr>\<rparr>)"
    and "\<And>s l. P s \<Longrightarrow> P (s\<lparr>blockMutex := l\<rparr>)"
  shows "keeps P (QueueTx tx)"
  using assms unfolding QueueTx_def blockMutex_Lock_def blockMutex_Unlock_def
  by (auto intro!: keeps_intros simp: keeps_modify)

lemma keeps_GetBlock [keeps_intros]: "read_blind P \<Longrightarrow> keeps P (in_storage (GetBlock h))"
  by (intro keeps_in_storage) (simp add: read_blind_def same_reads_def reads_frame)

text \<open>A block with its lookups in front: the two operations every way of running a block is made of.\<close>

lemma keeps_RunBlocks:
  assumes t: "env_blind P" "\<And>s th. P s \<Longrightarrow> P (s\<lparr>client := (client s)\<lparr>TimeHandler := th\<rparr>\<rparr>)"
    and b: "\<And>t p misb. keeps P (RunBlockWithTimeAndProposer E t p misb)"
  shows "keeps P (RunBlock E)" "keeps P (RunBlockWithTime E u)" "keeps P (CauseDoubleSign E a)"
    "keeps P (CauseLightClientAttack E a m)"
  unfolding RunBlock_def RunBlockWithTime_def CauseDoubleSign_def CauseLightClientAttack_def
    RunBlockWithEvidence_def last_proposer_def
  by (auto intro!: keeps_intros t b simp: Let_def)

section \<open>The lock of the store\<close>

lemma store_and_commit_locked:
  "stateUpdateMutex (Storage (client s)) \<Longrightarrow> store_and_commit E h b res s = (Blocked, s)"
  by (simp add: store_and_commit_def run_seqP run_in_storage run_locks)

lemma keeps_locked: "keeps (\<lambda>s. stateUpdateMutex (Storage (client s))) (RunBlockWithTimeAndProposer E t p misb)"
proof -
  let ?P = "\<lambda>s. stateUpdateMutex (Storage (client s))"
  have q: "queue_blind ?P" by (auto simp: queue_blind_def read_blind_def env_blind_def same_reads_def)
  note e = queue_blindD [OF q]
  have "keeps ?P (store_and_commit E h b res)" for h b res
    by (rule keepsI) (simp add: store_and_commit_locked)
  then have "keeps ?P (finalize_and_commit E h b)" for h b
    using e by (auto simp: finalize_and_commit_def intro!: keeps_intros)
  then have "keeps ?P (runBlock_helper E t p misb)"
    using q e by (auto simp: runBlock_helper_def Let_def intro!: keeps_intros)
  then show ?thesis
    by (auto simp: RunBlockWithTimeAndProposer_def blockMutex_Lock_def blockMutex_Unlock_def keeps_modify
        intro!: keeps_intros split: sum.split)
qed

section \<open>One operation\<close>

lemma GetBlockTime_run:
  obtains tm th u where "GetBlockTime E x s = (Return tm, u)" "client u = (client s)\<lparr>TimeHandler := th\<rparr>"
    "blockMutex u = blockMutex s"
  unfolding GetBlockTime_def read_clock_def
  by (cases "TimeHandler (client s)") (auto simp: run_bindP run_seqP ret_def split_def)

lemma moved_on_TimeHandler [simp]:
  "moved_on E t p (a\<lparr>TimeHandler := th\<rparr>) a' = moved_on E t p a a'"
  "untouched (a\<lparr>TimeHandler := th\<rparr>) a' = untouched a a'"
  by (simp_all add: moved_on_def proposed_def untouched_def)

text \<open>What an operation can do to the chain, whatever its outcome.\<close>

definition op_outcome :: "'w env \<Rightarrow> abci_client \<Rightarrow> abci_client \<Rightarrow> bool" where
  "op_outcome E a a' \<longleftrightarrow> stateUpdateMutex (Storage a') \<or> untouched a a' \<or> (\<exists>t p. moved_on E t p a a')"

lemma untouched_refl: "\<not> stateUpdateMutex (Storage a) \<Longrightarrow> untouched a a"
  by (simp add: untouched_def)

lemma same_reads_fields:
  assumes "same_reads m n"
  shows "stateUpdateMutex n = stateUpdateMutex m" "ms_entries n = ms_entries m" "ms_wf n = ms_wf m"
  using same_reads_allocated [OF assms] allocated_fields(1-3) [of n] allocated_fields(1-3) [of m] by simp_all

lemma read_blind_untouched: "read_blind (\<lambda>s. untouched a (client s))"
  by (simp add: read_blind_def env_blind_def untouched_def same_reads_fields)

lemma RunBlock_op_outcome:
  assumes "makes_blocks E" "\<not> stateUpdateMutex (Storage (client s))"
  shows "op_outcome E (client s) (client (snd (RunBlockWithTimeAndProposer E t p misb s)))"
  using RunBlock_outcome [OF assms, of t p misb] by (metis op_outcome_def prod.collapse)

lemma RunBlock_moved:
  assumes E: "makes_blocks E" and run: "RunBlockWithTimeAndProposer E t p misb s = (Return (), s')"
  shows "moved_on E t p (client s) (client s')"
proof -
  obtain u where h: "runBlock_helper E t p misb (s\<lparr>blockMutex := True\<rparr>) = (Return (), u)"
    and s': "s' = u\<lparr>blockMutex := False\<rparr>"
    using run by (auto simp: RunBlock_Return_iff)
  show ?thesis
    using E h
  proof (rule helper_success, goal_cases)
    case (1 v b votes vos ec lci res bid ups st s9)
    show ?case
      unfolding moved_on_def
      by (rule exI [of _ v], rule exI [of _ b], rule exI [of _ res], rule exI [of _ bid], rule exI [of _ ups],
          rule exI [of _ st], rule exI [of _ "rsf_AppHash res"])
        (use 1 frameD [OF 1(10)] in \<open>simp add: s' core_def finalized_def\<close>)
  qed
qed

section \<open>A linked chain\<close>

text \<open>The state a height was run from: stored with its block, or the current one for the next height.\<close>

definition state_at :: "abci_client \<Rightarrow> int \<Rightarrow> comet_state" where
  "state_at a h = (case ms_entries (Storage a) h of Some (b, c, st, r) \<Rightarrow> st | None \<Rightarrow> CurState a)"

text \<open>\<open>st'\<close> is the update of \<open>st\<close> by the block \<open>b\<close> and its response, up to the app hash.\<close>

definition applied :: "'w env \<Rightarrow> comet_state \<Rightarrow> block \<Rightarrow> response_finalize_block \<Rightarrow> comet_state \<Rightarrow> bool" where
  "applied E st b r st' \<longleftrightarrow> (\<exists>bid ups st1 ah. GetBlockIdFromBlock E b = Return bid
     \<and> PB2TM_ValidatorUpdates E (rsf_ValidatorUpdates r) = Inr ups
     \<and> UpdateState E st bid (blk_Header b) r ups = Return st1 \<and> st' = st1\<lparr>st_AppHash := ah\<rparr>)"

definition linked :: "'w env \<Rightarrow> int \<Rightarrow> abci_client \<Rightarrow> bool" where
  "linked E h0 a \<longleftrightarrow> ms_wf (Storage a) \<and> h0 \<le> st_LastBlockHeight (CurState a)
     \<and> dom (ms_entries (Storage a)) = {h0<..st_LastBlockHeight (CurState a)}
     \<and> (\<forall>h \<in> {h0<..st_LastBlockHeight (CurState a)}. \<exists>b c r.
          ms_entries (Storage a) h = Some (b, c, state_at a h, r) \<and> hd_Height (blk_Header b) = h
          \<and> st_LastBlockHeight (state_at a h) = h - 1 \<and> applied E (state_at a h) b r (state_at a (h + 1))
          \<and> (h = st_LastBlockHeight (CurState a) \<longrightarrow> LastBlock a = b))"

lemma linked_untouched:
  assumes "linked E h0 a" "untouched a a'"
  shows "linked E h0 a'"
proof -
  have f: "CurState a' = CurState a" "LastBlock a' = LastBlock a" "ms_entries (Storage a') = ms_entries (Storage a)"
    "ms_wf (Storage a') = ms_wf (Storage a)" using assms(2) by (simp_all add: untouched_def)
  have e: "state_at a' = state_at a" by (rule ext) (simp only: state_at_def f)
  show ?thesis using assms(1) unfolding linked_def f e .
qed

lemma moved_onE:
  assumes "moved_on E t p a a'" "- (2 ^ 63) \<le> st_LastBlockHeight (CurState a) + 1" "st_LastBlockHeight (CurState a) < 2 ^ 63 - 1"
  obtains b r where "hd_Height (blk_Header b) = st_LastBlockHeight (CurState a) + 1" "LastBlock a' = b"
    "st_LastBlockHeight (CurState a') = st_LastBlockHeight (CurState a) + 1" "applied E (CurState a) b r (CurState a')"
    "ms_entries (Storage a') = (ms_entries (Storage a))(st_LastBlockHeight (CurState a) + 1 \<mapsto>
       (b, ec_ToCommit E (LastCommit a'), CurState a, r))"
    "ms_wf (Storage a) \<longrightarrow> ms_wf (Storage a')" "blk_LastCommit b = Some (ec_ToCommit E (LastCommit a))"
    "\<not> stateUpdateMutex (Storage a')"
proof -
  have i: "i64 (st_LastBlockHeight (CurState a) + 1) = st_LastBlockHeight (CurState a) + 1"
    using assms(2,3) by (simp add: in64_def)
  obtain v b res bid ups st ah where m: "proposed E t v a b" "LastBlock a' = b" "GetBlockIdFromBlock E b = Return bid"
      "PB2TM_ValidatorUpdates E (rsf_ValidatorUpdates res) = Inr ups"
      "UpdateState E (CurState a) bid (blk_Header b) res ups = Return st" "CurState a' = st\<lparr>st_AppHash := ah\<rparr>"
      "ms_entries (Storage a') = (ms_entries (Storage a))
         (hd_Height (blk_Header b) \<mapsto> (b, ec_ToCommit E (LastCommit a'), CurState a, res))"
      "ms_wf (Storage a) \<longrightarrow> ms_wf (Storage a')" "\<not> stateUpdateMutex (Storage a')"
    using assms(1) unfolding moved_on_def by blast
  have "applied E (CurState a) b res (CurState a')" unfolding applied_def using m(3-6) by blast
  then show thesis
    using that [of b res] m(1,2,6-9) UpdateState_Return(3) [OF m(5)] by (simp add: proposed_def i)
qed

lemma linked_moved:
  assumes "linked E h0 a" "moved_on E t p a a'" "0 \<le> h0" "st_LastBlockHeight (CurState a) < 2 ^ 63 - 1"
  shows "linked E h0 a'"
proof -
  let ?H = "st_LastBlockHeight (CurState a)"
  have l: "ms_wf (Storage a)" "h0 \<le> ?H" "dom (ms_entries (Storage a)) = {h0<..?H}"
    using assms(1) by (simp_all add: linked_def)
  obtain b r where b: "hd_Height (blk_Header b) = ?H + 1" "LastBlock a' = b" and H': "st_LastBlockHeight (CurState a') = ?H + 1"
    and ap: "applied E (CurState a) b r (CurState a')"
    and en: "ms_entries (Storage a') = (ms_entries (Storage a))(?H + 1 \<mapsto> (b, ec_ToCommit E (LastCommit a'), CurState a, r))"
    and wf: "ms_wf (Storage a) \<longrightarrow> ms_wf (Storage a')"
    by (rule moved_onE [OF assms(2)]) (use assms(3,4) l(2) in simp_all)
  have out: "ms_entries (Storage a) (?H + 1) = None" "ms_entries (Storage a) (?H + 1 + 1) = None"
  proof -
    have "?H + 1 \<notin> dom (ms_entries (Storage a))" "?H + 1 + 1 \<notin> dom (ms_entries (Storage a))"
      by (simp_all add: l(3))
    then show "ms_entries (Storage a) (?H + 1) = None" "ms_entries (Storage a) (?H + 1 + 1) = None"
      by (simp_all only: domIff not_not)
  qed
  have new: "state_at a' (?H + 1) = CurState a" "state_at a' (?H + 1 + 1) = CurState a'"
    "state_at a (?H + 1) = CurState a"
    using out by (simp_all add: state_at_def en)
  have old: "state_at a' h = state_at a h" if "h0 < h" "h \<le> ?H" for h
  proof -
    have "h \<in> dom (ms_entries (Storage a))" using that by (simp add: l(3))
    then show ?thesis using that by (auto simp: state_at_def en)
  qed
  have old1: "state_at a' (h + 1) = state_at a (h + 1)" if "h0 < h" "h \<le> ?H" for h
    using that old [of "h + 1"] new by (cases "h = ?H") auto
  have "\<exists>b c r. ms_entries (Storage a') h = Some (b, c, state_at a' h, r) \<and> hd_Height (blk_Header b) = h
        \<and> st_LastBlockHeight (state_at a' h) = h - 1 \<and> applied E (state_at a' h) b r (state_at a' (h + 1))
        \<and> (h = ?H + 1 \<longrightarrow> LastBlock a' = b)" if h: "h0 < h" "h \<le> ?H + 1" for h
  proof (cases "h = ?H + 1")
    case True
    then show ?thesis using new b ap by (simp add: en)
  next
    case False
    then have "h \<in> {h0<..?H}" using h by simp
    then have "\<exists>b c r. ms_entries (Storage a) h = Some (b, c, state_at a h, r) \<and> hd_Height (blk_Header b) = h
        \<and> st_LastBlockHeight (state_at a h) = h - 1 \<and> applied E (state_at a h) b r (state_at a (h + 1))"
      using assms(1) unfolding linked_def by blast
    then show ?thesis using old [of h] old1 [of h] h False by (simp add: en)
  qed
  moreover have "dom (ms_entries (Storage a')) = {h0<..?H + 1}"
    using l(2,3) by (auto simp: en)
  ultimately show ?thesis using l wf by (simp add: linked_def H')
qed

text \<open>Each block carries the commit of the block before it, and the client the commit of the last one.\<close>

definition commits_linked :: "'w env \<Rightarrow> int \<Rightarrow> abci_client \<Rightarrow> bool" where
  "commits_linked E h0 a \<longleftrightarrow> (\<forall>h \<in> {h0<..st_LastBlockHeight (CurState a)}. \<exists>b c st r.
     ms_entries (Storage a) h = Some (b, c, st, r)
     \<and> (if h = st_LastBlockHeight (CurState a) then ec_ToCommit E (LastCommit a) = c
        else \<exists>b' c' st' r'. ms_entries (Storage a) (h + 1) = Some (b', c', st', r') \<and> blk_LastCommit b' = Some c))"

lemma commits_linked_untouched:
  "commits_linked E h0 a \<Longrightarrow> untouched a a' \<Longrightarrow> LastCommit a' = LastCommit a \<Longrightarrow> commits_linked E h0 a'"
  unfolding commits_linked_def untouched_def by (elim conjE) (simp only:)

lemma commits_linked_moved:
  assumes "commits_linked E h0 a" "linked E h0 a" "moved_on E t p a a'" "0 \<le> h0" "st_LastBlockHeight (CurState a) < 2 ^ 63 - 1"
  shows "commits_linked E h0 a'"
proof -
  let ?H = "st_LastBlockHeight (CurState a)"
  have l: "h0 \<le> ?H" using assms(2) by (simp add: linked_def)
  obtain b r where b: "blk_LastCommit b = Some (ec_ToCommit E (LastCommit a))" and H': "st_LastBlockHeight (CurState a') = ?H + 1"
    and en: "ms_entries (Storage a') = (ms_entries (Storage a))(?H + 1 \<mapsto> (b, ec_ToCommit E (LastCommit a'), CurState a, r))"
    by (rule moved_onE [OF assms(3)]) (use assms(4,5) l in simp_all)
  have "\<exists>b c st r. ms_entries (Storage a') h = Some (b, c, st, r)
     \<and> (if h = ?H + 1 then ec_ToCommit E (LastCommit a') = c
        else \<exists>b' c' st' r'. ms_entries (Storage a') (h + 1) = Some (b', c', st', r') \<and> blk_LastCommit b' = Some c)"
    if h: "h0 < h" "h \<le> ?H + 1" for h
  proof (cases "h = ?H + 1")
    case True
    then show ?thesis by (simp add: en)
  next
    case False
    then have "h \<in> {h0<..?H}" using h by simp
    then obtain b1 c1 st1 r1 where e: "ms_entries (Storage a) h = Some (b1, c1, st1, r1)"
      and c: "if h = ?H then ec_ToCommit E (LastCommit a) = c1
        else \<exists>b' c' st' r'. ms_entries (Storage a) (h + 1) = Some (b', c', st', r') \<and> blk_LastCommit b' = Some c1"
      using assms(1) unfolding commits_linked_def by blast
    show ?thesis using e c b False by (cases "h = ?H") (simp_all add: en)
  qed
  then show ?thesis by (simp add: commits_linked_def H')
qed

section \<open>Blocks of a fixed block time\<close>

lemma RunBlock_fixed:
  assumes E: "makes_blocks E" and run: "RunBlock E s = (Return (), s')"
    and th: "TimeHandler (client s) = FixedBlockTimeHandler f"
  obtains c r where
    "hd_Time (blk_Header (LastBlock (client s'))) = hd_Time (blk_Header (LastBlock (client s)))
       + i64 (fb_blockTime f + fb_curBlockOffset f)"
    "TimeHandler (client s') = FixedBlockTimeHandler (f\<lparr>fb_curBlockOffset := 0,
       fb_lastBlockTimestamp := hd_Time (blk_Header (LastBlock (client s')))\<rparr>)"
    "st_LastBlockHeight (CurState (client s')) = i64 (st_LastBlockHeight (CurState (client s)) + 1)"
    "ms_entries (Storage (client s')) = (ms_entries (Storage (client s)))
       (i64 (st_LastBlockHeight (CurState (client s)) + 1) \<mapsto> (LastBlock (client s'), c, CurState (client s), r))"
proof -
  let ?t = "hd_Time (blk_Header (LastBlock (client s))) + i64 (fb_blockTime f + fb_curBlockOffset f)"
  let ?u = "s\<lparr>client := (client s)\<lparr>TimeHandler := FixedBlockTimeHandler (f\<lparr>fb_curBlockOffset := 0, fb_lastBlockTimestamp := ?t\<rparr>)\<rparr>\<rparr>"
  have "RunBlockWithTimeAndProposer E ?t (vs_Proposer (st_LastValidators (CurState (client s)))) [] ?u = (Return (), s')"
    using run th by (simp add: RunBlock_def last_proposer_def GetBlockTime_def fb_GetBlockTime_def time_Add_def Let_def
        run_bindP run_seqP)
  from RunBlock_success [OF E this] obtain b res where
    "proposed E ?t (the (vs_Proposer (st_LastValidators (CurState (client s))))) (client ?u) b" "LastBlock (client s') = b"
    "ms_entries (Storage (client s')) = (ms_entries (Storage (client ?u)))(hd_Height (blk_Header b) \<mapsto>
        (b, ec_ToCommit E (LastCommit (client s')), CurState (client ?u), res))"
    "st_LastBlockHeight (CurState (client s')) = hd_Height (blk_Header b)"
    "TimeHandler (client s') = TimeHandler (client ?u)"
    by auto
  then show thesis using that by (simp add: proposed_def)
qed

lemma RunBlocks_fixed:
  assumes E: "makes_blocks E" and bt: "in64 (fb_blockTime f)"
  shows "foreach (\<lambda>_. RunBlock E) xs s = (Return (), s') \<Longrightarrow> TimeHandler (client s) = FixedBlockTimeHandler f \<Longrightarrow>
    fb_curBlockOffset f = 0 \<Longrightarrow> st_LastBlockHeight (CurState (client s)) = h \<Longrightarrow> 0 \<le> h \<Longrightarrow> h + int (length xs) < 2 ^ 63 \<Longrightarrow>
    hd_Time (blk_Header (LastBlock (client s))) = t0 \<Longrightarrow>
    st_LastBlockHeight (CurState (client s')) = h + int (length xs)
    \<and> hd_Time (blk_Header (LastBlock (client s'))) = t0 + int (length xs) * fb_blockTime f
    \<and> (\<forall>k. h < k \<and> k \<le> h + int (length xs) \<longrightarrow> (\<exists>b c st r. ms_entries (Storage (client s')) k = Some (b, c, st, r)
        \<and> hd_Time (blk_Header b) = t0 + (k - h) * fb_blockTime f))
    \<and> (\<forall>k \<le> h. ms_entries (Storage (client s')) k = ms_entries (Storage (client s)) k)"
  using bt
proof (induction xs arbitrary: s f h t0)
  case Nil
  then show ?case by auto
next
  case (Cons x xs)
  obtain u where one: "RunBlock E s = (Return (), u)" and rest: "foreach (\<lambda>_. RunBlock E) xs u = (Return (), s')"
    using Cons.prems(1) by (auto elim!: seqP_ReturnE)
  obtain c r where u: "hd_Time (blk_Header (LastBlock (client u))) = t0 + i64 (fb_blockTime f + fb_curBlockOffset f)"
      "TimeHandler (client u) = FixedBlockTimeHandler (f\<lparr>fb_curBlockOffset := 0,
         fb_lastBlockTimestamp := hd_Time (blk_Header (LastBlock (client u)))\<rparr>)"
      "st_LastBlockHeight (CurState (client u)) = i64 (h + 1)"
      "ms_entries (Storage (client u)) = (ms_entries (Storage (client s)))
         (i64 (h + 1) \<mapsto> (LastBlock (client u), c, CurState (client s), r))"
    using RunBlock_fixed [OF E one Cons.prems(2)] Cons.prems(4,7) by auto
  have i: "i64 (h + 1) = h + 1" using Cons.prems(5,6) by (simp add: in64_def)
  have t: "hd_Time (blk_Header (LastBlock (client u))) = t0 + fb_blockTime f"
    using u(1) Cons.prems(3,8) by simp
  have ih: "st_LastBlockHeight (CurState (client s')) = h + 1 + int (length xs)
    \<and> hd_Time (blk_Header (LastBlock (client s'))) = t0 + fb_blockTime f + int (length xs) * fb_blockTime f
    \<and> (\<forall>k. h + 1 < k \<and> k \<le> h + 1 + int (length xs) \<longrightarrow> (\<exists>b c st r. ms_entries (Storage (client s')) k = Some (b, c, st, r)
        \<and> hd_Time (blk_Header b) = t0 + fb_blockTime f + (k - (h + 1)) * fb_blockTime f))
    \<and> (\<forall>k \<le> h + 1. ms_entries (Storage (client s')) k = ms_entries (Storage (client u)) k)"
    using Cons.IH [OF rest u(2), of "h + 1" "t0 + fb_blockTime f"] u(3) i t Cons.prems(5,6,8) by simp
  have "\<exists>b c st r. ms_entries (Storage (client s')) k = Some (b, c, st, r)
        \<and> hd_Time (blk_Header b) = t0 + (k - h) * fb_blockTime f" if k: "h < k" "k \<le> h + 1 + int (length xs)" for k
  proof (cases "k = h + 1")
    case True
    then have "ms_entries (Storage (client s')) k = Some (LastBlock (client u), c, CurState (client s), r)"
      using ih u(4) i by simp
    then show ?thesis using t True by simp
  next
    case False
    then have "h + 1 < k" using k(1) by simp
    then show ?thesis using ih k(2) by (auto simp: algebra_simps)
  qed
  then show ?case using ih u(4) i by (simp add: algebra_simps)
qed

lemma sample_linked:
  "linked E 0 (client sample_sys)" "commits_linked E 0 (client sample_sys)"
  "\<not> stateUpdateMutex (Storage (client sample_sys))"
  by (simp_all add: linked_def commits_linked_def sample_sys_def sample_state_def empty_MapStorage_def ms_wf_def
      ms_entries_def dom_def)

lemma sample_chain_grows:
  "\<exists>s. RunBlockWithTime sample_env 10 sample_sys = (Return (), s) \<and> st_LastBlockHeight (CurState (client s)) = 1
    \<and> \<not> stateUpdateMutex (Storage (client s)) \<and> linked sample_env 0 (client s)"
proof -
  obtain s where s: "RunBlockWithTimeAndProposer sample_env 10 (Some (sample_validator ''v1'' 10)) [] sample_sys = (Return (), s)"
      "st_LastBlockHeight (CurState (client s)) = 1" "\<not> stateUpdateMutex (Storage (client s))"
    using sample_block_runs by blast
  have p: "vs_Proposer (st_LastValidators (CurState (client sample_sys))) = Some (sample_validator ''v1'' 10)"
    "st_LastBlockHeight (CurState (client sample_sys)) < 2 ^ 63 - 1"
    by (simp_all add: sample_sys_def sample_state_def sample_valset_def sample_vals_def)
  have "linked sample_env 0 (client s)"
    by (rule linked_moved [OF sample_linked(1) RunBlock_moved [OF sample_makes_blocks s(1)] _ p(2)]) simp
  then show ?thesis using s p(1) by (simp add: RunBlockWithTime_def last_proposer_def run_bindP)
qed

section \<open>Properties\<close>

text \<open>
  Claim C30. Running \<open>n\<close> empty blocks with a fixed block time. When \<open>RunEmptyBlocks\<close> returns, the chain is exactly \<open>n\<close>
  blocks longer, every new height has its block, stamped with the time of the last block before
  plus its distance times the block time, and the earlier heights are as they were.
\<close>

theorem empty_blocks_at_fixed_times:
  assumes "makes_blocks E" and "RunEmptyBlocks E n s = (Return (), s')" and "0 \<le> n"
    and "TimeHandler (client s) = FixedBlockTimeHandler f" "fb_curBlockOffset f = 0" "in64 (fb_blockTime f)"
    and "st_LastBlockHeight (CurState (client s)) = h" "0 \<le> h" "h + n < 2 ^ 63"
    and "hd_Time (blk_Header (LastBlock (client s))) = t0"
  shows "st_LastBlockHeight (CurState (client s')) = h + n
    \<and> hd_Time (blk_Header (LastBlock (client s'))) = t0 + n * fb_blockTime f
    \<and> (\<forall>k. h < k \<and> k \<le> h + n \<longrightarrow> (\<exists>b c st r. ms_entries (Storage (client s')) k = Some (b, c, st, r)
        \<and> hd_Time (blk_Header b) = t0 + (k - h) * fb_blockTime f))
    \<and> (\<forall>k \<le> h. ms_entries (Storage (client s')) k = ms_entries (Storage (client s)) k)"
  using RunBlocks_fixed [OF assms(1,6), of "[0..<nat n]" s s' h t0] assms by (simp add: RunEmptyBlocks_def)

lemma sample_RunBlock: "\<exists>t. RunBlock sample_env sample_sys = (Return (), t)"
  by (simp add: RunBlock_def last_proposer_def GetBlockTime_def clock_defs block_defs sample_sys_defs run_eval)

theorem empty_blocks_at_fixed_times_witness:
  "\<exists>s' b c st r. RunEmptyBlocks sample_env 1 sample_sys = (Return (), s')
    \<and> ms_entries (Storage (client s')) 1 = Some (b, c, st, r) \<and> hd_Time (blk_Header b) = 10"
proof -
  obtain s' where run: "RunEmptyBlocks sample_env 1 sample_sys = (Return (), s')"
    using sample_RunBlock by (auto simp: RunEmptyBlocks_def seqP_Return_iff)
  have "TimeHandler (client sample_sys) = FixedBlockTimeHandler (NewFixedBlockTimeHandler 10)"
    "fb_curBlockOffset (NewFixedBlockTimeHandler 10) = 0" "in64 (fb_blockTime (NewFixedBlockTimeHandler 10))"
    "st_LastBlockHeight (CurState (client sample_sys)) = 0" "hd_Time (blk_Header (LastBlock (client sample_sys))) = 0"
    "fb_blockTime (NewFixedBlockTimeHandler 10) = 10"
    by (simp_all add: sample_sys_def NewFixedBlockTimeHandler_def in64_def sample_state_def sample_block_def)
  from empty_blocks_at_fixed_times [OF sample_makes_blocks run _ this(1-3,4) _ _ this(5), unfolded this(6)]
  have "\<forall>k. 0 < k \<and> k \<le> 0 + 1 \<longrightarrow> (\<exists>b c st r. ms_entries (Storage (client s')) k = Some (b, c, st, r)
      \<and> hd_Time (blk_Header b) = 0 + (k - 0) * 10)" by simp
  from this [rule_format, of 1] run show ?thesis by auto
qed

end
