(* ===== verification/Downtime.thy ===== *)
theory Downtime
  imports Chain
begin

text \<open>
  The path of the signing status of a validator: through the votes of a block into its commit, and through the
  commit of one block into what the applications are told with the next.
\<close>

section \<open>Documented behaviour of the library\<close>

text \<open>
  An extended commit has one signature per validator of its vote set; when the votes are all for one block, the
  signature is marked absent exactly at the indices that no vote has. Turning it into a commit keeps the flags.
\<close>

definition records_votes :: "'w env \<Rightarrow> bool" where
  "records_votes E \<longleftrightarrow> commits_complete E
     \<and> (\<forall>vos ap ec bid i. MakeExtendedCommit E vos ap = Inr ec \<and> (\<forall>vote \<in> set (vos_Votes vos). vt_BlockID vote = bid)
          \<and> i < length (vs_Validators (vos_Validators vos)) \<longrightarrow>
          (cs_BlockIDFlag (ec_ExtendedSignatures ec ! i) = BlockIDFlagAbsent E
            \<longleftrightarrow> (\<forall>vote \<in> set (vos_Votes vos). vt_ValidatorIndex vote \<noteq> int i)))
     \<and> (\<forall>ec i. i < length (ec_ExtendedSignatures ec) \<longrightarrow>
          cs_BlockIDFlag (cm_Signatures (ec_ToCommit E ec) ! i) = cs_BlockIDFlag (ec_ExtendedSignatures ec ! i))"

lemma sample_records_votes: "records_votes sample_env"
proof -
  have "cs_BlockIDFlag (sample_sig_of votes (i, val)) = 1 \<longleftrightarrow> (\<forall>vote \<in> set votes. vt_ValidatorIndex vote \<noteq> int i)"
    for votes i val
    by (auto simp: sample_sig_of_def find_None_iff find_Some_iff split: option.splits dest: nth_mem)
  then show ?thesis
    using sample_commits_complete
    by (auto simp: records_votes_def sample_env_def sample_ext_commit_def sample_to_commit_def Let_def
        nth_enumerate_eq commit_sig.defs split: list.splits if_splits)
qed

section \<open>The commit of a block\<close>

lemma add_votes_set:
  "add_votes E vos votes = Return vos' \<Longrightarrow> set (vos_Votes vos') = set (vos_Votes vos) \<union> {v. Some v \<in> set votes}"
  by (induction E vos votes rule: add_votes.induct) (auto split: prod.splits option.splits if_splits)

lemma sign_votes_index:
  assumes "sign_votes E b s = (Return votes, t)" and "vals = vs_Validators (st_Validators (CurState (client s)))"
    and "int (length vals) < 2 ^ 31" and "i < length vals"
  shows "((\<forall>vote. Some vote \<in> set votes \<longrightarrow> vt_ValidatorIndex vote \<noteq> int i)
      \<longleftrightarrow> signingStatus (client s) (addr_String E (val_Address (vals ! i))) = Some False)
    \<and> (\<exists>bid. \<forall>vote. Some vote \<in> set votes \<longrightarrow> vt_BlockID vote = bid)"
proof -
  have c: "collect (sign_vote E b) (enumerate 0 vals) s = (Return votes, t)"
    using assms(1,2) by (auto simp: sign_votes_def current_validators_def bindP_Return_iff)
  have len: "length votes = length vals" using collect_length [OF c] by simp
  have k: "keeps (\<lambda>u. client u = client s) (sign_vote E b iv)" for iv by (intro keeps_intros) simp
  have each: "case signingStatus (client s) (addr_String E (val_Address (vals ! j))) of
        None \<Rightarrow> False | Some False \<Rightarrow> votes ! j = None
      | Some True \<Rightarrow> (\<exists>vote. votes ! j = Some vote \<and> votes_for E b j (vals ! j) vote)" if j: "j < length vals" for j
  proof -
    obtain u v where "client u = client s" "sign_vote E b (enumerate 0 vals ! j) u = (Return (votes ! j), v)"
      using collect_nth [OF k _ c, of j] j by auto
    then show ?thesis using sign_vote_Return [of E b j "vals ! j" u] j by (simp add: nth_enumerate_eq)
  qed
  have idx: "vt_ValidatorIndex vote = int j" if "j < length vals" "votes ! j = Some vote" for j vote
    using each [OF that(1)] that assms(3) by (auto simp: votes_for_def i32_id split: option.splits bool.splits)
  have "(\<exists>vote. Some vote \<in> set votes \<and> vt_ValidatorIndex vote = int i) \<longleftrightarrow> (\<exists>vote. votes ! i = Some vote)"
    using idx assms(4) len by (fastforce simp: in_set_conv_nth)
  moreover have "votes ! i = None \<longleftrightarrow> signingStatus (client s) (addr_String E (val_Address (vals ! i))) = Some False"
    using each [OF assms(4)] by (auto split: option.splits bool.splits)
  moreover have "\<exists>bid. \<forall>vote. Some vote \<in> set votes \<longrightarrow> vt_BlockID vote = bid"
  proof (cases "MakePartSet E b (BlockPartSizeBytes E)")
    case (Inr ps)
    have "vt_BlockID vote = \<lparr>bid_Hash = block_Hash E b, bid_PartSetHeader = ps_Header E ps\<rparr>" if v: "Some vote \<in> set votes" for vote
    proof -
      obtain j where "j < length vals" "votes ! j = Some vote" using v len by (auto simp: in_set_conv_nth)
      then show ?thesis using each [of j] Inr by (auto simp: votes_for_def split: option.splits bool.splits)
    qed
    then show ?thesis by blast
  next
    case (Inl err)
    have "Some vote \<notin> set votes" for vote
    proof
      assume "Some vote \<in> set votes"
      then obtain j where "j < length vals" "votes ! j = Some vote" using len by (auto simp: in_set_conv_nth)
      then show False using each [of j] Inl by (auto simp: votes_for_def split: option.splits bool.splits)
    qed
    then show ?thesis by blast
  qed
  ultimately show ?thesis by auto
qed

lemma RunBlock_commit_flags:
  assumes E: "records_votes E" and run: "RunBlockWithTimeAndProposer E t p misb s = (Return (), s')"
    and vals: "vals = vs_Validators (st_Validators (CurState (client s)))" "int (length vals) < 2 ^ 31"
  shows "length (cm_Signatures (ec_ToCommit E (LastCommit (client s')))) = length vals
    \<and> (\<forall>i < length vals. cs_BlockIDFlag (cm_Signatures (ec_ToCommit E (LastCommit (client s'))) ! i) = BlockIDFlagAbsent E
        \<longleftrightarrow> signingStatus (client s) (addr_String E (val_Address (vals ! i))) = Some False)"
proof -
  obtain u where h: "runBlock_helper E t p misb (s\<lparr>blockMutex := True\<rparr>) = (Return (), u)"
    and s': "s' = u\<lparr>blockMutex := False\<rparr>"
    using run by (auto simp: RunBlock_Return_iff)
  show ?thesis using h
  proof (rule helper_Return, goal_cases)
    case (1 s1 s2 evs s3 app s4 b s5 nps s6 s7 votes s8 s9 s10)
    note ph = 1
    have f7: "frame s7 = frame (s\<lparr>blockMutex := True\<rparr>)"
      using phase_frames(1) [OF ph(1)] phase_frames(2) [OF ph(2)] phase_frames(3) [OF ph(3)]
        phase_frames(4) [OF ph(4)] phase_frames(5) [OF ph(5)] phase_cores(2) [OF ph(6), THEN core_frame]
        phase_cores(3) [OF ph(7), THEN core_frame] by simp
    then have f9: "frame s9 = frame (s\<lparr>blockMutex := True\<rparr>)"
      using phase_cores(4) [OF ph(8), THEN core_frame] phase_cores(5) [OF ph(9), THEN core_frame] by simp
    have c7: "CurState (client s7) = CurState (client s)" "signingStatus (client s7) = signingStatus (client s)"
      and c9: "CurState (client s9) = CurState (client s)"
      using frameD(2,5) [OF f7] frameD(2) [OF f9] by simp_all
    obtain vos ec where vos: "add_votes E (new_vote_set E (CurState (client s)) (hd_Height (blk_Header b))) votes = Return vos"
        "MakeExtendedCommit E vos (cp_ABCI (st_ConsensusParams (CurState (client s)))) = Inr ec"
      and s10: "s10 = s9\<lparr>client := (client s9)\<lparr>LastCommit := ec\<rparr>\<rparr>"
      using ph(10) by (rule make_commit_Return) (simp add: c9)
    obtain lci res v where "core v = core s10" "store_and_commit E (i64 (st_LastBlockHeight (CurState (client s)) + 1)) b res v = (Return (), u)"
      using ph(11) by (rule finalize_and_commit_Return) simp
    then have ec: "LastCommit (client s') = ec"
      by (auto elim!: store_and_commit_Return simp: core_def finalized_def s' s10)
    have v: "vs_Validators (vos_Validators vos) = vals" "set (vos_Votes vos) = {v. Some v \<in> set votes}"
      using add_votes_Return [OF vos(1)] add_votes_set [OF vos(1)] by (simp_all add: new_vote_set_def vals(1))
    have "(\<forall>vote. Some vote \<in> set votes \<longrightarrow> vt_ValidatorIndex vote \<noteq> int i)
        \<longleftrightarrow> signingStatus (client s) (addr_String E (val_Address (vals ! i))) = Some False" if "i < length vals" for i
      using sign_votes_index [OF ph(8), of vals i] that vals c7 by simp
    moreover have "length (ec_ExtendedSignatures ec) = length vals"
      "length (cm_Signatures (ec_ToCommit E ec)) = length (ec_ExtendedSignatures ec)"
      using E vos(2) v(1) unfolding records_votes_def commits_complete_def by blast+
    moreover have "cs_BlockIDFlag (ec_ExtendedSignatures ec ! i) = BlockIDFlagAbsent E
        \<longleftrightarrow> (\<forall>vote. Some vote \<in> set votes \<longrightarrow> vt_ValidatorIndex vote \<noteq> int i)" if i: "i < length vals" for i
    proof -
      obtain bid where "\<forall>vote. Some vote \<in> set votes \<longrightarrow> vt_BlockID vote = bid"
        using sign_votes_index [OF ph(8), of vals i] i vals c7 by auto
      then have "\<forall>vote \<in> set (vos_Votes vos). vt_BlockID vote = bid" using v(2) by simp
      then have "cs_BlockIDFlag (ec_ExtendedSignatures ec ! i) = BlockIDFlagAbsent E
          \<longleftrightarrow> (\<forall>vote \<in> set (vos_Votes vos). vt_ValidatorIndex vote \<noteq> int i)"
        using E vos(2) i unfolding records_votes_def v(1) [symmetric] by blast
      then show ?thesis using v(2) by simp
    qed
    ultimately show ?case using E unfolding ec records_votes_def by simp
  qed
qed

section \<open>Properties\<close>

text \<open>
  Claim C11. Downtime reaches the applications. Let two blocks succeed one after the other, at a height other than the
  initial one, and let the validators of the second be those of the first. Then the second block tells every
  application, in its one FinalizeBlock, the validators in their order, and marks as absent exactly those whose signing
  status was off when the first block ran. The commit stored with the first block says the same.
\<close>

theorem downtime_reported_to_applications:
  assumes "makes_blocks E" "orders_maps E" "commit_sizes E" "records_votes E"
    and "distinct (map fst (Clients (client s)))"
    and "RunBlockWithTimeAndProposer E t p misb s = (Return (), s')"
    and "RunBlockWithTimeAndProposer E t' p' misb' s' = (Return (), s'')"
    and "vals = vs_Validators (st_NextValidators (CurState (client s)))" "int (length vals) < 2 ^ 31"
    and "map val_Address (vs_Validators (st_Validators (CurState (client s)))) = map val_Address vals"
    and "i64 (st_LastBlockHeight (CurState (client s')) + 1) \<noteq> st_InitialHeight (CurState (client s'))"
  shows "(\<forall>i < length vals. cs_BlockIDFlag (cm_Signatures (ec_ToCommit E (LastCommit (client s'))) ! i) = BlockIDFlagAbsent E
      \<longleftrightarrow> signingStatus (client s) (addr_String E (val_Address (vals ! i))) = Some False)
    \<and> (\<exists>pre fin com req. abci_log s'' = abci_log s' @ pre @ fin @ com \<and> list_all (\<lambda>c. stage c \<le> 6) pre
    \<and> mset fin = image_mset (\<lambda>c. CallFinalizeBlock (acc_Client c) req) (mset (map snd (Clients (client s))))
    \<and> mset com = image_mset (\<lambda>c. CallCommit (acc_Client c)) (mset (map snd (Clients (client s))))
    \<and> map vi_Validator (ci_Votes (rfb_DecidedLastCommit req)) = map (TM2PB_Validator E) vals
    \<and> (\<forall>i < length vals. vi_BlockIdFlag (ci_Votes (rfb_DecidedLastCommit req) ! i) = BlockIDFlagAbsent E
        \<longleftrightarrow> signingStatus (client s) (addr_String E (val_Address (vals ! i))) = Some False))"
proof -
  let ?old = "vs_Validators (st_Validators (CurState (client s)))"
  let ?c = "ec_ToCommit E (LastCommit (client s'))"
  have adr: "val_Address (?old ! i) = val_Address (vals ! i)" if "i < length vals" for i
    using assms(10) that by (auto simp: list_eq_iff_nth_eq)
  have lenv: "length ?old = length vals" using assms(10) by (rule map_eq_imp_length_eq)
  have flags: "length (cm_Signatures ?c) = length vals"
      "\<forall>i < length vals. cs_BlockIDFlag (cm_Signatures ?c ! i) = BlockIDFlagAbsent E
        \<longleftrightarrow> signingStatus (client s) (addr_String E (val_Address (vals ! i))) = Some False"
    using RunBlock_commit_flags [OF assms(4,6) refl] assms(9) lenv adr by auto
  have cs: "Clients (client s') = Clients (client s)" "vs_Validators (st_Validators (CurState (client s'))) = vals"
    using RunBlock_success [OF assms(1,6)] assms(8) by auto
  obtain u where h: "runBlock_helper E t' p' misb' (s'\<lparr>blockMutex := True\<rparr>) = (Return (), u)"
    and s'': "s'' = u\<lparr>blockMutex := False\<rparr>"
    using assms(7) by (auto simp: RunBlock_Return_iff)
  have "\<exists>pre fin com req. abci_log s'' = abci_log s' @ pre @ fin @ com \<and> list_all (\<lambda>c. stage c \<le> 6) pre
    \<and> mset fin = image_mset (\<lambda>c. CallFinalizeBlock (acc_Client c) req) (mset (map snd (Clients (client s))))
    \<and> mset com = image_mset (\<lambda>c. CallCommit (acc_Client c)) (mset (map snd (Clients (client s))))
    \<and> ci_Votes (rfb_DecidedLastCommit req) = map2 (vote_info_of E) vals (cm_Signatures ?c)"
  proof (rule helper_calls [OF assms(1,2) _ h], goal_cases)
    case 1
    then show ?case using assms(5) by (simp add: cs)
  next
    case (2 pre fin com b lci)
    have b: "blk_LastCommit b = Some ?c" "hd_Height (blk_Header b) = i64 (st_LastBlockHeight (CurState (client s')) + 1)"
      using RunBlock_success [OF assms(1,7)] 2(3) by (auto simp: proposed_def s'')
    have "ci_Votes lci = map2 (vote_info_of E) vals (cm_Signatures ?c)"
      using 2(6) b assms(3,11) last_commit_votes_eq [of 0 vals ?c E] flags(1)
      by (auto simp: BuildLastCommitInfo_def Let_def commit_sizes_def cs(2) bindO_Return_iff split: if_splits)
    then show ?case using 2(1,2,4,5)
      by (intro exI [of _ pre] exI [of _ fin] exI [of _ com] exI [of _ "finalize_request E b lci"])
        (simp add: s'' finalize_request_def cs(1))
  qed
  then obtain pre fin com req where r: "abci_log s'' = abci_log s' @ pre @ fin @ com" "list_all (\<lambda>c. stage c \<le> 6) pre"
    "mset fin = image_mset (\<lambda>c. CallFinalizeBlock (acc_Client c) req) (mset (map snd (Clients (client s))))"
    "mset com = image_mset (\<lambda>c. CallCommit (acc_Client c)) (mset (map snd (Clients (client s))))"
    "ci_Votes (rfb_DecidedLastCommit req) = map2 (vote_info_of E) vals (cm_Signatures ?c)"
    by blast
  have "map vi_Validator (ci_Votes (rfb_DecidedLastCommit req)) = map (TM2PB_Validator E) vals"
    using flags(1) by (simp add: r(5) list_eq_iff_nth_eq vote_info_of_def)
  moreover have "vi_BlockIdFlag (ci_Votes (rfb_DecidedLastCommit req) ! i) = cs_BlockIDFlag (cm_Signatures ?c ! i)"
    if "i < length vals" for i
    using that flags(1) by (simp add: r(5) vote_info_of_def)
  ultimately show ?thesis using flags(2) r(1-4)
    by (intro conjI exI [of _ pre] exI [of _ fin] exI [of _ com] exI [of _ req]) simp_all
qed

text \<open>The sample system with a stronger second validator and the first one down.\<close>

definition sample_down :: "int sys" where
  "sample_down = sample_sys\<lparr>client := (client sample_sys)\<lparr>
     CurState := sample_state [sample_validator ''v1'' 10, sample_validator ''v2'' 30] 0,
     signingStatus := [''v1'' \<mapsto> False, ''v2'' \<mapsto> True]\<rparr>\<rparr>"

lemma moved_on_heights:
  assumes "moved_on E t p a a'"
  shows "st_InitialHeight (CurState a') = st_InitialHeight (CurState a)"
    "st_LastBlockHeight (CurState a') = i64 (st_LastBlockHeight (CurState a) + 1)"
proof -
  obtain v b res bid ups st ah where m: "proposed E t v a b" "UpdateState E (CurState a) bid (blk_Header b) res ups = Return st"
      "CurState a' = st\<lparr>st_AppHash := ah\<rparr>"
    using assms unfolding moved_on_def by blast
  then show "st_InitialHeight (CurState a') = st_InitialHeight (CurState a)"
    "st_LastBlockHeight (CurState a') = i64 (st_LastBlockHeight (CurState a) + 1)"
    using UpdateState_Return(2,3) [OF m(2)] by (simp_all add: proposed_def)
qed

lemma sample_down_runs:
  "\<exists>s''. seqP (RunBlockWithTimeAndProposer sample_env 10 (Some (sample_validator ''v1'' 10)) [])
      (RunBlockWithTimeAndProposer sample_env 20 (Some (sample_validator ''v1'' 10)) []) sample_down = (Return (), s'')"
  by (simp add: sample_down_def block_defs sample_sys_defs run_eval)

theorem downtime_reported_to_applications_witness:
  "\<exists>s' s'' fin com pre req.
    RunBlockWithTimeAndProposer sample_env 10 (Some (sample_validator ''v1'' 10)) [] sample_down = (Return (), s')
    \<and> RunBlockWithTimeAndProposer sample_env 20 (Some (sample_validator ''v1'' 10)) [] s' = (Return (), s'')
    \<and> abci_log s'' = abci_log s' @ pre @ fin @ com
    \<and> mset fin = {#CallFinalizeBlock ''c1'' req, CallFinalizeBlock ''c2'' req#}
    \<and> vi_BlockIdFlag (ci_Votes (rfb_DecidedLastCommit req) ! 0) = BlockIDFlagAbsent sample_env
    \<and> vi_BlockIdFlag (ci_Votes (rfb_DecidedLastCommit req) ! 1) \<noteq> BlockIDFlagAbsent sample_env"
proof -
  obtain s' s'' where run: "RunBlockWithTimeAndProposer sample_env 10 (Some (sample_validator ''v1'' 10)) [] sample_down = (Return (), s')"
      "RunBlockWithTimeAndProposer sample_env 20 (Some (sample_validator ''v1'' 10)) [] s' = (Return (), s'')"
    using sample_down_runs by (auto simp: seqP_Return_iff)
  let ?vals = "[sample_validator ''v1'' 10, sample_validator ''v2'' 30]"
  have st: "CurState (client sample_down) = sample_state ?vals 0" "Clients (client sample_down) = sample_clients"
    "signingStatus (client sample_down) = [''v1'' \<mapsto> False, ''v2'' \<mapsto> True]"
    by (simp_all add: sample_down_def sample_sys_def)
  have v: "?vals = vs_Validators (st_NextValidators (CurState (client sample_down)))"
    "map val_Address (vs_Validators (st_Validators (CurState (client sample_down)))) = map val_Address ?vals"
    "int (length ?vals) < 2 ^ 31" "distinct (map fst (Clients (client sample_down)))"
    by (simp_all add: st sample_state_def sample_valset_def sample_clients_def)
  have m: "moved_on sample_env 10 (Some (sample_validator ''v1'' 10)) (client sample_down) (client s')"
    by (rule RunBlock_moved [OF sample_makes_blocks run(1)])
  have h: "i64 (st_LastBlockHeight (CurState (client s')) + 1) \<noteq> st_InitialHeight (CurState (client s'))"
    using moved_on_heights [OF m] by (simp add: st sample_state_def in64_def)
  from downtime_reported_to_applications [OF sample_makes_blocks sample_orders_maps sample_commit_sizes
      sample_records_votes v(4) run v(1,3,2) h]
  obtain pre fin com req where "abci_log s'' = abci_log s' @ pre @ fin @ com"
    "mset fin = image_mset (\<lambda>c. CallFinalizeBlock (acc_Client c) req) (mset (map snd (Clients (client sample_down))))"
    "\<forall>i < length ?vals. vi_BlockIdFlag (ci_Votes (rfb_DecidedLastCommit req) ! i) = BlockIDFlagAbsent sample_env
        \<longleftrightarrow> signingStatus (client sample_down) (addr_String sample_env (val_Address (?vals ! i))) = Some False"
    by blast
  moreover have "addr_String sample_env a = a" for a by (simp add: sample_env_def)
  ultimately show ?thesis using run
    by (intro exI [of _ s'] exI [of _ s''] exI [of _ fin] exI [of _ com] exI [of _ pre] exI [of _ req])
      (simp add: st sample_clients_def NewAbciCounterpartyClient_def sample_validator_def)
qed

end
