(* ===== verification/Pagination.thy ===== *)
theory Pagination
  imports Comet_Types
begin

text \<open>
  The part of \<open>rpc_server/routes.go\<close> that only computes: the page arithmetic of the paginated routes and the
  choice of a height. Go's integer division truncates towards zero, which is \<open>sdiv\<close>.
\<close>

section \<open>Definitions\<close>

definition defaultPerPage :: int where "defaultPerPage = 30"

definition maxPerPage :: int where "maxPerPage = 100"

definition getHeight :: "int \<Rightarrow> int option \<Rightarrow> int go" where
  "getHeight latestHeight heightPtr =
     (case heightPtr of
        Some height \<Rightarrow>
          if height \<le> 0 then Error (HeightNotPositive height)
          else if height > latestHeight then Error (HeightTooHigh height latestHeight)
          else Return height
      | None \<Rightarrow> Return latestHeight)"

definition validatePage :: "int option \<Rightarrow> int \<Rightarrow> int \<Rightarrow> int go" where
  "validatePage pagePtr perPage totalCount =
     (if perPage < 1 then Panic (NonPositivePerPage perPage)
      else case pagePtr of
        None \<Rightarrow> Return 1
      | Some page \<Rightarrow>
         (let pages0 = i64 (i64 (i64 (totalCount - 1) sdiv perPage) + 1);
              pages = (if pages0 = 0 then 1 else pages0)
          in if page \<le> 0 \<or> page > pages then Error (PageOutOfRange pages page)
             else Return page))"

definition validatePerPage :: "int option \<Rightarrow> int" where
  "validatePerPage perPagePtr =
     (case perPagePtr of
        None \<Rightarrow> defaultPerPage
      | Some perPage \<Rightarrow>
          if perPage < 1 then defaultPerPage
          else if perPage > maxPerPage then maxPerPage
          else perPage)"

definition validateSkipCount :: "int \<Rightarrow> int \<Rightarrow> int" where
  "validateSkipCount page perPage =
     (let skipCount = i64 (i64 (page - 1) * perPage)
      in if skipCount < 0 then 0 else skipCount)"

text \<open>
  The slice \<open>xs[skipCount : skipCount+pageSize]\<close> that the paginated routes take (by slicing or by a loop over the
  indices), with \<open>pageSize = MinInt(perPage, totalCount-skipCount)\<close>; out of range it panics.
\<close>

definition page_of :: "'a list \<Rightarrow> int \<Rightarrow> int \<Rightarrow> 'a list go" where
  "page_of xs skipCount perPage =
     (let pageSize = min perPage (i64 (int (length xs) - skipCount)); last1 = i64 (skipCount + pageSize)
      in if 0 \<le> skipCount \<and> skipCount \<le> last1 \<and> last1 \<le> int (length xs)
         then Return (take (nat pageSize) (drop (nat skipCount) xs))
         else Panic SliceOutOfRange)"

text \<open>The steps the three paginated routes share.\<close>

definition paginate :: "int option \<Rightarrow> int option \<Rightarrow> 'a list \<Rightarrow> 'a list go" where
  "paginate pagePtr perPagePtr xs =
     (let perPage = validatePerPage perPagePtr
      in bindO (validatePage pagePtr perPage (int (length xs))) (\<lambda>page.
         page_of xs (validateSkipCount page perPage) perPage))"

section \<open>Lemmas\<close>

lemma validatePerPage_range: "1 \<le> validatePerPage p" "validatePerPage p \<le> 100"
  by (auto simp: validatePerPage_def defaultPerPage_def maxPerPage_def split: option.split)

text \<open>The number of pages: at least one, and enough for the whole list.\<close>

definition page_count :: "int \<Rightarrow> int \<Rightarrow> int" where
  "page_count perPage totalCount = (if totalCount = 0 then 1 else (totalCount - 1) div perPage + 1)"

lemma sdiv_pages:
  assumes "1 \<le> perPage" "0 \<le> totalCount" "totalCount < 2 ^ 63"
  shows "(let pages0 = i64 (i64 (i64 (totalCount - 1) sdiv perPage) + 1) in if pages0 = 0 then 1 else pages0)
    = page_count perPage totalCount"
proof (cases "totalCount = 0")
  case True
  have "- 1 sdiv perPage = 0 \<or> - 1 sdiv perPage = (- 1 :: int)"
    using assms(1) by (cases "perPage = 1") (simp_all add: signed_divide_int_def sgn_if)
  then show ?thesis using True by (auto simp: page_count_def in64_def)
next
  case False
  then have "(totalCount - 1) sdiv perPage = (totalCount - 1) div perPage"
    using assms(1,2) by (simp add: signed_divide_int_def sgn_if)
  moreover have "0 \<le> (totalCount - 1) div perPage"
    using False assms(1,2) by (simp add: pos_imp_zdiv_nonneg_iff)
  moreover have "(totalCount - 1) div perPage \<le> totalCount - 1"
    using False assms(1,2) zdiv_mono2 [of "totalCount - 1" 1 perPage] by simp
  ultimately show ?thesis using False assms(2,3) by (simp add: page_count_def in64_def Let_def)
qed

lemma validatePage_eq:
  assumes "1 \<le> perPage" "0 \<le> totalCount" "totalCount < 2 ^ 63"
  shows "validatePage (Some page) perPage totalCount =
    (if 1 \<le> page \<and> page \<le> page_count perPage totalCount then Return page
     else Error (PageOutOfRange (page_count perPage totalCount) page))"
  using assms(1) sdiv_pages [OF assms] unfolding validatePage_def Let_def by auto

lemma page_start:
  assumes "1 \<le> perPage" "0 \<le> totalCount" "1 \<le> page" "page \<le> page_count perPage totalCount"
  shows "0 \<le> (page - 1) * perPage" "(page - 1) * perPage \<le> totalCount"
proof -
  show "0 \<le> (page - 1) * perPage" using assms(1,3) by simp
  show "(page - 1) * perPage \<le> totalCount"
  proof (cases "totalCount = 0")
    case True
    then show ?thesis using assms(3,4) by (simp add: page_count_def)
  next
    case False
    then have "page - 1 \<le> (totalCount - 1) div perPage" using assms(4) by (simp add: page_count_def)
    then have "(page - 1) * perPage \<le> (totalCount - 1) div perPage * perPage"
      using assms(1) by (simp add: mult_right_mono)
    also have "\<dots> \<le> totalCount - 1"
    proof -
      have "0 \<le> (totalCount - 1) mod perPage" using assms(1) by simp
      then show ?thesis by (simp only: minus_mod_eq_div_mult [symmetric])
    qed
    finally show ?thesis by simp
  qed
qed

lemma paginate_eq:
  assumes "int (length xs) < 2 ^ 63" "p = validatePerPage pp"
  shows "paginate (Some k) pp xs = (if 1 \<le> k \<and> k \<le> page_count p (int (length xs))
    then Return (take (nat p) (drop (nat (k - 1) * nat p) xs)) else Error (PageOutOfRange (page_count p (int (length xs))) k))"
proof (cases "1 \<le> k \<and> k \<le> page_count p (int (length xs))")
  case True
  have p: "1 \<le> p" "p \<le> 100" using validatePerPage_range assms(2) by simp_all
  let ?sk = "(k - 1) * p"
  have st: "0 \<le> ?sk" "?sk \<le> int (length xs)" using page_start [OF p(1) _ conjunct1 [OF True] conjunct2 [OF True]] by simp_all
  have "k - 1 \<le> ?sk" using True p(1) mult_left_mono [of 1 p "k - 1"] by simp
  then have "in64 (k - 1)" "in64 ?sk" using st assms(1) True by (simp_all add: in64_def)
  then have skip: "validateSkipCount k p = ?sk" using st by (simp add: validateSkipCount_def)
  have i: "i64 (int (length xs) - ?sk) = int (length xs) - ?sk" using st assms(1) by (simp add: in64_def)
  let ?sz = "min p (int (length xs) - ?sk)"
  have "i64 (?sk + ?sz) = ?sk + ?sz" using st assms(1) p by (simp add: in64_def min_def)
  then have "page_of xs ?sk p = Return (take (nat ?sz) (drop (nat ?sk) xs))"
    using st p unfolding page_of_def Let_def i by (simp add: min_def)
  moreover have "take (nat ?sz) (drop (nat ?sk) xs) = take (nat p) (drop (nat ?sk) xs)"
    using st by (simp add: min_def nat_diff_distrib)
  moreover have "nat ?sk = nat (k - 1) * nat p" using True p by (simp add: nat_mult_distrib)
  ultimately show ?thesis
    using True validatePage_eq [OF p(1) _ assms(1), of k] by (simp add: paginate_def Let_def skip flip: assms(2))
next
  case False
  have p: "1 \<le> p" using validatePerPage_range assms(2) by simp
  then show ?thesis using False validatePage_eq [OF p _ assms(1), of k]
    by (simp add: paginate_def Let_def flip: assms(2)) auto
qed

lemma chunks: "concat (map (\<lambda>k. take p (drop (k * p) xs)) [0..<n]) = take (n * p) xs"
  by (induction n) (simp_all flip: take_add add: add.commute)

lemma page_count_enough: "1 \<le> p \<Longrightarrow> length xs \<le> nat (page_count p (int (length xs))) * nat p"
proof -
  assume p: "1 \<le> p"
  let ?n = "int (length xs)"
  have "?n \<le> page_count p ?n * p"
  proof (cases "?n = 0")
    case True
    then show ?thesis using p by (simp add: page_count_def)
  next
    case False
    have "?n - 1 = (?n - 1) div p * p + (?n - 1) mod p" by simp
    moreover have "(?n - 1) mod p < p" using p by simp
    ultimately have "?n \<le> (?n - 1) div p * p + p" by linarith
    then show ?thesis using False by (simp add: page_count_def distrib_right)
  qed
  moreover have "0 \<le> page_count p ?n"
    using p by (cases "?n = 0") (simp_all add: page_count_def pos_imp_zdiv_nonneg_iff)
  then have "int (nat (page_count p ?n) * nat p) = page_count p ?n * p" using p by simp
  ultimately show "length xs \<le> nat (page_count p ?n) * nat p" by linarith
qed

lemma page_count_pos: "1 \<le> p \<Longrightarrow> 1 \<le> page_count p (int n)"
  by (simp add: page_count_def pos_imp_zdiv_nonneg_iff)

lemma upto_shift: "[1..int n] = map (\<lambda>k. int k + 1) [0..<n]"
  by (induction n) (simp_all add: upto_rec2)

section \<open>Properties\<close>

text \<open>
  Claim C22. The pages of a route partition its results. For every requested page size, the pages 1 to the last are
  all served, none is larger than the page size in force (between 1 and 100), and put together
  in order they are the whole result, each element once; every other page number is refused with the range; and no
  page number means page 1. No request makes the slicing panic.
\<close>

theorem pages_partition:
  assumes "int (length xs) < 2 ^ 63" and "p = validatePerPage perPagePtr" and "n = page_count p (int (length xs))"
  shows "1 \<le> p \<and> p \<le> 100
    \<and> (\<forall>k \<in> {1..n}. \<exists>ys. paginate (Some k) perPagePtr xs = Return ys \<and> int (length ys) \<le> p)
    \<and> concat (map (\<lambda>k. case paginate (Some k) perPagePtr xs of Return ys \<Rightarrow> ys | _ \<Rightarrow> []) [1..n]) = xs
    \<and> (\<forall>k. k < 1 \<or> n < k \<longrightarrow> paginate (Some k) perPagePtr xs = Error (PageOutOfRange n k))
    \<and> paginate None perPagePtr xs = paginate (Some 1) perPagePtr xs"
proof (intro conjI)
  have p: "1 \<le> p" "p \<le> 100" using validatePerPage_range assms(2) by simp_all
  then show "1 \<le> p" "p \<le> 100" .
  note eq = paginate_eq [OF assms(1,2)]
  have n: "1 \<le> n" using page_count_pos [OF p(1)] assms(3) by simp
  show "\<forall>k \<in> {1..n}. \<exists>ys. paginate (Some k) perPagePtr xs = Return ys \<and> int (length ys) \<le> p"
    using p by (auto simp: eq simp flip: assms(3))
  show "\<forall>k. k < 1 \<or> n < k \<longrightarrow> paginate (Some k) perPagePtr xs = Error (PageOutOfRange n k)"
    by (auto simp: eq simp flip: assms(3))
  have "map (\<lambda>k. case paginate (Some k) perPagePtr xs of Return ys \<Rightarrow> ys | _ \<Rightarrow> []) [1..n]
      = map (\<lambda>k. take (nat p) (drop (nat (k - 1) * nat p) xs)) [1..n]"
    by (rule map_cong) (auto simp: eq simp flip: assms(3))
  also have "\<dots> = map (\<lambda>k. take (nat p) (drop (k * nat p) xs)) [0..<nat n]"
    using n upto_shift [of "nat n"] by simp
  finally show "concat (map (\<lambda>k. case paginate (Some k) perPagePtr xs of Return ys \<Rightarrow> ys | _ \<Rightarrow> []) [1..n]) = xs"
    using page_count_enough [OF p(1), of xs] by (simp add: chunks assms(3))
  show "paginate None perPagePtr xs = paginate (Some 1) perPagePtr xs"
    using p n validatePage_eq [OF p(1) _ assms(1), of 1] assms(3)
    by (simp add: paginate_def validatePage_def Let_def flip: assms(2))
qed

theorem pages_partition_witness:
  "paginate (Some 2) (Some 2) [10, 20, 30 :: int] = Return [30]
    \<and> concat (map (\<lambda>k. case paginate (Some k) (Some 2) [10, 20, 30 :: int] of Return ys \<Rightarrow> ys | _ \<Rightarrow> []) [1..2])
      = [10, 20, 30]
    \<and> paginate (Some 3) (Some 2) [10, 20, 30 :: int] = Error (PageOutOfRange 2 3)"
proof -
  have p: "validatePerPage (Some 2) = 2" "page_count 2 (int (length [10, 20, 30 :: int])) = 2"
    by (simp_all add: validatePerPage_def maxPerPage_def page_count_def)
  have "int (length [10, 20, 30 :: int]) < 2 ^ 63" by simp
  note t = pages_partition [OF this p(1) [symmetric] p(2) [symmetric]]
  have "paginate (Some 2) (Some 2) [10, 20, 30 :: int] = Return [30]"
    by (simp add: paginate_def p(1) validatePage_def validateSkipCount_def page_of_def in64_def signed_divide_int_def sgn_if)
  with t show ?thesis by simp
qed

end
