(* ===== verification/Routes.thy ===== *)
theory Routes
  imports Chain Pagination "HOL-Library.Product_Lexorder"
begin

text \<open>
  The handlers of \<open>rpc_server/routes.go\<close> (and the query limit of \<open>websocket.go\<close>). A handler that
  returns a value together with a non-nil error is its error, which is what the RPC server sends. The block
  \<open>BroadcastTx\<close> starts in the background is a pending goroutine of the system; \<open>goroutine_step\<close> is the moment one of
  them runs.
\<close>

section \<open>Results\<close>

record result_validators =
  rv_BlockHeight :: int
  rv_Validators :: "validator list"
  rv_Count :: int
  rv_Total :: int

record result_block =
  rb_BlockID :: block_id
  rb_Block :: block

record result_commit =
  rc_Header :: header
  rc_Commit :: commit
  rc_CanonicalCommit :: bool

record result_consensus_params =
  rcp_BlockHeight :: int
  rcp_ConsensusParams :: consensus_params

record result_block_results =
  rbr_Height :: int
  rbr_TxsResults :: "bytes list"
  rbr_FinalizeBlockEvents :: "bytes list"
  rbr_ValidatorUpdates :: "validator_update list"
  rbr_ConsensusParamUpdates :: "bytes option"

record result_block_search =
  rbs_Blocks :: "result_block list"
  rbs_TotalCount :: int

record result_tx =
  rt_Hash :: bytes
  rt_Height :: int
  rt_Index :: int
  rt_TxResult :: bytes
  rt_Tx :: tx
  rt_Proof :: "bytes option"

record result_tx_search =
  rts_Txs :: "result_tx list"
  rts_TotalCount :: int

record result_broadcast_tx =
  rbt_Code :: int
  rbt_Data :: bytes
  rbt_Log :: string
  rbt_Hash :: bytes
  rbt_Codespace :: string

record result_broadcast_tx_commit =
  rbc_CheckTx :: response_check_tx
  rbc_Hash :: bytes
  rbc_Height :: int

record result_status =
  rs_NodeID :: string
  rs_Network :: string
  rs_P2P :: int
  rs_BlockVersion :: int
  rs_AppVersion :: int
  rs_LatestBlockHash :: bytes
  rs_LatestAppHash :: bytes
  rs_LatestBlockHeight :: int
  rs_LatestBlockTime :: time
  rs_ValidatorAddress :: bytes
  rs_ValidatorPubKey :: bytes
  rs_ValidatorPower :: int

section \<open>The CometMock routes\<close>

definition route_CauseLightClientAttack :: "'w env \<Rightarrow> string \<Rightarrow> string \<Rightarrow> ('w, unit) run" where
  "route_CauseLightClientAttack E privateKeyAddress misbehaviourType =
     CauseLightClientAttack E privateKeyAddress misbehaviourType"

definition route_CauseDoubleSign :: "'w env \<Rightarrow> string \<Rightarrow> ('w, unit) run" where
  "route_CauseDoubleSign E privateKeyAddress = CauseDoubleSign E privateKeyAddress"

definition route_AdvanceTime :: "'w env \<Rightarrow> duration \<Rightarrow> ('w, time) run" where
  "route_AdvanceTime E duration_in_seconds =
     (if duration_in_seconds < 0 then throw NegativeDuration
      else AdvanceTime E (i64 (duration_in_seconds * nano_second)))"

definition route_SetSigningStatus :: "string \<Rightarrow> string \<Rightarrow> ('w, string \<rightharpoonup> bool) run" where
  "route_SetSigningStatus privateKeyAddress status =
     (if status \<noteq> ''down'' \<and> status \<noteq> ''up'' then throw InvalidSigningStatus
      else bindP (attempt (SetSigningStatus privateKeyAddress (status = ''up''))) (\<lambda>err.
           bindP GetSigningStatusMap (\<lambda>m.
             case err of Inl e \<Rightarrow> throw e | Inr _ \<Rightarrow> ret m)))"

definition route_AdvanceBlocks :: "'w env \<Rightarrow> int \<Rightarrow> ('w, unit) run" where
  "route_AdvanceBlocks E numBlocks =
     (if numBlocks < 1 then throw NumBlocksNotPositive else RunEmptyBlocks E numBlocks)"

section \<open>Searches\<close>

text \<open>\<open>make([]T, 0, pageSize)\<close> panics on a negative size; then the indices of the page, one by one.\<close>

definition page_indices :: "int \<Rightarrow> int \<Rightarrow> int \<Rightarrow> int list go" where
  "page_indices totalCount skipCount perPage =
     (let pageSize = min perPage (i64 (totalCount - skipCount))
      in if pageSize < 0 then Panic (LibPanic ''makeslice: cap out of range'')
         else Return [skipCount..i64 (skipCount + pageSize) - 1])"

definition element :: "'a list \<Rightarrow> int \<Rightarrow> ('w, 'a) run" where
  "element xs i = (case (if i < 0 then None else at_index xs (nat i)) of
     None \<Rightarrow> panic IndexOutOfRange | Some x \<Rightarrow> ret x)"

text \<open>\<open>sort.Slice\<close> with the given order. Heights that are equal are the same value, so the result is determined.\<close>

definition order_blocks :: "string \<Rightarrow> int list \<Rightarrow> int list go" where
  "order_blocks orderBy results =
     (if orderBy = ''desc'' \<or> orderBy = '''' then Return (rev (sort results))
      else if orderBy = ''asc'' then Return (sort results)
      else Error InvalidOrderBy)"

definition route_BlockSearch ::
    "'w env \<Rightarrow> string \<Rightarrow> int option \<Rightarrow> int option \<Rightarrow> string \<Rightarrow> ('w, result_block_search) run" where
  "route_BlockSearch E query pagePtr perPagePtr orderBy =
     (case cmtquery_New E query of
        Inl err \<Rightarrow> throw (LibError err)
      | Inr q \<Rightarrow>
          bindP (gets world) (\<lambda>w.
          case BlockIndex_Search E q w of
            Inl err \<Rightarrow> throw (LibError err)
          | Inr found \<Rightarrow>
              bindP (lift_outcome (order_blocks orderBy found)) (\<lambda>results.
              let totalCount = int (length results); perPage = validatePerPage perPagePtr
              in bindP (lift_outcome (validatePage pagePtr perPage totalCount)) (\<lambda>page.
                 bindP (lift_outcome (page_indices totalCount (validateSkipCount page perPage) perPage)) (\<lambda>indices.
                 bindP (collect (\<lambda>i.
                     bindP (element results i) (\<lambda>height.
                     bindP (in_storage (GetBlock height)) (\<lambda>block.
                     bindP (lift_outcome (GetBlockIdFromBlock E block)) (\<lambda>blockId.
                     ret \<lparr>rb_BlockID = blockId, rb_Block = block\<rparr>)))) indices) (\<lambda>apiResults.
                 ret \<lparr>rbs_Blocks = apiResults, rbs_TotalCount = totalCount\<rparr>))))))"

text \<open>The proof is the zero value when none is asked for; an index out of range panics inside the library.\<close>

definition tx_proof :: "'w env \<Rightarrow> bool \<Rightarrow> tx_result \<Rightarrow> ('w, bytes option) run" where
  "tx_proof E prove r =
     (if prove then
        bindP (in_storage (GetBlock (tr_Height r))) (\<lambda>block.
        bindP (or_panic (txs_Proof E (blk_Txs block) (tr_Index r))) (\<lambda>proof.
        ret (Some proof)))
      else ret None)"

definition route_Tx :: "'w env \<Rightarrow> bytes \<Rightarrow> bool \<Rightarrow> ('w, result_tx) run" where
  "route_Tx E hash prove =
     bindP (gets world) (\<lambda>w.
       case TxIndex_Get E hash w of
         Inl err \<Rightarrow> throw (LibError err)
       | Inr None \<Rightarrow> throw (TxNotFound hash)
       | Inr (Some r) \<Rightarrow>
           bindP (tx_proof E prove r) (\<lambda>proof.
           ret \<lparr>rt_Hash = hash, rt_Height = tr_Height r, rt_Index = tr_Index r, rt_TxResult = tr_Result r,
             rt_Tx = tr_Tx r, rt_Proof = proof\<rparr>))"

definition maxQueryLength :: nat where "maxQueryLength = 512"

text \<open>
  Ordered by height and, within a height, by index; two results never have both the same, since a position in
  a block holds one transaction.
\<close>

definition order_txs :: "string \<Rightarrow> tx_result list \<Rightarrow> tx_result list go" where
  "order_txs orderBy results =
     (let key = (\<lambda>r. (tr_Height r, tr_Index r))
      in if orderBy = ''desc'' then Return (rev (sort_key key results))
         else if orderBy = ''asc'' \<or> orderBy = '''' then Return (sort_key key results)
         else Error InvalidOrderBy)"

definition route_TxSearch ::
    "'w env \<Rightarrow> string \<Rightarrow> bool \<Rightarrow> int option \<Rightarrow> int option \<Rightarrow> string \<Rightarrow> ('w, result_tx_search) run" where
  "route_TxSearch E query prove pagePtr perPagePtr orderBy =
     (if length query > maxQueryLength then throw QueryTooLong
      else case cmtquery_New E query of
        Inl err \<Rightarrow> throw (LibError err)
      | Inr q \<Rightarrow>
          bindP (gets world) (\<lambda>w.
          case TxIndex_Search E q w of
            Inl err \<Rightarrow> throw (LibError err)
          | Inr found \<Rightarrow>
              bindP (lift_outcome (order_txs orderBy found)) (\<lambda>results.
              let totalCount = int (length results); perPage = validatePerPage perPagePtr
              in bindP (lift_outcome (validatePage pagePtr perPage totalCount)) (\<lambda>page.
                 bindP (lift_outcome (page_indices totalCount (validateSkipCount page perPage) perPage)) (\<lambda>indices.
                 bindP (collect (\<lambda>i.
                     bindP (element results i) (\<lambda>r.
                     bindP (tx_proof E prove r) (\<lambda>proof.
                     ret \<lparr>rt_Hash = tx_Hash E (tr_Tx r), rt_Height = tr_Height r, rt_Index = tr_Index r,
                       rt_TxResult = tr_Result r, rt_Tx = tr_Tx r, rt_Proof = proof\<rparr>))) indices) (\<lambda>apiResults.
                 ret \<lparr>rts_Txs = apiResults, rts_TotalCount = totalCount\<rparr>))))))"

section \<open>Queries by height\<close>

definition requested_height :: "int option \<Rightarrow> ('w, int) run" where
  "requested_height heightPtr =
     bindP (get_client (\<lambda>a. hd_Height (blk_Header (LastBlock a)))) (\<lambda>latest.
     lift_outcome (getHeight latest heightPtr))"

definition route_Commit :: "int option \<Rightarrow> ('w, result_commit) run" where
  "route_Commit heightPtr =
     bindP (requested_height heightPtr) (\<lambda>height.
     bindP (in_storage (GetCommit height)) (\<lambda>commit.
     bindP (in_storage (GetBlock height)) (\<lambda>block.
     ret \<lparr>rc_Header = blk_Header block, rc_Commit = commit, rc_CanonicalCommit = True\<rparr>)))"

definition route_ConsensusParams :: "int option \<Rightarrow> ('w, result_consensus_params) run" where
  "route_ConsensusParams heightPtr =
     bindP (requested_height heightPtr) (\<lambda>height.
     bindP (in_storage (GetState height)) (\<lambda>stateForHeight.
     ret \<lparr>rcp_BlockHeight = height, rcp_ConsensusParams = st_ConsensusParams stateForHeight\<rparr>))"

definition route_Status :: "'w env \<Rightarrow> ('w, result_status) run" where
  "route_Status E =
     bindP (get_client CurState) (\<lambda>curState.
     bindP (get_client LastBlock) (\<lambda>lastBlock.
       case vs_Validators (st_Validators curState) of
         [] \<Rightarrow> panic IndexOutOfRange
       | validator # _ \<Rightarrow>
           ret \<lparr>rs_NodeID = PubKeyToID E (val_PubKey validator), rs_Network = st_ChainID curState,
             rs_P2P = P2PProtocol E, rs_BlockVersion = ver_ConsensusBlock (st_Version curState),
             rs_AppVersion = ver_ConsensusApp (st_Version curState),
             rs_LatestBlockHash = block_Hash E lastBlock, rs_LatestAppHash = hd_AppHash (blk_Header lastBlock),
             rs_LatestBlockHeight = hd_Height (blk_Header lastBlock),
             rs_LatestBlockTime = st_LastBlockTime curState,
             rs_ValidatorAddress = val_Address validator, rs_ValidatorPubKey = val_PubKey validator,
             rs_ValidatorPower = val_VotingPower validator\<rparr>))"

definition route_Health :: "('w, unit) run" where
  "route_Health = ret ()"

definition route_Validators ::
    "int option \<Rightarrow> int option \<Rightarrow> int option \<Rightarrow> ('w, result_validators) run" where
  "route_Validators heightPtr pagePtr perPagePtr =
     bindP (requested_height heightPtr) (\<lambda>height.
     bindP (in_storage (GetState height)) (\<lambda>pastState.
     let validators = vs_Validators (st_Validators pastState);
         totalCount = int (length validators); perPage = validatePerPage perPagePtr
     in bindP (lift_outcome (validatePage pagePtr perPage totalCount)) (\<lambda>page.
        bindP (lift_outcome (page_of validators (validateSkipCount page perPage) perPage)) (\<lambda>v.
        ret \<lparr>rv_BlockHeight = height, rv_Validators = v, rv_Count = int (length v), rv_Total = totalCount\<rparr>))))"

definition route_Block :: "'w env \<Rightarrow> int option \<Rightarrow> ('w, result_block) run" where
  "route_Block E heightPtr =
     bindP (requested_height heightPtr) (\<lambda>height.
     bindP (in_storage (GetBlock height)) (\<lambda>block.
     bindP (lift_outcome (GetBlockIdFromBlock E block)) (\<lambda>blockID.
     ret \<lparr>rb_BlockID = blockID, rb_Block = block\<rparr>)))"

definition route_BlockResults :: "int option \<Rightarrow> ('w, result_block_results) run" where
  "route_BlockResults heightPtr =
     bindP (requested_height heightPtr) (\<lambda>height.
     bindP (in_storage (GetResponses height)) (\<lambda>results.
     ret \<lparr>rbr_Height = height, rbr_TxsResults = rsf_TxResults results,
       rbr_FinalizeBlockEvents = rsf_Events results, rbr_ValidatorUpdates = rsf_ValidatorUpdates results,
       rbr_ConsensusParamUpdates = rsf_ConsensusParamUpdates results\<rparr>))"

section \<open>Transactions and ABCI\<close>

definition route_BroadcastTxCommit :: "tx \<Rightarrow> ('w, unit) run" where
  "route_BroadcastTxCommit tx = throw BroadcastTxCommitUnsupported"

definition BroadcastTx :: "'w env \<Rightarrow> tx \<Rightarrow> ('w, result_broadcast_tx_commit) run" where
  "BroadcastTx E tx =
     bindP (SendCheckTx E CheckTxType_New tx) (\<lambda>checkTxResponse.
     seqP (QueueTx tx)
    (bindP (get_client AutoIncludeTx) (\<lambda>autoInclude.
     seqP (if autoInclude then modify (\<lambda>s. s\<lparr>goroutines := Suc (goroutines s)\<rparr>) else ret ())
    (bindP (get_client (\<lambda>a. st_LastBlockHeight (CurState a))) (\<lambda>height.
     ret \<lparr>rbc_CheckTx = checkTxResponse, rbc_Hash = tx_Hash E tx, rbc_Height = height\<rparr>)))))"

definition route_BroadcastTxSync :: "'w env \<Rightarrow> tx \<Rightarrow> ('w, result_broadcast_tx) run" where
  "route_BroadcastTxSync E tx =
     bindP (BroadcastTx E tx) (\<lambda>res.
     ret \<lparr>rbt_Code = rsc_Code (rbc_CheckTx res), rbt_Data = rsc_Data (rbc_CheckTx res),
       rbt_Log = rsc_Log (rbc_CheckTx res), rbt_Hash = rbc_Hash res,
       rbt_Codespace = rsc_Codespace (rbc_CheckTx res)\<rparr>)"

definition route_BroadcastTxAsync :: "'w env \<Rightarrow> tx \<Rightarrow> ('w, result_broadcast_tx) run" where
  "route_BroadcastTxAsync E tx =
     seqP (BroadcastTx E tx)
       (ret \<lparr>rbt_Code = 0, rbt_Data = [], rbt_Log = [], rbt_Hash = [], rbt_Codespace = []\<rparr>)"

text \<open>One of the goroutines of \<open>BroadcastTx\<close> runs; the error of its block is dropped.\<close>

definition goroutine_step :: "'w env \<Rightarrow> ('w, unit) run" where
  "goroutine_step E =
     bindP (gets goroutines) (\<lambda>n.
       case n of
         0 \<Rightarrow> ret ()
       | Suc m \<Rightarrow> seqP (modify (\<lambda>s. s\<lparr>goroutines := m\<rparr>))
           (bindP (attempt (RunBlock E)) (\<lambda>_. ret ())))"

text \<open>The response is dereferenced although it is nil when there is an error.\<close>

definition route_ABCIInfo :: "'w env \<Rightarrow> ('w, response_info) run" where
  "route_ABCIInfo E =
     bindP (attempt (SendAbciInfo E)) (\<lambda>r.
       case r of Inl err \<Rightarrow> panic NilDereference | Inr response \<Rightarrow> ret response)"

definition route_ABCIQuery :: "'w env \<Rightarrow> string \<Rightarrow> bytes \<Rightarrow> int \<Rightarrow> bool \<Rightarrow> ('w, response_query) run" where
  "route_ABCIQuery E path data height prove = SendAbciQuery E data path height prove"

end
