(* ===== verification/Startup.thy ===== *)
theory Startup
  imports Downtime Routes "HOL-Library.AList"
begin

text \<open>
  \<open>cometmock/main.go\<close>: from the command line to the first block and the production of blocks. The command-line library has
  parsed the flags (a record) and the positional arguments (a list); the files are read by the functions of the
  record \<open>loader\<close>. \<open>panic(err)\<close> is the panic \<open>FatalError\<close>; a library function that ends the process is a
  panic of the library.
\<close>

section \<open>Parameters\<close>

record loader =
  LoadFilePV :: "string \<Rightarrow> string \<Rightarrow> string + string"
  NewMockPVWithParams :: "string \<Rightarrow> string"
  AppGenesisFromFile :: "string \<Rightarrow> string + bytes"
  ToGenesisDoc :: "bytes option \<Rightarrow> (genesis_doc, string, string) outcome"
  MakeGenesisState :: "genesis_doc \<Rightarrow> string + comet_state"
  NewClient :: "string \<Rightarrow> string \<Rightarrow> string"

record flags =
  fl_block_time :: int
  fl_auto_tx :: bool
  fl_block_production_interval :: int
  fl_starting_timestamp :: int
  fl_starting_timestamp_from_genesis :: bool

section \<open>Reading the arguments\<close>

text \<open>\<open>strings.Split(s, ",")\<close>\<close>

fun split_comma :: "string \<Rightarrow> string list" where
  "split_comma [] = [[]]"
| "split_comma (c # cs) =
     (if c = CHR 0x2C then [] # split_comma cs
      else case split_comma cs of [] \<Rightarrow> [[c]] | w # ws \<Rightarrow> (c # w) # ws)"

fun GetMockPVsFromNodeHomes :: "loader \<Rightarrow> string list \<Rightarrow> string list go" where
  "GetMockPVsFromNodeHomes L [] = Return []"
| "GetMockPVsFromNodeHomes L (nodeHome # nodeHomes) =
     (case LoadFilePV L (nodeHome @ ''/config/priv_validator_key.json'')
             (nodeHome @ ''/data/priv_validator_state.json'') of
        Inl msg \<Rightarrow> Panic (LibPanic msg)
      | Inr key \<Rightarrow> bindO (GetMockPVsFromNodeHomes L nodeHomes) (\<lambda>mockPVs.
          Return (NewMockPVWithParams L key # mockPVs)))"

text \<open>An error of reading the genesis file is only logged; what follows gets a nil genesis.\<close>

definition read_genesis :: "loader \<Rightarrow> string \<Rightarrow> (genesis_doc \<times> comet_state) go" where
  "read_genesis L genesisFile =
     (let appGenesis = (case AppGenesisFromFile L genesisFile of Inl err \<Rightarrow> None | Inr g \<Rightarrow> Some g)
      in case ToGenesisDoc L appGenesis of
           Error err \<Rightarrow> Panic (FatalError (LibError err))
         | Panic p \<Rightarrow> Panic (LibPanic p)
         | Blocked \<Rightarrow> Blocked
         | Return genesisDoc \<Rightarrow>
             (case MakeGenesisState L genesisDoc of
                Inl err \<Rightarrow> Panic (FatalError (LibError err))
              | Inr curState \<Rightarrow> Return (genesisDoc, curState)))"

definition now :: "'w env \<Rightarrow> ('w, time, go_error, go_panic) prog" where
  "now E = (\<lambda>w. case time_Now E w of (t, w') \<Rightarrow> (Return t, w'))"

definition starting_time :: "'w env \<Rightarrow> flags \<Rightarrow> genesis_doc \<Rightarrow> ('w, time, go_error, go_panic) prog" where
  "starting_time E F genesisDoc =
     (if fl_starting_timestamp_from_genesis F then ret (gd_GenesisTime genesisDoc)
      else if fl_starting_timestamp F < 0 then now E
      else ret (time_Add 0 (i64 (fl_starting_timestamp F * nano_millisecond))))"

fun connect_clients ::
    "'w env \<Rightarrow> loader \<Rightarrow> string \<Rightarrow> string list \<Rightarrow> nat \<Rightarrow> string list \<Rightarrow> (string \<times> counterparty) list
      \<Rightarrow> (string \<times> counterparty) list go" where
  "connect_clients E L mode privVals i [] clientMap = Return clientMap"
| "connect_clients E L mode privVals i (appAddress # appAddresses) clientMap =
     (case at_index privVals i of
        None \<Rightarrow> Panic IndexOutOfRange
      | Some privVal \<Rightarrow>
         (case pv_GetPubKey E privVal of
            Inl err \<Rightarrow> Panic (FatalError (LibError err))
          | Inr pubkey \<Rightarrow>
             (let validatorAddress = addr_String E (pk_Address E pubkey)
              in connect_clients E L mode privVals (Suc i) appAddresses
                   (AList.update validatorAddress
                     (NewAbciCounterpartyClient (NewClient L mode appAddress) appAddress validatorAddress privVal)
                     clientMap))))"

definition new_time_handler :: "'w env \<Rightarrow> time \<Rightarrow> duration \<Rightarrow> ('w, time_handler, go_error, go_panic) prog" where
  "new_time_handler E startingTime blockTime =
     (if blockTime < 0
      then bindP (now E) (\<lambda>t. ret (SystemClockTimeHandler (NewSystemClockTimeHandler t startingTime)))
      else ret (FixedBlockTimeHandler (NewFixedBlockTimeHandler blockTime)))"

section \<open>The command\<close>

text \<open>The zero values \<open>types.Block{}\<close> and \<open>types.ExtendedCommit{}\<close>.\<close>

definition zero_block :: block where
  "zero_block =
     \<lparr>blk_Header = \<lparr>hd_Height = 0, hd_Time = zero_time, hd_AppHash = [], hd_ProposerAddress = [],
        hd_NextValidatorsHash = [], hd_other = []\<rparr>,
      blk_Txs = [], blk_Evidence = [], blk_LastCommit = None\<rparr>"

definition zero_ext_commit :: ext_commit where
  "zero_ext_commit =
     \<lparr>ec_Height = 0, ec_Round = 0, ec_BlockID = \<lparr>bid_Hash = [], bid_PartSetHeader = []\<rparr>,
      ec_ExtendedSignatures = []\<rparr>"

record started =
  sd_client :: abci_client
  sd_state :: comet_state
  sd_genesis :: genesis_doc
  sd_starting_time :: time
  sd_block_time :: duration

definition main_setup :: "'w env \<Rightarrow> loader \<Rightarrow> flags \<Rightarrow> string list \<Rightarrow> ('w, started, go_error, go_panic) prog" where
  "main_setup E L F args =
     (case args of
        a0 # genesisFile # listenAddress # nodeHomesString # connectionMode # _ \<Rightarrow>
          (let appAddresses = split_comma a0 in
           if connectionMode \<noteq> ''socket'' \<and> connectionMode \<noteq> ''grpc''
           then throw (InvalidConnectionMode connectionMode)
           else
             bindP (lift_outcome (GetMockPVsFromNodeHomes L (split_comma nodeHomesString))) (\<lambda>privVals.
             bindP (lift_outcome (read_genesis L genesisFile)) (\<lambda>(genesisDoc, curState).
             bindP (starting_time E F genesisDoc) (\<lambda>startingTime.
             let blockTime = i64 (fl_block_time F * nano_millisecond)
             in bindP (lift_outcome (connect_clients E L connectionMode privVals 0 appAddresses [])) (\<lambda>clientMap.
                bindP (new_time_handler E startingTime blockTime) (\<lambda>timeHandler.
                bindP (lift_outcome (NewAbciClient E clientMap curState zero_block zero_ext_commit empty_MapStorage
                         timeHandler True)) (\<lambda>globalClient.
                ret \<lparr>sd_client = globalClient\<lparr>AutoIncludeTx := fl_auto_tx F\<rparr>, sd_state = curState,
                  sd_genesis = genesisDoc, sd_starting_time = startingTime, sd_block_time = blockTime\<rparr>)))))))
      | _ \<Rightarrow> throw NotEnoughArguments)"

definition first_block_time :: "time \<Rightarrow> duration \<Rightarrow> time" where
  "first_block_time startingTime blockTime =
     (if blockTime < 0 then startingTime else time_Add startingTime blockTime)"

text \<open>\<open>if err != nil { panic(err) }\<close>\<close>

definition fatal :: "('w, 'a) run \<Rightarrow> ('w, 'a) run" where
  "fatal m = bindP (attempt m) (\<lambda>r. case r of Inl err \<Rightarrow> panic (FatalError err) | Inr a \<Rightarrow> ret a)"

definition main_init :: "'w env \<Rightarrow> started \<Rightarrow> ('w, unit) run" where
  "main_init E d =
     seqP (fatal (SendInitChain E (sd_state d) (sd_genesis d)))
       (fatal (RunBlockWithTime E (first_block_time (sd_starting_time d) (sd_block_time d))))"

text \<open>The first \<open>n\<close> rounds of the loop that produces blocks; without an interval the process only waits.\<close>

definition main_produce :: "'w env \<Rightarrow> flags \<Rightarrow> nat \<Rightarrow> ('w, unit) run" where
  "main_produce E F n =
     (if 0 < fl_block_production_interval F then foreach (\<lambda>_. fatal (RunBlock E)) [0..<n] else ret ())"

definition initial_sys :: "abci_client \<Rightarrow> 'w \<Rightarrow> 'w sys" where
  "initial_sys a w = \<lparr>client = a, blockMutex = False, goroutines = 0, published = [], abci_log = [], world = w\<rparr>"

definition main_start ::
    "'w env \<Rightarrow> loader \<Rightarrow> flags \<Rightarrow> string list \<Rightarrow> 'w \<Rightarrow> unit go \<times> 'w sys option" where
  "main_start E L F args w =
     (case main_setup E L F args w of
        (Return d, w') \<Rightarrow> (case main_init E d (initial_sys (sd_client d) w') of (r, s) \<Rightarrow> (r, Some s))
      | (Error e, _) \<Rightarrow> (Error e, None)
      | (Panic p, _) \<Rightarrow> (Panic p, None)
      | (Blocked, _) \<Rightarrow> (Blocked, None))"

section \<open>Lemmas: the set-up\<close>

definition keyed :: "(string \<times> counterparty) list \<Rightarrow> bool" where
  "keyed m \<longleftrightarrow> distinct (map fst m) \<and> (\<forall>(k, c) \<in> set m. acc_ValidatorAddress c = k)"

lemma keyed_update: "keyed m \<Longrightarrow> acc_ValidatorAddress c = k \<Longrightarrow> keyed (AList.update k c m)"
proof -
  assume m: "keyed m" "acc_ValidatorAddress c = k"
  have "acc_ValidatorAddress d = j" if "(j, d) \<in> set (AList.update k c m)" for j d
  proof -
    have "map_of (AList.update k c m) j = Some d"
      using that m(1) by (simp add: keyed_def distinct_update)
    then have "j = k \<and> d = c \<or> map_of m j = Some d" by (auto simp: update_conv' split: if_splits)
    then show ?thesis using m by (auto simp: keyed_def dest: map_of_SomeD)
  qed
  then show ?thesis using m(1) by (auto simp: keyed_def distinct_update)
qed

lemma connect_clients_keyed:
  "connect_clients E L mode pvs i as m = Return m' \<Longrightarrow> keyed m \<Longrightarrow> keyed m'"
proof (induction as arbitrary: i m)
  case (Cons a as)
  obtain pv pk where "at_index pvs i = Some pv" "pv_GetPubKey E pv = Inr pk"
    using Cons.prems(1) by (auto split: option.splits sum.splits)
  then show ?case
    using Cons.prems by (simp add: Let_def) (erule Cons.IH, auto simp: NewAbciCounterpartyClient_def intro: keyed_update)
qed simp

text \<open>The time the flags ask the chain to start at, when the clock shows \<open>t\<close>.\<close>

definition start_at :: "flags \<Rightarrow> genesis_doc \<Rightarrow> time \<Rightarrow> time" where
  "start_at F doc t = (if fl_starting_timestamp_from_genesis F then gd_GenesisTime doc
     else if fl_starting_timestamp F < 0 then t else i64 (fl_starting_timestamp F * nano_millisecond))"

lemma main_setup_Return:
  assumes "main_setup E L F args w = (Return d, w')"
  obtains cs th where "read_genesis L (args ! 1) = Return (sd_genesis d, sd_state d)"
    "sd_starting_time d = start_at F (sd_genesis d) (fst (time_Now E w))"
    "sd_block_time d = i64 (fl_block_time F * nano_millisecond)"
    "sd_client d = \<lparr>Clients = cs, CurState = sd_state d, LastBlock = zero_block, LastCommit = zero_ext_commit,
       Storage = empty_MapStorage, ErrorOnUnequalResponses = True,
       signingStatus = (\<lambda>addr. if addr \<in> set (map fst cs) then Some True else None), TimeHandler = th,
       AutoIncludeTx = fl_auto_tx F, FreshTxQueue = [], StaleTxQueue = []\<rparr>"
    "keyed cs" "0 \<le> sd_block_time d \<longrightarrow> th = FixedBlockTimeHandler (NewFixedBlockTimeHandler (sd_block_time d))"
    "sd_block_time d < 0 \<longrightarrow> (\<exists>d. th = SystemClockTimeHandler \<lparr>sc_curOffset = d\<rparr> \<and> in64 d)"
proof -
  obtain a0 gf la nh mode rest where args: "args = a0 # gf # la # nh # mode # rest"
    using assms unfolding main_setup_def by (auto split: list.splits)
  obtain pvs doc st t w1 cs th w2 a where
    r: "read_genesis L gf = Return (doc, st)" "starting_time E F doc w = (Return t, w1)"
      "connect_clients E L mode pvs 0 (split_comma a0) [] = Return cs"
      "new_time_handler E t (i64 (fl_block_time F * nano_millisecond)) w1 = (Return th, w2)"
      "NewAbciClient E cs st zero_block zero_ext_commit empty_MapStorage th True = Return a"
    and d: "d = \<lparr>sd_client = a\<lparr>AutoIncludeTx := fl_auto_tx F\<rparr>, sd_state = st, sd_genesis = doc,
      sd_starting_time = t, sd_block_time = i64 (fl_block_time F * nano_millisecond)\<rparr>"
    using assms unfolding main_setup_def args
    by (auto simp: Let_def elim!: bindP_ReturnE split: if_splits)
  have "t = start_at F doc (fst (time_Now E w))"
    using r(2) by (auto simp: starting_time_def start_at_def now_def time_Add_def split: if_splits prod.splits)
  moreover have "keyed cs" by (rule connect_clients_keyed [OF r(3)]) (simp add: keyed_def)
  moreover have "0 \<le> sd_block_time d \<longrightarrow> th = FixedBlockTimeHandler (NewFixedBlockTimeHandler (sd_block_time d))"
    "sd_block_time d < 0 \<longrightarrow> (\<exists>d. th = SystemClockTimeHandler \<lparr>sc_curOffset = d\<rparr> \<and> in64 d)"
    using r(4) by (auto simp: d new_time_handler_def NewSystemClockTimeHandler_def time_Sub_def elim!: bindP_ReturnE)
  ultimately show thesis
    using r(1,5) by (intro that [of cs th]) (auto simp: args d NewAbciClient_def split: option.splits)
qed

lemma fatal_Return_iff: "fatal m s = (Return a, t) \<longleftrightarrow> m s = (Return a, t)"
  by (auto simp: fatal_def bindP_Return_iff attempt_Inr_iff split: sum.splits) (metis attempt_Inr_iff old.sum.exhaust)

section \<open>Lemmas: InitChain\<close>

text \<open>What InitChain can change of the chain state.\<close>

definition from_init :: "comet_state \<Rightarrow> comet_state \<Rightarrow> bool" where
  "from_init st st' \<longleftrightarrow> st_LastBlockHeight st' = st_LastBlockHeight st \<and> st_InitialHeight st' = st_InitialHeight st"

lemma init_validators_Return:
  assumes "init_validators E res s = (Return (), t)" "rsi_Validators res \<noteq> []"
  obtains vals vs nxt where "PB2TM_ValidatorUpdates E (rsi_Validators res) = Inr vals" "NewValidatorSet E vals = Inr vs"
    "CopyIncrementProposerPriority E vs 1 = Inr nxt"
    "t = s\<lparr>client := (client s)\<lparr>CurState := (CurState (client s))\<lparr>st_LastValidators := vs, st_Validators := vs,
       st_NextValidators := nxt\<rparr>\<rparr>\<rparr>"
proof -
  note d = assms [unfolded init_validators_def]
  obtain vals where v: "PB2TM_ValidatorUpdates E (rsi_Validators res) = Inr vals" using d by (auto split: sum.splits)
  obtain vs where n: "NewValidatorSet E vals = Inr vs"
    using d by (cases "NewValidatorSet E vals") (auto simp: v run_bindP or_panic_def)
  obtain nxt where x: "CopyIncrementProposerPriority E vs 1 = Inr nxt"
    using d
    by (cases "CopyIncrementProposerPriority E vs 1") (auto simp: v n run_bindP run_seqP or_panic_def upd_state_def)
  show thesis using that [OF v n x] d by (simp add: v n x run_bindP run_seqP or_panic_def upd_state_def)
qed

lemma UpdateStateFromInit_Return:
  assumes "UpdateStateFromInit E res s = (Return (), t)"
  obtains st where "t = s\<lparr>client := (client s)\<lparr>CurState := st\<rparr>\<rparr>" "from_init (CurState (client s)) st"
    "rsi_Validators res = [] \<Longrightarrow> st_Validators st = st_Validators (CurState (client s))
       \<and> st_LastValidators st = st_LastValidators (CurState (client s))"
    "rsi_Validators res \<noteq> [] \<Longrightarrow> \<exists>vs set. PB2TM_ValidatorUpdates E (rsi_Validators res) = Inr vs
       \<and> NewValidatorSet E vs = Inr set \<and> st_Validators st = set \<and> st_LastValidators st = set"
proof -
  obtain u v w where steps:
    "(if rsi_AppHash res \<noteq> [] then upd_state (\<lambda>st. st\<lparr>st_AppHash := rsi_AppHash res\<rparr>) else ret ()) s = (Return (), u)"
    "init_validators E res u = (Return (), v)" "init_params E res v = (Return (), w)"
    "upd_state (\<lambda>st. st\<lparr>st_LastResultsHash := HashFromByteSlices_nil E\<rparr>) w = (Return (), t)"
    using assms unfolding UpdateStateFromInit_def by (auto elim!: seqP_ReturnE)
  have 1: "\<exists>st. u = s\<lparr>client := (client s)\<lparr>CurState := st\<rparr>\<rparr> \<and> from_init (CurState (client s)) st
      \<and> st_Validators st = st_Validators (CurState (client s)) \<and> st_LastValidators st = st_LastValidators (CurState (client s))"
    using steps(1) by (auto simp: upd_state_def from_init_def split: if_splits intro: exI [of _ "CurState (client s)"])
  have 3: "\<exists>st. t = v\<lparr>client := (client v)\<lparr>CurState := st\<rparr>\<rparr> \<and> from_init (CurState (client v)) st
      \<and> st_Validators st = st_Validators (CurState (client v)) \<and> st_LastValidators st = st_LastValidators (CurState (client v))"
    using steps(3,4) by (auto simp: init_params_def upd_state_def from_init_def run_seqP split: option.splits)
  show thesis
  proof (cases "rsi_Validators res = []")
    case True
    then have "v = u" using steps(2) by (simp add: init_validators_def)
    then show thesis using True 1 3 that by (auto simp: from_init_def)
  next
    case False
    show thesis
      by (rule init_validators_Return [OF steps(2) False]) (use False 1 3 that in \<open>auto simp: from_init_def\<close>)
  qed
qed

interpretation init_call: fan_out E
    "broadcast E (\<lambda>c. call (CallInitChain (acc_Client c) req) (app_InitChain E (acc_Client c) req))"
    "\<lambda>c. CallInitChain (acc_Client c) req" for E :: "'w env" and req
  by (rule broadcast_fan_out)

lemma init_answer:
  assumes "broadcast E (\<lambda>c. call (CallInitChain (acc_Client c) req) (app_InitChain E (acc_Client c) req)) s = (Return res, u)"
  obtains c w where "fst (app_InitChain E c req w) = Inr res"
proof -
  obtain cs v rs where "collect (\<lambda>c :: counterparty. call (CallInitChain (acc_Client c) req) (app_InitChain E (acc_Client c) req)) cs v = (Return (res # rs), u)"
    using assms unfolding broadcast_Return_iff by blast
  then obtain x :: counterparty and y z where "call (CallInitChain (acc_Client x) req) (app_InitChain E (acc_Client x) req) y = (Return res, z)"
    by (rule collect_first) blast
  then have "fst (app_InitChain E (acc_Client x) req (world y)) = Inr res" by (rule call_Return)
  then show thesis by (rule that)
qed

lemma SendInitChain_Return:
  assumes "SendInitChain E st0 doc s = (Return (), t)"
  obtains res st c req w where "fst (app_InitChain E c req w) = Inr res"
    "core t = ((client s)\<lparr>CurState := st\<rparr>, blockMutex s, goroutines s, published s)"
    "from_init (CurState (client s)) st"
    "rsi_Validators res = [] \<Longrightarrow> st_Validators st = st_Validators (CurState (client s))
       \<and> st_LastValidators st = st_LastValidators (CurState (client s))"
    "rsi_Validators res \<noteq> [] \<Longrightarrow> \<exists>vs set. PB2TM_ValidatorUpdates E (rsi_Validators res) = Inr vs
       \<and> NewValidatorSet E vs = Inr set \<and> st_Validators st = set \<and> st_LastValidators st = set"
proof -
  obtain req res u where b: "broadcast E (\<lambda>c. call (CallInitChain (acc_Client c) req) (app_InitChain E (acc_Client c) req)) s = (Return res, u)"
    and up: "UpdateStateFromInit E res u = (Return (), t)"
    using assms unfolding SendInitChain_def by (auto elim!: bindP_ReturnE)
  have u: "core u = core s" using b by (rule init_call.core_unchanged)
  obtain c w where app: "fst (app_InitChain E c req w) = Inr res" by (rule init_answer [OF b])
  show thesis
    by (rule UpdateStateFromInit_Return [OF up], rule that [OF app]) (use u in \<open>auto simp: core_def\<close>)
qed

text \<open>
  Documented behaviour of the library: the genesis state is at height 0 and has no last validators, and so no last
  proposer; a set made of validators is not empty.
\<close>

definition genesis_states :: "loader \<Rightarrow> bool" where
  "genesis_states L \<longleftrightarrow> (\<forall>doc st. MakeGenesisState L doc = Inr st \<longrightarrow>
     st_LastBlockHeight st = 0 \<and> vs_Proposer (st_LastValidators st) = None)"

definition makes_valsets :: "'w env \<Rightarrow> bool" where
  "makes_valsets E \<longleftrightarrow> (\<forall>ups vals. PB2TM_ValidatorUpdates E ups = Inr vals \<longrightarrow> length vals = length ups)
     \<and> (\<forall>vals vs. NewValidatorSet E vals = Inr vs \<and> vals \<noteq> [] \<longrightarrow> vs_Validators vs \<noteq> [])"

text \<open>A start that returns: the set-up, InitChain and the first block.\<close>

lemma main_start_Return:
  assumes "main_start E L F args w = (Return (), Some s)"
  obtains d w' u where "main_setup E L F args w = (Return d, w')"
    "SendInitChain E (sd_state d) (sd_genesis d) (initial_sys (sd_client d) w') = (Return (), u)"
    "RunBlockWithTimeAndProposer E (first_block_time (sd_starting_time d) (sd_block_time d))
       (vs_Proposer (st_LastValidators (CurState (client u)))) [] u = (Return (), s)"
proof -
  obtain d w' where d: "main_setup E L F args w = (Return d, w')"
    and i: "main_init E d (initial_sys (sd_client d) w') = (Return (), s)"
    using assms unfolding main_start_def by (auto split: prod.splits outcome.splits)
  then obtain u where "SendInitChain E (sd_state d) (sd_genesis d) (initial_sys (sd_client d) w') = (Return (), u)"
    "RunBlockWithTime E (first_block_time (sd_starting_time d) (sd_block_time d)) u = (Return (), s)"
    unfolding main_init_def by (auto simp: fatal_Return_iff elim!: seqP_ReturnE)
  then show thesis using that d by (simp add: RunBlockWithTime_def last_proposer_def run_bindP)
qed

lemma read_genesis_state:
  "read_genesis L f = Return (doc, st) \<Longrightarrow> MakeGenesisState L doc = Inr st"
  by (auto simp: read_genesis_def Let_def split: outcome.splits sum.splits)

lemma RunBlock_AutoIncludeTx:
  assumes "makes_blocks E" "RunBlockWithTimeAndProposer E t p misb s = (Return (), s')"
  shows "AutoIncludeTx (client s') = AutoIncludeTx (client s)"
proof -
  obtain u where h: "runBlock_helper E t p misb (s\<lparr>blockMutex := True\<rparr>) = (Return (), u)" and s': "s' = u\<lparr>blockMutex := False\<rparr>"
    using assms(2) by (auto simp: RunBlock_Return_iff)
  show ?thesis
    using assms(1) h
  proof (rule helper_success, goal_cases)
    case (1 v b votes vos ec lci res bid ups st s9)
    then show ?case using frameD(8) [OF 1(10)] by (simp add: s' core_def finalized_def)
  qed
qed

lemma start_before_block:
  assumes "main_setup E L F args w = (Return d, w')"
    and "SendInitChain E (sd_state d) (sd_genesis d) (initial_sys (sd_client d) w') = (Return (), u)"
  obtains st where "client u = (sd_client d)\<lparr>CurState := st\<rparr>" "from_init (sd_state d) st"
    "\<not> stateUpdateMutex (Storage (client u))" "ms_wf (Storage (client u))" "ms_entries (Storage (client u)) = Map.empty"
    "LastCommit (client u) = zero_ext_commit" "clients_wf (client u)"
proof -
  obtain cs th where c: "sd_client d = \<lparr>Clients = cs, CurState = sd_state d, LastBlock = zero_block, LastCommit = zero_ext_commit,
       Storage = empty_MapStorage, ErrorOnUnequalResponses = True,
       signingStatus = (\<lambda>addr. if addr \<in> set (map fst cs) then Some True else None), TimeHandler = th,
       AutoIncludeTx = fl_auto_tx F, FreshTxQueue = [], StaleTxQueue = []\<rparr>" "keyed cs"
    by (rule main_setup_Return [OF assms(1)]) blast
  obtain st where u: "client u = (sd_client d)\<lparr>CurState := st\<rparr>" "from_init (sd_state d) st"
    by (rule SendInitChain_Return [OF assms(2)]) (auto simp: core_def initial_sys_def c(1))
  have "dom (\<lambda>addr. if addr \<in> set (map fst cs) then Some True else None) = set (map fst cs)"
    by (rule set_eqI, subst domIff) (simp del: not_None_eq)
  then show thesis using that [OF u] c
    by (simp add: u(1) empty_MapStorage_def ms_wf_def ms_entries_def clients_wf_def keyed_def fun_eq_iff)
qed

lemma main_start_state:
  assumes "makes_blocks E" "genesis_states L" and "main_start E L F args w = (Return (), Some s)"
  shows "linked E 0 (client s) \<and> commits_linked E 0 (client s) \<and> st_LastBlockHeight (CurState (client s)) = 1
    \<and> (\<exists>doc st. read_genesis L (args ! 1) = Return (doc, st) \<and> hd_Time (blk_Header (LastBlock (client s)))
        = start_at F doc (fst (time_Now E w)) + max 0 (i64 (fl_block_time F * nano_millisecond)))
    \<and> clients_wf (client s) \<and> (\<forall>k \<in> set (map fst (Clients (client s))). signingStatus (client s) k = Some True)
    \<and> AutoIncludeTx (client s) = fl_auto_tx F
    \<and> \<not> blockMutex s \<and> \<not> stateUpdateMutex (Storage (client s))"
  using assms(3)
proof (rule main_start_Return)
  fix d w' u
  assume d: "main_setup E L F args w = (Return d, w')"
    and i: "SendInitChain E (sd_state d) (sd_genesis d) (initial_sys (sd_client d) w') = (Return (), u)"
    and b: "RunBlockWithTimeAndProposer E (first_block_time (sd_starting_time d) (sd_block_time d))
       (vs_Proposer (st_LastValidators (CurState (client u)))) [] u = (Return (), s)"
  obtain st where u: "client u = (sd_client d)\<lparr>CurState := st\<rparr>" "from_init (sd_state d) st"
      "ms_wf (Storage (client u))" "ms_entries (Storage (client u)) = Map.empty" "clients_wf (client u)"
    using d i by (rule start_before_block)
  obtain cs th where r: "read_genesis L (args ! 1) = Return (sd_genesis d, sd_state d)"
    "sd_starting_time d = start_at F (sd_genesis d) (fst (time_Now E w))"
    "sd_block_time d = i64 (fl_block_time F * nano_millisecond)" "AutoIncludeTx (sd_client d) = fl_auto_tx F"
    "Clients (sd_client d) = cs" "signingStatus (sd_client d) = (\<lambda>addr. if addr \<in> set (map fst cs) then Some True else None)"
    by (rule main_setup_Return [OF d]) simp
  have h: "st_LastBlockHeight (CurState (client u)) = 0"
    using read_genesis_state [OF r(1)] assms(2) u(1,2) by (simp add: genesis_states_def from_init_def)
  have m: "moved_on E (first_block_time (sd_starting_time d) (sd_block_time d))
      (vs_Proposer (st_LastValidators (CurState (client u)))) (client u) (client s)"
    by (rule RunBlock_moved [OF assms(1) b])
  have lu: "linked E 0 (client u)" "commits_linked E 0 (client u)" using u(3,4) h by (simp_all add: linked_def commits_linked_def)
  then have l: "linked E 0 (client s)" "commits_linked E 0 (client s)"
    using linked_moved [OF lu(1) m] commits_linked_moved [OF lu(2,1) m] by (simp_all add: h)
  have "hd_Time (blk_Header (LastBlock (client s))) = first_block_time (sd_starting_time d) (sd_block_time d)
    \<and> Clients (client s) = Clients (client u) \<and> signingStatus (client s) = signingStatus (client u)
    \<and> \<not> blockMutex s \<and> \<not> stateUpdateMutex (Storage (client s)) \<and> AutoIncludeTx (client s) = AutoIncludeTx (client u)"
    using RunBlock_success [OF assms(1) b] RunBlock_AutoIncludeTx [OF assms(1) b] by (auto simp: proposed_def)
  then show ?thesis
    using l r u(1,5) moved_on_heights(2) [OF m] h
    by (auto simp: clients_wf_def in64_def first_block_time_def time_Add_def max_def)
qed

text \<open>The time handler the flags select, which the first block does not ask.\<close>

lemma main_start_clock:
  assumes "makes_blocks E" and "main_start E L F args w = (Return (), Some s)"
  shows "if i64 (fl_block_time F * nano_millisecond) < 0
    then \<exists>d. TimeHandler (client s) = SystemClockTimeHandler \<lparr>sc_curOffset = d\<rparr> \<and> in64 d
    else TimeHandler (client s) = FixedBlockTimeHandler (NewFixedBlockTimeHandler (i64 (fl_block_time F * nano_millisecond)))"
  using assms(2)
proof (rule main_start_Return)
  fix d w' u
  assume d: "main_setup E L F args w = (Return d, w')"
    and i: "SendInitChain E (sd_state d) (sd_genesis d) (initial_sys (sd_client d) w') = (Return (), u)"
    and b: "RunBlockWithTimeAndProposer E (first_block_time (sd_starting_time d) (sd_block_time d))
       (vs_Proposer (st_LastValidators (CurState (client u)))) [] u = (Return (), s)"
  obtain st where "client u = (sd_client d)\<lparr>CurState := st\<rparr>" using d i by (rule start_before_block)
  then have "TimeHandler (client s) = TimeHandler (sd_client d)" using RunBlock_success [OF assms(1) b] by auto
  then show ?thesis by (simp only:) (rule main_setup_Return [OF d], auto)
qed

text \<open>After an InitChain that leaves a last proposer there are validators.\<close>

lemma init_validators_present:
  assumes "genesis_states L" "makes_valsets E" and "SendInitChain E st0 doc s = (Return (), u)"
    and "MakeGenesisState L gd = Inr (CurState (client s))" "vs_Proposer (st_LastValidators (CurState (client u))) \<noteq> None"
  shows "vs_Validators (st_Validators (CurState (client u))) \<noteq> []"
  using assms(3)
proof (rule SendInitChain_Return, goal_cases)
  case (1 res st c req w)
  have u: "CurState (client u) = st" using 1(2) by (simp add: core_def)
  have "rsi_Validators res \<noteq> []" using 1(4) assms(1,4,5) u by (auto simp: genesis_states_def)
  then obtain vs set where v: "PB2TM_ValidatorUpdates E (rsi_Validators res) = Inr vs" "NewValidatorSet E vs = Inr set"
      "st_Validators st = set" "rsi_Validators res \<noteq> []"
    using 1(5) by blast
  then have "length vs = length (rsi_Validators res)" using assms(2) unfolding makes_valsets_def by blast
  then have "vs \<noteq> []" using v(4) by auto
  then show ?case using v assms(2) u by (simp add: makes_valsets_def)
qed

section \<open>Properties\<close>

text \<open>
  Claim C12. A start that succeeds. The chain has exactly one block, at height 1, linked to the genesis state as
  InitChain left it; its time is the starting time the flags ask for (genesis time, given timestamp or clock), plus the
  block time if that is fixed; every application has its entry under its validator's address, and signs;
  transactions are included automatically exactly if the flag says so; and no lock is held.
\<close>

theorem start_up_first_block:
  assumes "makes_blocks E" "genesis_states L" and "main_start E L F args w = (Return (), Some s)"
  shows "linked E 0 (client s) \<and> st_LastBlockHeight (CurState (client s)) = 1
    \<and> (\<exists>doc st. read_genesis L (args ! 1) = Return (doc, st) \<and> hd_Time (blk_Header (LastBlock (client s)))
        = start_at F doc (fst (time_Now E w)) + max 0 (i64 (fl_block_time F * nano_millisecond)))
    \<and> clients_wf (client s) \<and> (\<forall>k \<in> set (map fst (Clients (client s))). signingStatus (client s) k = Some True)
    \<and> AutoIncludeTx (client s) = fl_auto_tx F
    \<and> \<not> blockMutex s \<and> \<not> stateUpdateMutex (Storage (client s))"
  using main_start_state [OF assms] by blast

text \<open>A command line with two applications, and its files.\<close>

definition sample_loader :: "int \<Rightarrow> loader" where
  "sample_loader initialHeight =
     \<lparr>LoadFilePV = (\<lambda>key_file state_file. Inr (takeWhile (\<lambda>c. c \<noteq> CHR ''/'') key_file)),
      NewMockPVWithParams = (\<lambda>key. key), AppGenesisFromFile = (\<lambda>f. Inr f),
      ToGenesisDoc = (\<lambda>g. case g of None \<Rightarrow> Panic ''nil'' | Some _ \<Rightarrow> Return
        \<lparr>gd_GenesisTime = 1000, gd_Validators = [\<lparr>gv_PubKey = ''v1'', gv_Power = 10\<rparr>, \<lparr>gv_PubKey = ''v2'', gv_Power = 20\<rparr>],
         gd_AppState = [], gd_other = []\<rparr>),
      MakeGenesisState = (\<lambda>doc. Inr ((sample_state sample_vals 0)
        \<lparr>st_LastValidators := \<lparr>vs_Validators = [], vs_Proposer = None\<rparr>, st_InitialHeight := initialHeight\<rparr>)),
      NewClient = (\<lambda>mode addr. addr)\<rparr>"

definition sample_flags :: flags where
  "sample_flags = \<lparr>fl_block_time = 5, fl_auto_tx = True, fl_block_production_interval = 1000,
     fl_starting_timestamp = 7, fl_starting_timestamp_from_genesis = False\<rparr>"

definition sample_args :: "string list" where
  "sample_args = [''c1,c2'', ''genesis.json'', ''127.0.0.1:22331'', ''v1,v2'', ''grpc'']"

lemma sample_start: "\<exists>s. main_start sample_env (sample_loader 1) sample_flags sample_args 0 = (Return (), Some s)"
  by (simp add: main_start_def main_setup_def sample_args_def sample_flags_def sample_loader_def read_genesis_def
      starting_time_def new_time_handler_def at_index_def NewAbciClient_def initial_sys_def main_init_def fatal_def
      first_block_time_def time_Add_def RunBlockWithTime_def last_proposer_def zero_block_def zero_ext_commit_def
      SendInitChain_def CreateInitChainRequest_def UpdateStateFromInit_def init_validators_def init_params_def
      clock_defs nano_millisecond_def
      block_defs sample_sys_defs run_eval)

lemma sample_genesis_states: "genesis_states (sample_loader h)"
  by (simp add: genesis_states_def sample_loader_def sample_state_def sample_valset_def sample_vals_def)

lemma sample_makes_valsets: "makes_valsets sample_env"
  by (simp add: makes_valsets_def sample_env_def sample_valset_def)

lemma sample_first_time:
  "start_at sample_flags doc t + max 0 (i64 (fl_block_time sample_flags * nano_millisecond)) = 12000000"
  by (simp add: sample_flags_def start_at_def nano_millisecond_def in64_def)

lemma sample_first_block:
  "\<exists>s. main_start sample_env (sample_loader 1) sample_flags sample_args 0 = (Return (), Some s)
    \<and> hd_Time (blk_Header (LastBlock (client s))) = 12000000"
proof -
  obtain s where s: "main_start sample_env (sample_loader 1) sample_flags sample_args 0 = (Return (), Some s)"
    using sample_start by blast
  from main_start_state [OF sample_makes_blocks sample_genesis_states s] s show ?thesis by (auto simp: sample_first_time)
qed

theorem start_up_first_block_witness:
  "\<exists>s. main_start sample_env (sample_loader 1) sample_flags sample_args 0 = (Return (), Some s)
    \<and> st_LastBlockHeight (CurState (client s)) = 1 \<and> hd_Time (blk_Header (LastBlock (client s))) = 12000000
    \<and> linked sample_env 0 (client s) \<and> AutoIncludeTx (client s)"
proof -
  obtain s where s: "main_start sample_env (sample_loader 1) sample_flags sample_args 0 = (Return (), Some s)"
    using sample_start by blast
  have "fl_auto_tx sample_flags" by (simp add: sample_flags_def)
  with start_up_first_block [OF sample_makes_blocks sample_genesis_states s] s show ?thesis
    by (auto simp: sample_first_time)
qed

text \<open>
  Claim C38. An initial height other than 1 cannot start. If the genesis state has another initial height, then whatever the
  applications answer, no start succeeds: the first block is run at height 1, which is then not the
  initial height, so that a last commit with a signature per validator is expected, and there is none.
\<close>

theorem initial_height_other_than_one_fails:
  assumes "makes_blocks E" "genesis_states L" "makes_valsets E" "commit_sizes E" "commits_complete E"
    and "read_genesis L (args ! 1) = Return (doc, st)" "st_InitialHeight st \<noteq> 1"
  shows "fst (main_start E L F args w) \<noteq> Return ()"
proof
  assume "fst (main_start E L F args w) = Return ()"
  then obtain s where "main_start E L F args w = (Return (), Some s)"
    by (auto simp: main_start_def split: prod.splits outcome.splits)
  then show False
  proof (rule main_start_Return)
    fix d w' u
    assume d: "main_setup E L F args w = (Return d, w')"
      and i: "SendInitChain E (sd_state d) (sd_genesis d) (initial_sys (sd_client d) w') = (Return (), u)"
      and b: "RunBlockWithTimeAndProposer E (first_block_time (sd_starting_time d) (sd_block_time d))
         (vs_Proposer (st_LastValidators (CurState (client u)))) [] u = (Return (), s)"
    obtain cs th where r: "read_genesis L (args ! 1) = Return (sd_genesis d, sd_state d)" "CurState (sd_client d) = sd_state d"
      by (rule main_setup_Return [OF d]) simp
    then have st: "sd_state d = st" using assms(6) by simp
    note g = read_genesis_state [OF assms(6)]
    obtain st' where u: "client u = (sd_client d)\<lparr>CurState := st'\<rparr>" "from_init st st'" "LastCommit (client u) = zero_ext_commit"
      using st by (auto intro: start_before_block [OF d i])
    have p: "vs_Proposer (st_LastValidators (CurState (client u))) \<noteq> None"
      using RunBlock_success [OF assms(1) b] by auto
    have "vs_Validators (st_Validators (CurState (client u))) \<noteq> []"
      by (rule init_validators_present [OF assms(2,3) i _ p]) (simp add: initial_sys_def r(2) st, rule g)
    moreover have "i64 (st_LastBlockHeight (CurState (client u)) + 1) \<noteq> st_InitialHeight (CurState (client u))"
      using u(1,2) g assms(2,7) by (simp add: from_init_def genesis_states_def in64_def)
    then have "length (ec_ExtendedSignatures (LastCommit (client u))) = length (vs_Validators (st_Validators (CurState (client u))))"
      by (rule block_needs_sizes [OF assms(1,4,5) b])
    ultimately show False by (simp add: u(3) zero_ext_commit_def)
  qed
qed

theorem initial_height_other_than_one_fails_witness:
  "\<exists>doc st. read_genesis (sample_loader 5) (sample_args ! 1) = Return (doc, st) \<and> st_InitialHeight st = 5
    \<and> fst (main_start sample_env (sample_loader 5) sample_flags sample_args 0) \<noteq> Return ()"
proof -
  obtain doc st where g: "read_genesis (sample_loader 5) (sample_args ! 1) = Return (doc, st)" "st_InitialHeight st = 5"
    by (simp add: read_genesis_def sample_loader_def Let_def)
  then have "st_InitialHeight st \<noteq> 1" by simp
  from initial_height_other_than_one_fails [OF sample_makes_blocks sample_genesis_states sample_makes_valsets
      sample_commit_sizes sample_commits_complete g(1) this] g
  show ?thesis by blast
qed

text \<open>
  Claim C39. InitChain must return validators. If the applications' answer to InitChain leaves the validators to the genesis
  file (it lists none), no start succeeds: the genesis state has no last validators, and the first block
  takes its proposer from them.
\<close>

theorem init_without_validators_fails:
  assumes "makes_blocks E" "genesis_states L"
    and "\<And>c req w res. fst (app_InitChain E c req w) = Inr res \<Longrightarrow> rsi_Validators res = []"
  shows "fst (main_start E L F args w) \<noteq> Return ()"
proof
  assume "fst (main_start E L F args w) = Return ()"
  then obtain s where "main_start E L F args w = (Return (), Some s)"
    by (auto simp: main_start_def split: prod.splits outcome.splits)
  then show False
  proof (rule main_start_Return)
    fix d w' u
    assume d: "main_setup E L F args w = (Return d, w')"
      and i: "SendInitChain E (sd_state d) (sd_genesis d) (initial_sys (sd_client d) w') = (Return (), u)"
      and b: "RunBlockWithTimeAndProposer E (first_block_time (sd_starting_time d) (sd_block_time d))
         (vs_Proposer (st_LastValidators (CurState (client u)))) [] u = (Return (), s)"
    obtain cs th where r: "read_genesis L (args ! 1) = Return (sd_genesis d, sd_state d)" "CurState (sd_client d) = sd_state d"
      by (rule main_setup_Return [OF d]) simp
    have "st_LastValidators (CurState (client u)) = st_LastValidators (sd_state d)"
      using i
    proof (rule SendInitChain_Return, goal_cases)
      case (1 res st2 c req w2)
      then show ?case using assms(3) [OF 1(1)] r(2) by (auto simp: core_def initial_sys_def)
    qed
    then have "vs_Proposer (st_LastValidators (CurState (client u))) = None"
      using read_genesis_state [OF r(1)] assms(2) by (simp add: genesis_states_def)
    then show False using RunBlock_success [OF assms(1) b] by auto
  qed
qed

theorem init_without_validators_fails_witness:
  "fst (main_start (sample_env\<lparr>app_InitChain := (\<lambda>c r w. (Inr \<lparr>rsi_AppHash = ''app0'', rsi_Validators = [],
      rsi_ConsensusParams = None\<rparr>, w))\<rparr>) (sample_loader 1) sample_flags sample_args 0) \<noteq> Return ()"
proof -
  let ?E = "sample_env\<lparr>app_InitChain := (\<lambda>c r w. (Inr \<lparr>rsi_AppHash = ''app0'', rsi_Validators = [],
      rsi_ConsensusParams = None\<rparr>, w))\<rparr>"
  have "makes_blocks ?E" using sample_makes_blocks by (simp add: makes_blocks_def)
  then show ?thesis by (rule init_without_validators_fails [OF _ sample_genesis_states]) auto
qed

text \<open>
  Claim C40. The answer of \<open>advance_time\<close> right after the start is wrong with a fixed block time. The time handler does
  not learn the time of the first block, so the route answers as if the last block were at Go's zero time: the next block
  comes later than announced by exactly the distance of the first block from January 1 of the year 1.
\<close>

theorem advance_time_after_start_wrong:
  assumes "makes_blocks E" and "main_start E L F args w = (Return (), Some s)"
    and "0 \<le> i64 (fl_block_time F * nano_millisecond)" and "0 \<le> seconds"
  shows "\<exists>t s' t' s''. route_AdvanceTime E seconds s = (Return t, s')
    \<and> GetBlockTime E (hd_Time (blk_Header (LastBlock (client s')))) s' = (Return t', s'')
    \<and> t' - t = hd_Time (blk_Header (LastBlock (client s))) - zero_time"
proof -
  have "TimeHandler (client s) = FixedBlockTimeHandler (NewFixedBlockTimeHandler (i64 (fl_block_time F * nano_millisecond)))"
    using main_start_clock [OF assms(1,2)] assms(3) by simp
  then show ?thesis using assms(4)
    by (simp add: route_AdvanceTime_def AdvanceTime_def GetBlockTime_def fb_AdvanceTime_def fb_GetBlockTime_def
        NewFixedBlockTimeHandler_def Let_def time_Add_def run_bindP run_seqP ret_def)
qed

theorem advance_time_after_start_wrong_witness:
  "\<exists>s t s' t' s''. main_start sample_env (sample_loader 1) sample_flags sample_args 0 = (Return (), Some s)
    \<and> route_AdvanceTime sample_env 60 s = (Return t, s')
    \<and> GetBlockTime sample_env (hd_Time (blk_Header (LastBlock (client s')))) s' = (Return t', s'') \<and> t \<noteq> t'"
proof -
  obtain s where s: "main_start sample_env (sample_loader 1) sample_flags sample_args 0 = (Return (), Some s)"
    and t: "hd_Time (blk_Header (LastBlock (client s))) = 12000000"
    using sample_first_block by blast
  have "0 \<le> i64 (fl_block_time sample_flags * nano_millisecond)"
    by (simp add: sample_flags_def nano_millisecond_def in64_def)
  from advance_time_after_start_wrong [OF sample_makes_blocks s this, of 60] s t show ?thesis
    by (fastforce simp: zero_time_def)
qed

section \<open>The argument lists\<close>

lemma split_comma_not_Nil: "split_comma s \<noteq> []"
  by (cases s) (auto split: list.split)

end
