(* ===== verification/Route_Properties.thy ===== *)
theory Route_Properties
  imports Routes
begin

text \<open>
  What the routes of \<open>rpc_server/routes.go\<close> answer: the queries by height on a linked chain, the pages of the
  validators and of the searches, the transaction routes and the routes CometMock adds.
\<close>

section \<open>Reads of an open store\<close>

lemma run_in_storage_reads:
  assumes "ms_wf (Storage (client s))" "\<not> stateUpdateMutex (Storage (client s))"
  shows "fst (in_storage (GetBlock h) s) = read_as fst (BlockNotFound h) (ms_entries (Storage (client s)) h)"
    "fst (in_storage (GetCommit h) s) = read_as (fst \<circ> snd) (CommitNotFound h) (ms_entries (Storage (client s)) h)"
    "fst (in_storage (GetState h) s) = read_as (fst \<circ> snd \<circ> snd) (StateNotFound h) (ms_entries (Storage (client s)) h)"
    "fst (in_storage (GetResponses h) s)
       = read_as (snd \<circ> snd \<circ> snd) (ResponsesNotFound h) (ms_entries (Storage (client s)) h)"
  using mapStorage.get_block [OF assms] mapStorage.get_commit [OF assms] mapStorage.get_state [OF assms]
    mapStorage.get_responses [OF assms]
  by (simp_all add: in_storage_def split_def)

lemma same_reads_reads:
  assumes "same_reads m n"
  shows "same_reads m (snd (GetBlock h n))" "same_reads m (snd (GetCommit h n))"
    "same_reads m (snd (GetState h n))" "same_reads m (snd (GetResponses h n))"
  using assms by (simp_all add: same_reads_def reads_frame)

text \<open>An open store with these entries: what every read of it keeps.\<close>

definition open_store :: "(int \<rightharpoonup> entry) \<Rightarrow> 'w sys \<Rightarrow> bool" where
  "open_store e s \<longleftrightarrow> ms_wf (Storage (client s)) \<and> \<not> stateUpdateMutex (Storage (client s))
     \<and> ms_entries (Storage (client s)) = e"

lemma open_store_reads [keeps_intros]:
  "keeps (open_store e) (in_storage (GetBlock h))" "keeps (open_store e) (in_storage (GetCommit h))"
  "keeps (open_store e) (in_storage (GetState h))" "keeps (open_store e) (in_storage (GetResponses h))"
  using mapStorage.reads_keep
  by (auto simp: open_store_def keeps_def in_storage_def split_def)

lemma open_store_read:
  assumes "open_store e s" "e h = Some (b, c, st, r)"
  shows "\<exists>t. in_storage (GetBlock h) s = (Return b, t) \<and> open_store e t"
    "\<exists>t. in_storage (GetCommit h) s = (Return c, t) \<and> open_store e t"
    "\<exists>t. in_storage (GetState h) s = (Return st, t) \<and> open_store e t"
    "\<exists>t. in_storage (GetResponses h) s = (Return r, t) \<and> open_store e t"
  using assms(1) open_store_reads [THEN keepsD, OF assms(1)] run_in_storage_reads [of s h] assms(2)
  by (auto simp: open_store_def prod_eq_iff)

section \<open>Queries by height\<close>

lemma run_requested_height:
  "requested_height ptr s = (getHeight (hd_Height (blk_Header (LastBlock (client s)))) ptr, s)"
  by (simp add: requested_height_def run_bindP)

lemma height_routes_at:
  assumes "open_store e s" "e h = Some (b, c, st, r)" "getHeight (hd_Height (blk_Header (LastBlock (client s)))) ptr = Return h"
    "GetBlockIdFromBlock E b = Return bid"
  shows "fst (route_Block E ptr s) = Return \<lparr>rb_BlockID = bid, rb_Block = b\<rparr>"
    "fst (route_Commit ptr s) = Return \<lparr>rc_Header = blk_Header b, rc_Commit = c, rc_CanonicalCommit = True\<rparr>"
    "fst (route_BlockResults ptr s) = Return \<lparr>rbr_Height = h, rbr_TxsResults = rsf_TxResults r,
       rbr_FinalizeBlockEvents = rsf_Events r, rbr_ValidatorUpdates = rsf_ValidatorUpdates r,
       rbr_ConsensusParamUpdates = rsf_ConsensusParamUpdates r\<rparr>"
    "fst (route_ConsensusParams ptr s) = Return \<lparr>rcp_BlockHeight = h, rcp_ConsensusParams = st_ConsensusParams st\<rparr>"
proof -
  note req = run_requested_height [of ptr s, unfolded assms(3)]
  obtain t1 where t1: "in_storage (GetBlock h) s = (Return b, t1)"
    using open_store_read(1) [OF assms(1,2)] by blast
  obtain t2 where t2: "in_storage (GetCommit h) s = (Return c, t2)" "open_store e t2"
    using open_store_read(2) [OF assms(1,2)] by blast
  obtain t3 where t3: "in_storage (GetBlock h) t2 = (Return b, t3)"
    using open_store_read(1) [OF t2(2) assms(2)] by blast
  obtain t4 where t4: "in_storage (GetState h) s = (Return st, t4)"
    using open_store_read(3) [OF assms(1,2)] by blast
  obtain t5 where t5: "in_storage (GetResponses h) s = (Return r, t5)"
    using open_store_read(4) [OF assms(1,2)] by blast
  show "fst (route_Block E ptr s) = Return \<lparr>rb_BlockID = bid, rb_Block = b\<rparr>"
    by (simp add: route_Block_def run_bindP req t1 assms(4) lift_outcome_def)
  show "fst (route_Commit ptr s) = Return \<lparr>rc_Header = blk_Header b, rc_Commit = c, rc_CanonicalCommit = True\<rparr>"
    by (simp add: route_Commit_def run_bindP req t2 t3)
  show "fst (route_BlockResults ptr s) = Return \<lparr>rbr_Height = h, rbr_TxsResults = rsf_TxResults r,
       rbr_FinalizeBlockEvents = rsf_Events r, rbr_ValidatorUpdates = rsf_ValidatorUpdates r,
       rbr_ConsensusParamUpdates = rsf_ConsensusParamUpdates r\<rparr>"
    by (simp add: route_BlockResults_def run_bindP req t5)
  show "fst (route_ConsensusParams ptr s) = Return \<lparr>rcp_BlockHeight = h, rcp_ConsensusParams = st_ConsensusParams st\<rparr>"
    by (simp add: route_ConsensusParams_def run_bindP req t4)
qed

lemma linked_entry:
  assumes "linked E h0 a" "h0 < h" "h \<le> st_LastBlockHeight (CurState a)"
  obtains b c r bid where "ms_entries (Storage a) h = Some (b, c, state_at a h, r)" "hd_Height (blk_Header b) = h"
    "GetBlockIdFromBlock E b = Return bid" "st_LastBlockID (state_at a (h + 1)) = bid"
    "hd_Height (blk_Header (LastBlock a)) = st_LastBlockHeight (CurState a)"
proof -
  let ?H = "st_LastBlockHeight (CurState a)"
  have all: "\<And>k. h0 < k \<Longrightarrow> k \<le> ?H \<Longrightarrow> \<exists>b c r. ms_entries (Storage a) k = Some (b, c, state_at a k, r)
      \<and> hd_Height (blk_Header b) = k \<and> applied E (state_at a k) b r (state_at a (k + 1)) \<and> (k = ?H \<longrightarrow> LastBlock a = b)"
    using assms(1) unfolding linked_def by (meson greaterThanAtMost_iff)
  obtain b c r where b: "ms_entries (Storage a) h = Some (b, c, state_at a h, r)" "hd_Height (blk_Header b) = h"
      "applied E (state_at a h) b r (state_at a (h + 1))"
    using all [OF assms(2,3)] by blast
  obtain bid ups st1 ah where u: "GetBlockIdFromBlock E b = Return bid"
      "UpdateState E (state_at a h) bid (blk_Header b) r ups = Return st1" "state_at a (h + 1) = st1\<lparr>st_AppHash := ah\<rparr>"
    using b(3) unfolding applied_def by blast
  have "hd_Height (blk_Header (LastBlock a)) = ?H" using all [of ?H] assms(2,3) by auto
  then show thesis using that b u UpdateState_Return(4) [OF u(2)] by simp
qed

text \<open>
  Claim C20. The chain is served whole. On a linked chain whose store is open, every height after the starting one is
  served by the routes \<open>block\<close>, \<open>commit\<close>, \<open>block_results\<close> and \<open>consensus_params\<close> from one entry: the block of
  that height under the block id that the state of the next height records, its header and its commit, the response
  to it, and the parameters it was run with. A request without a height is one for the last height.
\<close>

theorem linked_chain_is_served:
  assumes "linked E h0 (client s)" "\<not> stateUpdateMutex (Storage (client s))" "0 \<le> h0"
    and "h0 < h" "h \<le> st_LastBlockHeight (CurState (client s))"
    and "ptr = Some h \<or> ptr = None \<and> h = st_LastBlockHeight (CurState (client s))"
  shows "\<exists>b c r. ms_entries (Storage (client s)) h = Some (b, c, state_at (client s) h, r) \<and> hd_Height (blk_Header b) = h
    \<and> fst (route_Block E ptr s)
        = Return \<lparr>rb_BlockID = st_LastBlockID (state_at (client s) (h + 1)), rb_Block = b\<rparr>
    \<and> fst (route_Commit ptr s)
        = Return \<lparr>rc_Header = blk_Header b, rc_Commit = c, rc_CanonicalCommit = True\<rparr>
    \<and> fst (route_BlockResults ptr s) = Return \<lparr>rbr_Height = h, rbr_TxsResults = rsf_TxResults r,
         rbr_FinalizeBlockEvents = rsf_Events r, rbr_ValidatorUpdates = rsf_ValidatorUpdates r,
         rbr_ConsensusParamUpdates = rsf_ConsensusParamUpdates r\<rparr>
    \<and> fst (route_ConsensusParams ptr s)
        = Return \<lparr>rcp_BlockHeight = h, rcp_ConsensusParams = st_ConsensusParams (state_at (client s) h)\<rparr>"
proof -
  obtain b c r bid where e: "ms_entries (Storage (client s)) h = Some (b, c, state_at (client s) h, r)"
      "hd_Height (blk_Header b) = h" "GetBlockIdFromBlock E b = Return bid"
      "st_LastBlockID (state_at (client s) (h + 1)) = bid"
      "hd_Height (blk_Header (LastBlock (client s))) = st_LastBlockHeight (CurState (client s))"
    using assms(1,4,5) by (rule linked_entry)
  have o: "open_store (ms_entries (Storage (client s))) s"
    using assms(1,2) by (simp add: open_store_def linked_def)
  have g: "getHeight (hd_Height (blk_Header (LastBlock (client s)))) ptr = Return h"
    using assms(3-6) e(5) by (auto simp: getHeight_def)
  show ?thesis
    using height_routes_at [OF o e(1) g e(3)] e(1,2,4) by auto
qed

theorem linked_chain_is_served_witness:
  "\<exists>s b. RunBlockWithTime sample_env 10 sample_sys = (Return (), s) \<and> st_LastBlockHeight (CurState (client s)) = 1
    \<and> fst (route_Block sample_env None s)
      = Return \<lparr>rb_BlockID = st_LastBlockID (CurState (client s)), rb_Block = b\<rparr> \<and> hd_Height (blk_Header b) = 1"
proof -
  obtain s where s: "RunBlockWithTime sample_env 10 sample_sys = (Return (), s)" "st_LastBlockHeight (CurState (client s)) = 1"
      "\<not> stateUpdateMutex (Storage (client s))" "linked sample_env 0 (client s)"
    using sample_chain_grows by blast
  have "ms_entries (Storage (client s)) (1 + 1) = None"
  proof -
    have "dom (ms_entries (Storage (client s))) = {0<..1}" using s(2,4) by (simp add: linked_def)
    then show ?thesis by (metis domIff greaterThanAtMost_iff add_le_same_cancel1 not_one_le_zero)
  qed
  then have "state_at (client s) (1 + 1) = CurState (client s)" by (simp add: state_at_def)
  then show ?thesis
    using linked_chain_is_served [OF s(4,3), of 1 None] s(1,2) by auto
qed

section \<open>The pages of the validators\<close>

lemma fst_seq_outcome: "fst (seq_outcome (r, s) f) = bindO r (\<lambda>a. fst (f a s))"
  by (cases r) simp_all

lemma bindO_assoc: "bindO (bindO r f) g = bindO r (\<lambda>a. bindO (f a) g)"
  by (cases r) simp_all

lemma route_Validators_at:
  assumes "open_store e s" "e h = Some (b, c, st, r)" "getHeight (hd_Height (blk_Header (LastBlock (client s)))) ptr = Return h"
  shows "fst (route_Validators ptr pg pp s) = bindO (paginate pg pp (vs_Validators (st_Validators st)))
    (\<lambda>v. Return \<lparr>rv_BlockHeight = h, rv_Validators = v, rv_Count = int (length v),
       rv_Total = int (length (vs_Validators (st_Validators st)))\<rparr>)"
proof -
  obtain t where t: "in_storage (GetState h) s = (Return st, t)"
    using open_store_read(3) [OF assms(1,2)] by blast
  show ?thesis
    unfolding route_Validators_def paginate_def Let_def
    by (simp add: run_bindP run_requested_height assms(3) t lift_outcome_def fst_seq_outcome bindO_assoc)
qed

text \<open>
  Claim C23. The route \<open>validators\<close> enumerates the validator set a height was run with. On a linked chain
  with an open store, for every requested page size, the pages 1 to the last of a height are all served, with
  the true total and the true count of the page, and together, in order, they are the validators of the
  state before that height's block; any other page is refused.
\<close>

theorem validators_route_enumerates_set:
  assumes "linked E h0 (client s)" "\<not> stateUpdateMutex (Storage (client s))" "0 \<le> h0"
    and "h0 < h" "h \<le> st_LastBlockHeight (CurState (client s))"
    and "vals = vs_Validators (st_Validators (state_at (client s) h))" "int (length vals) < 2 ^ 63"
    and "n = page_count (validatePerPage perPagePtr) (int (length vals))"
  shows "\<exists>pages. length pages = nat n \<and> concat pages = vals
    \<and> (\<forall>k \<in> {1..n}. fst (route_Validators (Some h) (Some k) perPagePtr s)
        = Return \<lparr>rv_BlockHeight = h, rv_Validators = pages ! nat (k - 1),
            rv_Count = int (length (pages ! nat (k - 1))), rv_Total = int (length vals)\<rparr>)
    \<and> (\<forall>k. k < 1 \<or> n < k \<longrightarrow> fst (route_Validators (Some h) (Some k) perPagePtr s) = Error (PageOutOfRange n k))"
proof -
  define p where "p = validatePerPage perPagePtr"
  define pages where "pages = map (\<lambda>k. take (nat p) (drop (k * nat p) vals)) [0..<nat n]"
  obtain b c r where e: "ms_entries (Storage (client s)) h = Some (b, c, state_at (client s) h, r)"
      "hd_Height (blk_Header (LastBlock (client s))) = st_LastBlockHeight (CurState (client s))"
    using assms(1,4,5) by (rule linked_entry)
  have o: "open_store (ms_entries (Storage (client s))) s"
    using assms(1,2) by (simp add: open_store_def linked_def)
  have g: "getHeight (hd_Height (blk_Header (LastBlock (client s)))) (Some h) = Return h"
    using assms(3-5) e(2) by (auto simp: getHeight_def)
  have n: "page_count p (int (length vals)) = n" by (simp add: assms(8) p_def)
  have eq: "fst (route_Validators (Some h) (Some k) perPagePtr s) = (if 1 \<le> k \<and> k \<le> n
      then Return \<lparr>rv_BlockHeight = h, rv_Validators = take (nat p) (drop (nat (k - 1) * nat p) vals),
            rv_Count = int (length (take (nat p) (drop (nat (k - 1) * nat p) vals))), rv_Total = int (length vals)\<rparr>
      else Error (PageOutOfRange n k))" for k
    using route_Validators_at [OF o e(1) g] paginate_eq [OF assms(7) p_def, of k] by (simp add: n flip: assms(6))
  have "concat pages = vals"
    using page_count_enough [of p vals] validatePerPage_range by (simp add: pages_def chunks assms(8) p_def)
  moreover have "pages ! nat (k - 1) = take (nat p) (drop (nat (k - 1) * nat p) vals)" if "1 \<le> k" "k \<le> n" for k
    using that by (simp add: pages_def nat_less_iff)
  ultimately show ?thesis by (intro exI [of _ pages]) (auto simp: eq pages_def)
qed

lemma sample_chain:
  obtains s :: "int sys" where "linked sample_env 0 (client s)" "\<not> stateUpdateMutex (Storage (client s))"
    "st_LastBlockHeight (CurState (client s)) = 1" "state_at (client s) 1 = sample_state sample_vals 0"
    "LastBlock (client s) = fst (the (ms_entries (Storage (client s)) 1))" "Clients (client s) = sample_clients"
    "blk_Txs (LastBlock (client s)) = [''a'']"
proof -
  obtain t where t: "RunBlockWithTimeAndProposer sample_env 10 (Some (sample_validator ''v1'' 10)) [] sample_sys = (Return (), t)"
      "st_LastBlockHeight (CurState (client t)) = 1" "\<not> stateUpdateMutex (Storage (client t))"
      "blk_Txs (LastBlock (client t)) = [''a'']"
    using sample_block_runs by blast
  note m = RunBlock_moved [OF sample_makes_blocks t(1)]
  have h: "st_LastBlockHeight (CurState (client sample_sys)) = 0" "CurState (client sample_sys) = sample_state sample_vals 0"
    "st_LastBlockHeight (sample_state sample_vals 0) = 0"
    by (simp_all add: sample_sys_def sample_state_def)
  have "linked sample_env 0 (client t)" by (rule linked_moved [OF sample_linked(1) m]) (simp_all add: h(1))
  moreover obtain b r where "ms_entries (Storage (client t)) = (ms_entries (Storage (client sample_sys)))(0 + 1 \<mapsto>
       (b, ec_ToCommit sample_env (LastCommit (client t)), sample_state sample_vals 0, r))" "LastBlock (client t) = b"
    by (rule moved_onE [OF m]) (simp_all add: h(2,3))
  moreover have "Clients (client t) = sample_clients"
    using RunBlock_success [OF sample_makes_blocks t(1)] by (auto simp: sample_sys_def)
  ultimately show thesis using that t by (simp add: state_at_def)
qed

theorem validators_route_enumerates_set_witness:
  "\<exists>(s :: int sys) pages. length pages = 2 \<and> concat pages = [sample_validator ''v1'' 10, sample_validator ''v2'' 20]
    \<and> fst (route_Validators (Some 1) (Some 2) (Some 1) s) = Return \<lparr>rv_BlockHeight = 1,
      rv_Validators = pages ! 1, rv_Count = int (length (pages ! 1)), rv_Total = 2\<rparr>
    \<and> fst (route_Validators (Some 1) (Some 3) (Some 1) s) = Error (PageOutOfRange 2 3)"
proof -
  obtain s :: "int sys" where s: "linked sample_env 0 (client s)" "\<not> stateUpdateMutex (Storage (client s))"
    "st_LastBlockHeight (CurState (client s)) = 1" "state_at (client s) 1 = sample_state sample_vals 0"
    by (rule sample_chain)
  have v: "vs_Validators (st_Validators (state_at (client s) 1)) = sample_vals"
    by (simp add: s(4) sample_state_def sample_valset_def)
  have n: "page_count (validatePerPage (Some 1)) (int (length sample_vals)) = 2" "int (length sample_vals) < 2 ^ 63"
    by (simp_all add: page_count_def validatePerPage_def maxPerPage_def sample_vals_def)
  have "\<exists>pages. length pages = nat 2 \<and> concat pages = sample_vals
    \<and> (\<forall>k \<in> {1..2}. fst (route_Validators (Some 1) (Some k) (Some 1) s)
        = Return \<lparr>rv_BlockHeight = 1, rv_Validators = pages ! nat (k - 1),
            rv_Count = int (length (pages ! nat (k - 1))), rv_Total = int (length sample_vals)\<rparr>)
    \<and> (\<forall>k. k < 1 \<or> 2 < k \<longrightarrow> fst (route_Validators (Some 1) (Some k) (Some 1) s) = Error (PageOutOfRange 2 k))"
    by (rule validators_route_enumerates_set [OF s(1,2) _ _ _ v [symmetric] n(2) n(1) [symmetric]]) (simp_all add: s(3))
  then obtain pages where p: "length pages = nat 2" "concat pages = sample_vals"
      "\<forall>k \<in> {1..2}. fst (route_Validators (Some 1) (Some k) (Some 1) s)
        = Return \<lparr>rv_BlockHeight = 1, rv_Validators = pages ! nat (k - 1),
            rv_Count = int (length (pages ! nat (k - 1))), rv_Total = int (length sample_vals)\<rparr>"
      "\<forall>k. k < 1 \<or> 2 < k \<longrightarrow> fst (route_Validators (Some 1) (Some k) (Some 1) s) = Error (PageOutOfRange 2 k)"
    by blast
  show ?thesis
    using p(1,2) bspec [OF p(3), of 2] p(4)
    by (intro exI [of _ s] exI [of _ pages]) (simp add: sample_vals_def)
qed

section \<open>Searches\<close>

text \<open>The loop over the indices of a page is the loop over its elements.\<close>

lemma collect_elements:
  assumes "j \<le> length xs"
  shows "collect (\<lambda>i. bindP (element xs i) g) [int i..int j - 1] = collect g (take (j - i) (drop i xs))"
  using assms
proof (induction "j - i" arbitrary: i)
  case 0
  then show ?case by simp
next
  case (Suc n)
  then have ij: "i < j" "i < length xs" by simp_all
  then have "[int i..int j - 1] = int i # [int (Suc i)..int j - 1]" by (simp add: upto_rec1 add.commute)
  moreover have "take (j - i) (drop i xs) = xs ! i # take (j - Suc i) (drop (Suc i) xs)"
    using ij by (simp add: Cons_nth_drop_Suc [symmetric] Suc_diff_Suc [symmetric])
  moreover have "bindP (element xs (int i)) g = g (xs ! i)"
    using ij by (simp add: element_def at_index_def fun_eq_iff run_bindP)
  moreover have "collect (\<lambda>i. bindP (element xs i) g) [int (Suc i)..int j - 1] = collect g (take (j - Suc i) (drop (Suc i) xs))"
    using Suc by (intro Suc.hyps(1)) simp_all
  ultimately show ?case by simp
qed

lemma page_indices_valid:
  assumes "p = validatePerPage pp" "int (length xs) < 2 ^ 63" "1 \<le> k" "k \<le> page_count p (int (length xs))"
  obtains i j where "page_indices (int (length xs)) (validateSkipCount k p) p = Return [int i..int j - 1]"
    "j \<le> length xs" "take (j - i) (drop i xs) = take (nat p) (drop (nat (k - 1) * nat p) xs)"
proof -
  have p: "1 \<le> p" "p \<le> 100" using validatePerPage_range assms(1) by simp_all
  let ?sk = "(k - 1) * p"
  have st: "0 \<le> ?sk" "?sk \<le> int (length xs)" using page_start [OF p(1) _ assms(3,4)] by simp_all
  have "k - 1 \<le> ?sk" using assms(3) p(1) mult_left_mono [of 1 p "k - 1"] by simp
  then have "in64 (k - 1)" "in64 ?sk" using st assms(2,3) by (simp_all add: in64_def)
  then have skip: "validateSkipCount k p = ?sk" using st by (simp add: validateSkipCount_def)
  have i: "i64 (int (length xs) - ?sk) = int (length xs) - ?sk" using st assms(2) by (simp add: in64_def)
  let ?sz = "min p (int (length xs) - ?sk)"
  have sz: "0 \<le> ?sz" "?sk + ?sz \<le> int (length xs)" using st p by auto
  have "in64 (?sk + ?sz)" using st sz assms(2) unfolding in64_def by linarith
  then have "i64 (?sk + ?sz) = ?sk + ?sz" by simp
  then have "page_indices (int (length xs)) (validateSkipCount k p) p
      = Return [int (nat ?sk)..int (nat (?sk + ?sz)) - 1]"
    using st sz unfolding page_indices_def skip Let_def i by (auto simp: min_def)
  moreover have "nat (?sk + ?sz) \<le> length xs" using sz by linarith
  moreover have "take (nat (?sk + ?sz) - nat ?sk) (drop (nat ?sk) xs) = take (nat p) (drop (nat (k - 1) * nat p) xs)"
  proof -
    have "nat (?sk + ?sz) - nat ?sk = min (nat p) (length xs - nat ?sk)" using st p by (simp add: min_def) linarith
    moreover have "nat ?sk = nat (k - 1) * nat p" using assms(3) p by (simp add: nat_mult_distrib)
    ultimately show ?thesis by (simp add: min_def)
  qed
  ultimately show thesis by (rule that)
qed

lemma collect_blocks:
  assumes "open_store e s" "\<forall>h \<in> set hs. \<exists>b c st r. e h = Some (b, c, st, r)
      \<and> GetBlockIdFromBlock E b = Return (f h)"
  shows "\<exists>blocks t. collect (\<lambda>height. bindP (in_storage (GetBlock height)) (\<lambda>block.
        bindP (lift_outcome (GetBlockIdFromBlock E block)) (\<lambda>blockId.
        ret \<lparr>rb_BlockID = blockId, rb_Block = block\<rparr>))) hs s = (Return blocks, t)
    \<and> blocks = map (\<lambda>h. \<lparr>rb_BlockID = f h, rb_Block = fst (the (e h))\<rparr>) hs"
  using assms
proof (induction hs arbitrary: s)
  case (Cons h hs)
  obtain b c st r where b: "e h = Some (b, c, st, r)" "GetBlockIdFromBlock E b = Return (f h)"
    using Cons.prems(2) by auto
  obtain t where t: "in_storage (GetBlock h) s = (Return b, t)" "open_store e t"
    using open_store_read(1) [OF Cons.prems(1) b(1)] by blast
  show ?case using Cons.IH [OF t(2)] Cons.prems(2) b t(1) by (auto simp: run_bindP lift_outcome_def)
qed simp

text \<open>What a page of a list of results is.\<close>

definition page_slice :: "int \<Rightarrow> int \<Rightarrow> 'a list \<Rightarrow> 'a list" where
  "page_slice k p xs = take (nat p) (drop (nat (k - 1) * nat p) xs)"

lemma in_set_page_slice: "x \<in> set (page_slice k p xs) \<Longrightarrow> x \<in> set xs"
  by (auto simp: page_slice_def dest: in_set_takeD in_set_dropD)

text \<open>
  Claim C24. The route \<open>block_search\<close> returns the requested page of the matching heights in the requested order. If
  the index finds only heights of the chain, the blocks returned are, in order, the blocks at the page's heights,
  taken from the descending (by default) or ascending list of the matches, each under the id the
  next state records, with the number of all matches; a page out of range and an unknown order are refused.
\<close>

theorem block_search_serves_page:
  assumes "linked E h0 (client s)" "\<not> stateUpdateMutex (Storage (client s))"
    and "cmtquery_New E query = Inr q" "BlockIndex_Search E q (world s) = Inr found"
    and "set found \<subseteq> {h0<..st_LastBlockHeight (CurState (client s))}" "int (length found) < 2 ^ 63"
    and "p = validatePerPage perPagePtr" "n = page_count p (int (length found))"
    and "(orderBy \<in> {''desc'', ''''} \<and> hs = rev (sort found)) \<or> (orderBy = ''asc'' \<and> hs = sort found)"
  shows "fst (route_BlockSearch E query (Some k) perPagePtr orderBy s) = (if 1 \<le> k \<and> k \<le> n
    then Return \<lparr>rbs_Blocks = map (\<lambda>h. \<lparr>rb_BlockID = st_LastBlockID (state_at (client s) (h + 1)),
           rb_Block = fst (the (ms_entries (Storage (client s)) h))\<rparr>) (page_slice k p hs),
         rbs_TotalCount = int (length found)\<rparr>
    else Error (PageOutOfRange n k))
    \<and> (ob \<notin> {''desc'', '''', ''asc''} \<longrightarrow> fst (route_BlockSearch E query (Some k) perPagePtr ob s) = Error InvalidOrderBy)"
proof (intro conjI impI)
  have len: "length hs = length found" "set hs = set found" using assms(9) by auto
  have ord: "order_blocks orderBy found = Return hs" using assms(9) by (auto simp: order_blocks_def)
  have p1: "1 \<le> p" using validatePerPage_range assms(7) by simp
  have o: "open_store (ms_entries (Storage (client s))) s" using assms(1,2) by (simp add: open_store_def linked_def)
  have vp: "validatePage (Some k) p (int (length hs)) = (if 1 \<le> k \<and> k \<le> n then Return k else Error (PageOutOfRange n k))"
    using validatePage_eq [OF p1 _ assms(6)] by (simp add: len assms(8))
  show "fst (route_BlockSearch E query (Some k) perPagePtr orderBy s) = (if 1 \<le> k \<and> k \<le> n
    then Return \<lparr>rbs_Blocks = map (\<lambda>h. \<lparr>rb_BlockID = st_LastBlockID (state_at (client s) (h + 1)),
           rb_Block = fst (the (ms_entries (Storage (client s)) h))\<rparr>) (page_slice k p hs),
         rbs_TotalCount = int (length found)\<rparr>
    else Error (PageOutOfRange n k))"
  proof (cases "1 \<le> k \<and> k \<le> n")
    case True
    obtain i j where ij: "page_indices (int (length hs)) (validateSkipCount k p) p = Return [int i..int j - 1]"
        "j \<le> length hs" "take (j - i) (drop i hs) = page_slice k p hs"
      using page_indices_valid [OF assms(7), of hs k] True assms(6,8) by (auto simp: len page_slice_def)
    have "\<forall>h \<in> set (page_slice k p hs). \<exists>b c st r. ms_entries (Storage (client s)) h = Some (b, c, st, r)
        \<and> GetBlockIdFromBlock E b = Return (st_LastBlockID (state_at (client s) (h + 1)))"
    proof
      fix h assume "h \<in> set (page_slice k p hs)"
      then have "h0 < h" "h \<le> st_LastBlockHeight (CurState (client s))"
        using assms(5) len(2) by (auto dest!: in_set_page_slice)
      then show "\<exists>b c st r. ms_entries (Storage (client s)) h = Some (b, c, st, r)
        \<and> GetBlockIdFromBlock E b = Return (st_LastBlockID (state_at (client s) (h + 1)))"
        using linked_entry [OF assms(1)] by metis
    qed
    from collect_blocks [OF o this] show ?thesis
      using True ij assms(3,4) vp
      by (auto simp: route_BlockSearch_def run_bindP ord lift_outcome_def Let_def collect_elements len simp flip: assms(7))
  next
    case False
    then show ?thesis using assms(3,4) vp
      by (simp add: route_BlockSearch_def run_bindP ord lift_outcome_def Let_def flip: assms(7)) auto
  qed
  assume "ob \<notin> {''desc'', '''', ''asc''}"
  then show "fst (route_BlockSearch E query (Some k) perPagePtr ob s) = Error InvalidOrderBy"
    using assms(3,4) by (simp add: route_BlockSearch_def run_bindP order_blocks_def lift_outcome_def)
qed

theorem block_search_serves_page_witness:
  "\<exists>s :: int sys. fst (route_BlockSearch sample_env ''q'' (Some 1) None '''' s) = Return
      \<lparr>rbs_Blocks = [\<lparr>rb_BlockID = st_LastBlockID (state_at (client s) 2), rb_Block = LastBlock (client s)\<rparr>],
       rbs_TotalCount = 1\<rparr>
    \<and> blk_Txs (LastBlock (client s)) = [''a'']
    \<and> fst (route_BlockSearch sample_env ''q'' (Some 1) None ''up'' s) = Error InvalidOrderBy"
proof -
  obtain s :: "int sys" where s: "linked sample_env 0 (client s)" "\<not> stateUpdateMutex (Storage (client s))"
    "st_LastBlockHeight (CurState (client s)) = 1" "LastBlock (client s) = fst (the (ms_entries (Storage (client s)) 1))"
    "blk_Txs (LastBlock (client s)) = [''a'']"
    by (rule sample_chain)
  have q: "cmtquery_New sample_env ''q'' = Inr ''q''" "BlockIndex_Search sample_env ''q'' (world s) = Inr [1]"
    "set [1] \<subseteq> {0<..st_LastBlockHeight (CurState (client s))}" "int (length [1 :: int]) < 2 ^ 63"
    "30 = validatePerPage None" "1 = page_count 30 (int (length [1 :: int]))"
    by (simp_all add: sample_env_def s(3) validatePerPage_def defaultPerPage_def page_count_def)
  have "(('''' :: string) \<in> {''desc'', ''''} \<and> [1] = rev (sort [1 :: int])) \<or> (('''' :: string) = ''asc'' \<and> [1 :: int] = sort [1])"
    by simp
  from block_search_serves_page [OF s(1,2) q this, of 1 "''up''"] s(4,5) show ?thesis
    by (intro exI [of _ s]) (simp add: page_slice_def)
qed

lemma collect_txs:
  assumes "open_store e s" "prove \<Longrightarrow> \<forall>r \<in> set rs. \<exists>b c st f. e (tr_Height r) = Some (b, c, st, f)
      \<and> txs_Proof E (blk_Txs b) (tr_Index r) = Inr (pf r)"
  shows "\<exists>t. collect (\<lambda>r. bindP (tx_proof E prove r) (\<lambda>proof.
        ret \<lparr>rt_Hash = tx_Hash E (tr_Tx r), rt_Height = tr_Height r, rt_Index = tr_Index r,
          rt_TxResult = tr_Result r, rt_Tx = tr_Tx r, rt_Proof = proof\<rparr>)) rs s
    = (Return (map (\<lambda>r. \<lparr>rt_Hash = tx_Hash E (tr_Tx r), rt_Height = tr_Height r, rt_Index = tr_Index r,
          rt_TxResult = tr_Result r, rt_Tx = tr_Tx r, rt_Proof = if prove then Some (pf r) else None\<rparr>) rs), t)"
  using assms
proof (induction rs arbitrary: s)
  case (Cons r rs)
  obtain t where t: "tx_proof E prove r s = (Return (if prove then Some (pf r) else None), t)" "open_store e t"
  proof (cases prove)
    case True
    then obtain b c st f where b: "e (tr_Height r) = Some (b, c, st, f)" "txs_Proof E (blk_Txs b) (tr_Index r) = Inr (pf r)"
      using Cons.prems(2) by auto
    then obtain t where "in_storage (GetBlock (tr_Height r)) s = (Return b, t)" "open_store e t"
      using open_store_read(1) [OF Cons.prems(1)] by blast
    then show thesis using that [of t] b True by (simp add: tx_proof_def run_bindP or_panic_def)
  qed (use Cons.prems that [of s] in \<open>simp add: tx_proof_def\<close>)
  show ?case using Cons.IH [OF t(2)] Cons.prems(2) t(1) by (auto simp: run_bindP)
qed simp

text \<open>
  Claim C25. The route \<open>tx_search\<close> returns the requested page of the matching transactions, ordered by height and
  then by index, ascending unless descending order is asked for, each with its hash and, if asked for, its proof
  against the stored block of its height; the count is that of all matches. A page out of range, and a query longer
  than the limit, are refused.
\<close>

theorem tx_search_serves_page:
  assumes "ms_wf (Storage (client s))" "\<not> stateUpdateMutex (Storage (client s))"
    and "length query \<le> maxQueryLength" "cmtquery_New E query = Inr q" "TxIndex_Search E q (world s) = Inr found"
    and "prove \<longrightarrow> (\<forall>r \<in> set found. \<exists>b c st f. ms_entries (Storage (client s)) (tr_Height r) = Some (b, c, st, f)
      \<and> txs_Proof E (blk_Txs b) (tr_Index r) = Inr (pf r))"
    and "int (length found) < 2 ^ 63" "p = validatePerPage perPagePtr" "n = page_count p (int (length found))"
    and "(orderBy = ''desc'' \<and> rs = rev (sort_key (\<lambda>r. (tr_Height r, tr_Index r)) found))
      \<or> (orderBy \<in> {''asc'', ''''} \<and> rs = sort_key (\<lambda>r. (tr_Height r, tr_Index r)) found)"
  shows "fst (route_TxSearch E query prove (Some k) perPagePtr orderBy s) = (if 1 \<le> k \<and> k \<le> n
    then Return \<lparr>rts_Txs = map (\<lambda>r. \<lparr>rt_Hash = tx_Hash E (tr_Tx r), rt_Height = tr_Height r, rt_Index = tr_Index r,
           rt_TxResult = tr_Result r, rt_Tx = tr_Tx r, rt_Proof = if prove then Some (pf r) else None\<rparr>) (page_slice k p rs),
         rts_TotalCount = int (length found)\<rparr>
    else Error (PageOutOfRange n k))
    \<and> (\<forall>long. length long > 512 \<longrightarrow> fst (route_TxSearch E long prove (Some k) perPagePtr orderBy s) = Error QueryTooLong)"
proof (intro conjI allI impI)
  have len: "length rs = length found" "set rs = set found" using assms(10) by auto
  have ord: "order_txs orderBy found = Return rs" using assms(10) by (auto simp: order_txs_def Let_def)
  have p1: "1 \<le> p" using validatePerPage_range assms(8) by simp
  have o: "open_store (ms_entries (Storage (client s))) s" using assms(1,2) by (simp add: open_store_def)
  have vp: "validatePage (Some k) p (int (length rs)) = (if 1 \<le> k \<and> k \<le> n then Return k else Error (PageOutOfRange n k))"
    using validatePage_eq [OF p1 _ assms(7)] by (simp add: len assms(9))
  show "fst (route_TxSearch E query prove (Some k) perPagePtr orderBy s) = (if 1 \<le> k \<and> k \<le> n
    then Return \<lparr>rts_Txs = map (\<lambda>r. \<lparr>rt_Hash = tx_Hash E (tr_Tx r), rt_Height = tr_Height r, rt_Index = tr_Index r,
           rt_TxResult = tr_Result r, rt_Tx = tr_Tx r, rt_Proof = if prove then Some (pf r) else None\<rparr>) (page_slice k p rs),
         rts_TotalCount = int (length found)\<rparr>
    else Error (PageOutOfRange n k))"
  proof (cases "1 \<le> k \<and> k \<le> n")
    case True
    obtain i j where ij: "page_indices (int (length rs)) (validateSkipCount k p) p = Return [int i..int j - 1]"
        "j \<le> length rs" "take (j - i) (drop i rs) = page_slice k p rs"
      using page_indices_valid [OF assms(8), of rs k] True assms(7,9) by (auto simp: len page_slice_def)
    have "\<forall>r \<in> set (page_slice k p rs). \<exists>b c st f. ms_entries (Storage (client s)) (tr_Height r) = Some (b, c, st, f)
      \<and> txs_Proof E (blk_Txs b) (tr_Index r) = Inr (pf r)" if prove
      using assms(6) that len(2) by (blast dest: in_set_page_slice)
    from collect_txs [where prove = prove, OF o this] show ?thesis
      using True ij assms(3-5) vp
      by (auto simp: route_TxSearch_def run_bindP ord lift_outcome_def Let_def collect_elements len simp flip: assms(8))
  next
    case False
    then show ?thesis using assms(3-5) vp
      by (simp add: route_TxSearch_def run_bindP ord lift_outcome_def Let_def flip: assms(8)) auto
  qed
  fix long :: string
  assume "length long > 512"
  then show "fst (route_TxSearch E long prove (Some k) perPagePtr orderBy s) = Error QueryTooLong"
    by (simp add: route_TxSearch_def maxQueryLength_def)
qed

theorem tx_search_serves_page_witness:
  "\<exists>(s :: int sys) r1 r2. fst (route_TxSearch sample_env ''q'' True (Some 1) None '''' s)
      = Return \<lparr>rts_Txs = [r1, r2], rts_TotalCount = 2\<rparr>
    \<and> rt_Index r1 = 0 \<and> rt_Tx r1 = ''a'' \<and> rt_Proof r1 = Some ''proof'' \<and> rt_Index r2 = 1"
proof -
  obtain s :: "int sys" where s: "linked sample_env 0 (client s)" "\<not> stateUpdateMutex (Storage (client s))"
    "st_LastBlockHeight (CurState (client s)) = 1"
    by (rule sample_chain)
  obtain b c r where e: "ms_entries (Storage (client s)) 1 = Some (b, c, state_at (client s) 1, r)"
    by (rule linked_entry [OF s(1), of 1]) (simp_all add: s(3))
  let ?x = "\<lambda>i t. \<lparr>tr_Height = 1, tr_Index = i, tr_Tx = t, tr_Result = []\<rparr>"
  have w: "ms_wf (Storage (client s))" using s(1) by (simp add: linked_def)
  have q: "length ''q'' \<le> maxQueryLength" "cmtquery_New sample_env ''q'' = Inr ''q''"
    "TxIndex_Search sample_env ''q'' (world s) = Inr [?x 1 ''b'', ?x 0 ''a'']"
    "True \<longrightarrow> (\<forall>r \<in> set [?x 1 ''b'', ?x 0 ''a'']. \<exists>b c st f. ms_entries (Storage (client s)) (tr_Height r) = Some (b, c, st, f)
      \<and> txs_Proof sample_env (blk_Txs b) (tr_Index r) = Inr ''proof'')"
    "int (length [?x 1 ''b'', ?x 0 ''a'']) < 2 ^ 63" "30 = validatePerPage None"
    "1 = page_count 30 (int (length [?x 1 ''b'', ?x 0 ''a'']))"
    using e by (simp_all add: sample_env_def maxQueryLength_def validatePerPage_def defaultPerPage_def page_count_def)
  have "(('''' :: string) = ''desc'' \<and> [?x 0 ''a'', ?x 1 ''b''] = rev (sort_key (\<lambda>r. (tr_Height r, tr_Index r)) [?x 1 ''b'', ?x 0 ''a'']))
      \<or> (('''' :: string) \<in> {''asc'', ''''} \<and> [?x 0 ''a'', ?x 1 ''b''] = sort_key (\<lambda>r. (tr_Height r, tr_Index r)) [?x 1 ''b'', ?x 0 ''a''])"
    by simp
  from tx_search_serves_page [OF w s(2) q this, of 1] show ?thesis
    by (intro exI [of _ s]) (simp add: page_slice_def)
qed

section \<open>Transactions\<close>

text \<open>
  Claim C21. What broadcasting a transaction does. Every application is asked; if they answer (and agree), the
  transaction is put at the end of the queue, whatever the code of the answer is, exactly one block is started in the
  background if transactions are included automatically and none otherwise, and the answer is returned with
  the hash of the transaction and the height of the chain; nothing else changes. If the call fails, the
  error is returned and nothing changes at all.
\<close>

theorem broadcast_queues_tx:
  assumes "\<not> blockMutex s" and "SendCheckTx E CheckTxType_New tx s = (r, u)"
  shows "core (snd (BroadcastTx E tx s)) = (case r of
      Return _ \<Rightarrow> ((client s)\<lparr>FreshTxQueue := FreshTxQueue (client s) @ [tx]\<rparr>, False,
        goroutines s + (if AutoIncludeTx (client s) then 1 else 0), published s)
    | _ \<Rightarrow> core s)
    \<and> fst (BroadcastTx E tx s) = bindO r (\<lambda>res. Return \<lparr>rbc_CheckTx = res, rbc_Hash = tx_Hash E tx,
        rbc_Height = st_LastBlockHeight (CurState (client s))\<rparr>)"
proof -
  have "core u = core s" using assms(2) by (rule check_call.core_unchanged)
  then show ?thesis
    using assms
    by (cases r) (auto simp: BroadcastTx_def run_bindP run_seqP QueueTx_def blockMutex_Lock_def blockMutex_Unlock_def core_def)
qed

theorem broadcast_queues_tx_witness:
  "\<exists>t. route_BroadcastTxSync sample_env ''bad'' sample_sys
      = (Return \<lparr>rbt_Code = 1, rbt_Data = [], rbt_Log = [], rbt_Hash = ''bad'', rbt_Codespace = []\<rparr>, t)
    \<and> FreshTxQueue (client t) = [''a'', ''bad'', ''bad''] \<and> goroutines t = 0"
proof -
  have s: "\<not> blockMutex sample_sys" by (simp add: sample_sys_def)
  obtain u where c: "SendCheckTx sample_env CheckTxType_New ''bad'' sample_sys
      = (Return \<lparr>rsc_Code = 1, rsc_Data = [], rsc_Log = [], rsc_Codespace = [], rsc_other = []\<rparr>, u)"
    by (simp add: send_defs broadcast_def range_clients_def call_def sample_sys_defs run_eval)
  obtain r t where b: "BroadcastTx sample_env ''bad'' sample_sys = (r, t)" by fastforce
  have "tx_Hash sample_env ''bad'' = ''bad''" "FreshTxQueue (client sample_sys) = [''a'', ''bad'']"
    "\<not> AutoIncludeTx (client sample_sys)" "goroutines sample_sys = 0"
    by (simp_all add: sample_env_def sample_sys_def)
  with broadcast_queues_tx [OF s c] show ?thesis
    by (simp add: route_BroadcastTxSync_def run_bindP b core_def)
qed

end
