(* ===== verification/Service.thy ===== *)
theory Service
  imports Startup Route_Properties
begin

text \<open>
  The running program: the route table of \<open>rpc_server/routes.go\<close>, and the three things that happen once \<open>main\<close> has started
  the chain: a request is served, a block that a broadcast asked for in the background is run, and the loop of \<open>main\<close>
  produces a block. A panic while a request is served is recovered by the RPC server of CometBFT; a panic in the background or
  in \<open>main\<close> ends the process. The three websocket routes only reach the event bus (theory \<open>Websocket\<close>).
\<close>

section \<open>The route table\<close>

datatype rpc_call =
    Call_health
  | Call_status
  | Call_validators "int option" "int option" "int option"
  | Call_block "int option"
  | Call_consensus_params "int option"
  | Call_commit "int option"
  | Call_block_results "int option"
  | Call_tx bytes bool
  | Call_tx_search string bool "int option" "int option" string
  | Call_block_search string "int option" "int option" string
  | Call_broadcast_tx_commit tx
  | Call_broadcast_tx_sync tx
  | Call_broadcast_tx_async tx
  | Call_abci_query string bytes int bool
  | Call_abci_info
  | Call_advance_blocks int
  | Call_set_signing_status string string
  | Call_advance_time duration
  | Call_cause_double_sign string
  | Call_cause_light_client_attack string string

fun Routes :: "'w env \<Rightarrow> rpc_call \<Rightarrow> ('w, unit) run" where
  "Routes E Call_health = route_Health"
| "Routes E Call_status = forget (route_Status E)"
| "Routes E (Call_validators height page per_page) = forget (route_Validators height page per_page)"
| "Routes E (Call_block height) = forget (route_Block E height)"
| "Routes E (Call_consensus_params height) = forget (route_ConsensusParams height)"
| "Routes E (Call_commit height) = forget (route_Commit height)"
| "Routes E (Call_block_results height) = forget (route_BlockResults height)"
| "Routes E (Call_tx hash prove) = forget (route_Tx E hash prove)"
| "Routes E (Call_tx_search query prove page per_page order_by) = forget (route_TxSearch E query prove page per_page order_by)"
| "Routes E (Call_block_search query page per_page order_by) = forget (route_BlockSearch E query page per_page order_by)"
| "Routes E (Call_broadcast_tx_commit tx) = route_BroadcastTxCommit tx"
| "Routes E (Call_broadcast_tx_sync tx) = forget (route_BroadcastTxSync E tx)"
| "Routes E (Call_broadcast_tx_async tx) = forget (route_BroadcastTxAsync E tx)"
| "Routes E (Call_abci_query path data height prove) = forget (route_ABCIQuery E path data height prove)"
| "Routes E Call_abci_info = forget (route_ABCIInfo E)"
| "Routes E (Call_advance_blocks num_blocks) = route_AdvanceBlocks E num_blocks"
| "Routes E (Call_set_signing_status address status) = forget (route_SetSigningStatus address status)"
| "Routes E (Call_advance_time duration_in_seconds) = forget (route_AdvanceTime E duration_in_seconds)"
| "Routes E (Call_cause_double_sign address) = route_CauseDoubleSign E address"
| "Routes E (Call_cause_light_client_attack address misbehaviour_type) =
     route_CauseLightClientAttack E address misbehaviour_type"

section \<open>What happens to a running program\<close>

datatype happening = Request rpc_call | Background | Produce

fun happen :: "'w env \<Rightarrow> happening \<Rightarrow> ('w, unit) run" where
  "happen E (Request c) = Routes E c"
| "happen E Background = goroutine_step E"
| "happen E Produce = fatal (RunBlock E)"

section \<open>Invariants of the running program\<close>

lemma keeps_reads [keeps_intros]:
  "read_blind P \<Longrightarrow> keeps P (in_storage (GetCommit h))" "read_blind P \<Longrightarrow> keeps P (in_storage (GetResponses h))"
  by (intro keeps_in_storage, simp add: read_blind_def same_reads_def reads_frame)+

lemma keeps_requested_height [keeps_intros]: "keeps P (requested_height h)"
  by (simp add: requested_height_def keeps_bindP)

lemma keeps_tx_proof [keeps_intros]: "read_blind P \<Longrightarrow> keeps P (tx_proof E prove r)"
  by (auto simp: tx_proof_def or_panic_def intro!: keeps_intros)

lemma keeps_element [keeps_intros]: "keeps P (element xs i)"
  by (auto simp: element_def intro!: keeps_intros)

fun is_query :: "rpc_call \<Rightarrow> bool" where
  "is_query (Call_broadcast_tx_sync tx) = False"
| "is_query (Call_broadcast_tx_async tx) = False"
| "is_query (Call_advance_blocks n) = False"
| "is_query (Call_set_signing_status a b) = False"
| "is_query (Call_advance_time d) = False"
| "is_query (Call_cause_double_sign a) = False"
| "is_query (Call_cause_light_client_attack a m) = False"
| "is_query c = True"

lemmas query_defs = route_Health_def route_Status_def route_Validators_def route_Block_def route_ConsensusParams_def
  route_Commit_def route_BlockResults_def route_Tx_def route_TxSearch_def route_BlockSearch_def
  route_BroadcastTxCommit_def route_ABCIQuery_def route_ABCIInfo_def

lemma keeps_queries: "read_blind P \<Longrightarrow> is_query c \<Longrightarrow> keeps P (Routes E c)"
  using read_blindD [of P] by (cases c) (auto simp: query_defs Let_def intro!: keeps_intros)

text \<open>
  The interface of an invariant: what has to be shown of the operations that change the client so
  that a predicate holds in every state of the living program.
\<close>

locale step_invariant =
  fixes E :: "'w env" and P :: "'w sys \<Rightarrow> bool"
  assumes blind: "read_blind P"
    and fresh: "P s \<Longrightarrow> P (s\<lparr>client := (client s)\<lparr>FreshTxQueue := q\<rparr>\<rparr>)"
    and mutex: "P s \<Longrightarrow> P (s\<lparr>blockMutex := l\<rparr>)"
    and pending: "P s \<Longrightarrow> P (s\<lparr>goroutines := n\<rparr>)"
    and status: "keeps P (SetSigningStatus a b)"
    and block: "keeps P (RunBlockWithTimeAndProposer E t p misb)"

locale service_invariant = step_invariant +
  assumes asks: "keeps P (GetBlockTime E t)"
    and advances: "keeps P (AdvanceTime E d)"
begin

lemma runs:
  "keeps P (RunBlock E)" "keeps P (CauseDoubleSign E a)" "keeps P (CauseLightClientAttack E a m)"
  unfolding RunBlock_def CauseDoubleSign_def CauseLightClientAttack_def RunBlockWithEvidence_def last_proposer_def
  by (auto intro!: keeps_intros asks block simp: Let_def)

lemma keeps_BroadcastTx: "keeps P (BroadcastTx E tx)"
  unfolding BroadcastTx_def using read_blindD [OF blind]
  by (auto intro!: keeps_intros fresh mutex pending simp: keeps_modify)

lemma keeps_Routes: "keeps P (Routes E c)"
proof (cases "is_query c")
  case True
  then show ?thesis using blind by (rule keeps_queries [rotated])
next
  case False
  then show ?thesis using read_blindD [OF blind]
    by (cases c) (auto simp: route_BroadcastTxSync_def route_BroadcastTxAsync_def route_AdvanceBlocks_def
      RunEmptyBlocks_def route_SetSigningStatus_def route_AdvanceTime_def route_CauseDoubleSign_def
      route_CauseLightClientAttack_def GetSigningStatusMap_def intro!: keeps_intros keeps_BroadcastTx runs status advances)
qed

lemma keeps_happen: "keeps P (happen E h)"
  by (cases h) (auto simp: keeps_Routes goroutine_step_def fatal_def keeps_modify pending
      intro!: keeps_intros runs split: nat.split sum.split)

end

text \<open>A predicate that does not look at the time handler has less to show.\<close>

locale clock_blind_invariant = step_invariant +
  assumes time: "P s \<Longrightarrow> P (s\<lparr>client := (client s)\<lparr>TimeHandler := th\<rparr>\<rparr>)"

sublocale clock_blind_invariant \<subseteq> service_invariant
  by unfold_locales (auto intro!: keeps_GetBlockTime time read_blindD [OF blind])

text \<open>A block keeps every predicate that does not look at what a block changes.\<close>

lemma keeps_block:
  assumes q: "queue_blind P"
    and "\<And>s m. P s \<Longrightarrow> P (s\<lparr>client := (client s)\<lparr>Storage := m\<rparr>\<rparr>)"
    and "\<And>s c. P s \<Longrightarrow> P (s\<lparr>client := (client s)\<lparr>LastCommit := c\<rparr>\<rparr>)"
    and "\<And>s st. P s \<Longrightarrow> P (s\<lparr>client := (client s)\<lparr>CurState := st\<rparr>\<rparr>)"
    and "\<And>s b. P s \<Longrightarrow> P (s\<lparr>client := (client s)\<lparr>LastBlock := b\<rparr>\<rparr>)"
    and "\<And>s evs. P s \<Longrightarrow> P (s\<lparr>published := evs\<rparr>)" and "\<And>s l. P s \<Longrightarrow> P (s\<lparr>blockMutex := l\<rparr>)"
  shows "keeps P (RunBlockWithTimeAndProposer E t p misb)"
proof -
  note e = queue_blindD [OF q]
  have st: "keeps P (in_storage pr)" for pr :: "unit storage_prog"
    using assms(2) by (intro keeps_in_storage) simp
  have "keeps P (store_and_commit E h b res)" for h b res
    using e assms by (auto simp: store_and_commit_def UpdateStateFromBlock_def upd_state_def intro!: keeps_intros st)
  then have "keeps P (finalize_and_commit E h b)" for h b
    using e by (auto simp: finalize_and_commit_def intro!: keeps_intros)
  then have "keeps P (runBlock_helper E t p misb)"
    using q e assms(3) by (auto simp: runBlock_helper_def Let_def intro!: keeps_intros)
  then show ?thesis
    using assms(7) by (auto simp: RunBlockWithTimeAndProposer_def blockMutex_Lock_def blockMutex_Unlock_def keeps_modify
        intro!: keeps_intros split: sum.split)
qed

interpretation store_locked: clock_blind_invariant E "\<lambda>s. stateUpdateMutex (Storage (client s))" for E :: "'w env"
  by unfold_locales (auto simp: read_blind_def env_blind_def same_reads_def keeps_locked intro!: keeps_intros)

text \<open>Who is registered, and the settings: fixed at the start.\<close>

definition settings :: "abci_client \<Rightarrow> (string \<times> counterparty) list \<times> string set \<times> bool \<times> bool" where
  "settings a = (Clients a, dom (signingStatus a), ErrorOnUnequalResponses a, AutoIncludeTx a)"

lemma keeps_settings_status: "keeps (\<lambda>s. settings (client s) = x) (SetSigningStatus a b)"
  by (rule keepsI) (auto simp: SetSigningStatus_def run_bindP run_seqP settings_def split: option.split)

interpretation configuration: clock_blind_invariant E "\<lambda>s. settings (client s) = x" for E :: "'w env" and x
proof (unfold_locales, goal_cases)
  case (6 t p misb)
  show ?case by (rule keeps_block) (auto simp: queue_blind_def read_blind_def env_blind_def settings_def)
next
  case (5 a b)
  show ?case by (rule keeps_settings_status)
qed (auto simp: read_blind_def env_blind_def settings_def)

text \<open>The kind of the time handler and its block time are fixed at the start; its offset is an \<open>int64\<close>.\<close>

definition clock_typed :: "duration \<Rightarrow> time_handler \<Rightarrow> bool" where
  "clock_typed bt th \<longleftrightarrow> (if bt < 0 then \<exists>d. th = SystemClockTimeHandler \<lparr>sc_curOffset = d\<rparr> \<and> in64 d
     else \<exists>d t. th = FixedBlockTimeHandler \<lparr>fb_blockTime = bt, fb_curBlockOffset = d, fb_lastBlockTimestamp = t\<rparr> \<and> in64 d)"

lemma in64_0 [simp]: "in64 0"
  by (simp add: in64_def)

lemma keeps_clock_typed:
  "keeps (\<lambda>s. clock_typed bt (TimeHandler (client s))) (GetBlockTime E t)"
  "keeps (\<lambda>s. clock_typed bt (TimeHandler (client s))) (AdvanceTime E d)"
  by (auto simp: keeps_def clock_typed_def GetBlockTime_def AdvanceTime_def read_clock_def sc_GetBlockTime_def sc_AdvanceTime_def
      fb_GetBlockTime_def fb_AdvanceTime_def Let_def run_bindP run_seqP split_def)

interpretation clock: service_invariant E "\<lambda>s. clock_typed bt (TimeHandler (client s))" for E :: "'w env" and bt
proof (unfold_locales, goal_cases)
  case (6 t p misb)
  show ?case by (rule keeps_block) (auto simp: queue_blind_def read_blind_def env_blind_def)
qed (auto simp: read_blind_def env_blind_def keeps_clock_typed intro!: keeps_intros)

section \<open>A block that fails\<close>

text \<open>
  The time handler is asked before a block is run and is not told how it ends: whatever the outcome, a pending advance of the clock is
  used up. After a block that failed, the next one is stamped as if the time had never been advanced.
\<close>

lemma failed_block_uses_up_advance:
  assumes "TimeHandler (client s) = FixedBlockTimeHandler f" and "RunBlock E s = (r, s')"
  shows "TimeHandler (client s') = FixedBlockTimeHandler (f\<lparr>fb_curBlockOffset := 0, fb_lastBlockTimestamp :=
    hd_Time (blk_Header (LastBlock (client s))) + i64 (fb_blockTime f + fb_curBlockOffset f)\<rparr>)"
proof -
  let ?t = "hd_Time (blk_Header (LastBlock (client s))) + i64 (fb_blockTime f + fb_curBlockOffset f)"
  let ?th = "FixedBlockTimeHandler (f\<lparr>fb_curBlockOffset := 0, fb_lastBlockTimestamp := ?t\<rparr>)"
  have k: "keeps (\<lambda>u. TimeHandler (client u) = ?th) (RunBlockWithTimeAndProposer E t p misb)" for t p misb
    by (rule keeps_block) (auto simp: queue_blind_def read_blind_def env_blind_def)
  have "RunBlockWithTimeAndProposer E ?t (vs_Proposer (st_LastValidators (CurState (client s)))) []
      (s\<lparr>client := (client s)\<lparr>TimeHandler := ?th\<rparr>\<rparr>) = (r, s')"
    using assms by (simp add: RunBlock_def last_proposer_def GetBlockTime_def fb_GetBlockTime_def time_Add_def Let_def run_bindP run_seqP)
  with keepsD [OF k, of "s\<lparr>client := (client s)\<lparr>TimeHandler := ?th\<rparr>\<rparr>" ?t "vs_Proposer (st_LastValidators (CurState (client s)))" "[]"]
  show ?thesis by simp
qed

section \<open>Queries\<close>

text \<open>Everything of the program but the allocation of the store's maps, which no read can see.\<close>

definition observed :: "'w sys \<Rightarrow> abci_client \<times> bool \<times> nat \<times> event list" where
  "observed s = ((client s)\<lparr>Storage := allocated (Storage (client s))\<rparr>, blockMutex s, goroutines s, published s)"

text \<open>
  Claim C26. Queries change nothing. Whatever a query returns, and also if it fails, panics or waits for the store, the client (its
  chain state, its last block and commit, the stored entries, the queues, the signing statuses and the time handler),
  the locks, the pending blocks and the published events are as they were.
\<close>

theorem queries_change_nothing:
  assumes "is_query c" and "Routes E c s = (r, t)"
  shows "observed t = observed s"
proof -
  have "read_blind (\<lambda>u. observed u = observed s)"
    by (auto simp: read_blind_def env_blind_def observed_def same_reads_allocated)
  then show ?thesis using keeps_run [OF keeps_queries [OF _ assms(1)] assms(2)] by blast
qed

theorem queries_change_nothing_witness:
  "\<exists>r t. Routes sample_env (Call_block (Some 5)) sample_sys = (r, t) \<and> observed t = observed sample_sys"
proof -
  obtain r t where "Routes sample_env (Call_block (Some 5)) sample_sys = (r, t)" by fastforce
  then show ?thesis using queries_change_nothing [of "Call_block (Some 5)" sample_env sample_sys] by auto
qed

section \<open>The range of advance\_time\<close>

lemma i64_wraps: "2 ^ 63 \<le> x \<Longrightarrow> x < 2 ^ 64 \<Longrightarrow> i64 x = x - 2 ^ 64"
proof -
  assume "2 ^ 63 \<le> x" "x < 2 ^ 64"
  then have "(x + 2 ^ 63 - 2 ^ 64) mod 2 ^ 64 = x + 2 ^ 63 - 2 ^ 64" by simp
  then have "(x + 2 ^ 63) mod 2 ^ 64 = x + 2 ^ 63 - 2 ^ 64" by (simp only: minus_mod_self2)
  then show ?thesis by (simp add: i64_def)
qed

lemma i64_add_right: "i64 (y + i64 x) = i64 (y + x)"
  using i64_add_i64 [of x y] by (simp add: add.commute)

lemma i64_eq_iff: "i64 x = x \<longleftrightarrow> in64 x"
  by (metis i64_id in64_i64)

text \<open>
  Claim C29. How far \<open>advance_time\<close> reaches. The seconds are multiplied by \<open>time.Second\<close> in an \<open>int64\<close>, which wraps around: with a
  fixed block time the answer is the time of the last block, plus the block time and the pending advances, plus the
  seconds asked for, exactly as long as these durations together stay below \<open>2 ^ 63\<close> nanoseconds (about 292 years); beyond,
  up to twice as far, the answer is before the last block: the clock is turned back.
\<close>

theorem advance_time_range:
  assumes "TimeHandler (client s) = FixedBlockTimeHandler f" and "0 \<le> fb_blockTime f" "0 \<le> fb_curBlockOffset f" "0 \<le> seconds"
    and "route_AdvanceTime E seconds s = (Return t, s')"
    and "ahead = fb_blockTime f + fb_curBlockOffset f + seconds * nano_second"
  shows "(t = fb_lastBlockTimestamp f + ahead \<longleftrightarrow> ahead < 2 ^ 63)
    \<and> (2 ^ 63 \<le> ahead \<and> ahead < 2 ^ 64 \<longrightarrow> t < fb_lastBlockTimestamp f)"
proof -
  have "0 \<le> ahead" using assms(2-4,6) by (simp add: nano_second_def)
  have "t = fb_lastBlockTimestamp f + i64 ahead"
    using assms(1,4-6) by (auto simp: route_AdvanceTime_def AdvanceTime_def fb_AdvanceTime_def time_Add_def Let_def
        run_bindP run_seqP ret_def i64_add_right add.assoc)
  then show ?thesis using i64_eq_iff [of ahead] i64_wraps [of ahead] \<open>0 \<le> ahead\<close> by (auto simp: in64_def)
qed

theorem advance_time_range_witness:
  "\<exists>t s'. route_AdvanceTime sample_env 9223372037 sample_sys = (Return t, s') \<and> t < zero_time"
proof -
  have th: "TimeHandler (client sample_sys) = FixedBlockTimeHandler (NewFixedBlockTimeHandler 10)"
    by (simp add: sample_sys_def)
  then obtain t s' where r: "route_AdvanceTime sample_env 9223372037 sample_sys = (Return t, s')"
    by (simp add: route_AdvanceTime_def AdvanceTime_def run_bindP run_seqP ret_def split_def)
  from advance_time_range [OF th _ _ _ r refl] r show ?thesis
    by (auto simp: NewFixedBlockTimeHandler_def nano_second_def)
qed

end
