(* ===== verification/Failed_Block.thy ===== *)
theory Failed_Block
  imports Service
begin

text \<open>
  What a block that fails leaves behind. \<open>runBlock_helper\<close> clears the queues and writes the commit it made into the client before it asks the
  applications to finalize the block, and takes nothing back when they fail; the time handler has been asked before. The error tells how far a block came: \<open>errs Q m\<close>
  says that every error of \<open>m\<close> satisfies \<open>Q\<close>.
\<close>

section \<open>The errors of a program\<close>

named_theorems errs_intros \<open>rules about the errors of a program\<close>

definition errs :: "('e \<Rightarrow> bool) \<Rightarrow> ('s, 'a, 'e, 'p) prog \<Rightarrow> bool" where
  "errs Q m \<longleftrightarrow> (\<forall>s e. fst (m s) = Error e \<longrightarrow> Q e)"

lemma reify_error_not_Error [simp]: "reify_error r \<noteq> Error e"
  by (cases r) auto

lemma map_error_Error: "map_error f r = Error e \<Longrightarrow> \<exists>x. e = f x"
  by (cases r) auto

lemma seq_outcome_Error:
  "fst (seq_outcome r f) = Error e \<longleftrightarrow> fst r = Error e \<or> (\<exists>a. fst r = Return a \<and> fst (f a (snd r)) = Error e)"
  by (cases "(r, f)" rule: seq_outcome.cases) auto

lemma errs_pure [errs_intros]:
  "errs Q (ret a)" "errs Q (panic p)" "errs Q stuck" "errs Q (gets f)" "errs Q (modify g)" "Q e \<Longrightarrow> errs Q (throw e)"
  "errs Q (attempt m)" "(\<And>x. r = Error x \<Longrightarrow> Q x) \<Longrightarrow> errs Q (lift_outcome r)"
  by (auto simp: errs_def run_attempt)

lemma errs_client [errs_intros]: "errs Q (get_client h)" "errs Q (upd_client k)"
  by (auto simp: errs_def)

lemma errs_bindP [errs_intros]: "errs Q m \<Longrightarrow> (\<And>a. errs Q (f a)) \<Longrightarrow> errs Q (bindP m f)"
  unfolding errs_def run_bindP seq_outcome_Error by blast

lemma errs_seqP [errs_intros]: "errs Q m \<Longrightarrow> errs Q k \<Longrightarrow> errs Q (seqP m k)"
  by (simp add: seqP_def errs_bindP)

lemma errs_wrap_error [errs_intros]: "(\<And>e. Q (f e)) \<Longrightarrow> errs Q (wrap_error f m)"
  by (auto simp: errs_def run_wrap_error dest: map_error_Error)

lemma errs_foreach [errs_intros]: "(\<And>x. errs Q (f x)) \<Longrightarrow> errs Q (foreach f xs)"
  by (induction xs) (simp_all add: errs_pure errs_seqP)

lemma errs_collect [errs_intros]: "(\<And>x. errs Q (f x)) \<Longrightarrow> errs Q (collect f xs)"
  by (induction xs) (auto intro!: errs_bindP simp: errs_pure)

lemma errs_cases [errs_intros]:
  "(b \<Longrightarrow> errs Q m) \<Longrightarrow> (\<not> b \<Longrightarrow> errs Q k) \<Longrightarrow> errs Q (if b then m else k)"
  "errs Q m1 \<Longrightarrow> (\<And>a. errs Q (f1 a)) \<Longrightarrow> errs Q (case x1 of None \<Rightarrow> m1 | Some a \<Rightarrow> f1 a)"
  "(\<And>a. errs Q (f2 a)) \<Longrightarrow> (\<And>a. errs Q (g2 a)) \<Longrightarrow> errs Q (case x2 of Inl a \<Rightarrow> f2 a | Inr a \<Rightarrow> g2 a)"
  "(\<And>a b. errs Q (f3 a b)) \<Longrightarrow> errs Q (case x3 of (a, b) \<Rightarrow> f3 a b)"
  by (auto split: option.split sum.split prod.split)

lemma errs_range_clients [errs_intros]: "errs Q (range_clients E)"
  by (auto simp: errs_def range_clients_def split: prod.splits)

section \<open>A block that is not finalized\<close>

fun other_error :: "go_error \<Rightarrow> bool" where
  "other_error (FinalizeBlockError e) = False"
| "other_error e = True"

text \<open>A failure of FinalizeBlock that is none of the first part's comes from the second.\<close>

lemma late_bindP:
  assumes "bindP m f s = (Error (FinalizeBlockError e), t)" "errs other_error m"
  obtains a u where "m s = (Return a, u)" "f a u = (Error (FinalizeBlockError e), t)"
proof (cases "fst (m s)")
  case (Return a)
  then show thesis using that [of a "snd (m s)"] assms(1) by (cases "m s") (simp add: run_bindP)
next
  case (Error x)
  then obtain u where "m s = (Error x, u)" by (cases "m s") auto
  moreover have "other_error x" using assms(2) Error by (auto simp: errs_def)
  ultimately show thesis using assms(1) by (auto simp: run_bindP)
qed (use assms(1) in \<open>(cases "m s", simp add: run_bindP)+\<close>)

lemma late_seqP:
  assumes "seqP m k s = (Error (FinalizeBlockError e), t)" "errs other_error m"
  obtains a u where "m s = (Return a, u)" "k u = (Error (FinalizeBlockError e), t)"
  using assms unfolding seqP_def by (rule late_bindP)

lemma add_votes_errors: "add_votes E vos votes = Error e \<Longrightarrow> other_error e"
  by (induction E vos votes rule: add_votes.induct) (auto split: prod.splits option.splits if_splits)

lemma phase_errors:
  "errs other_error (check_fresh_txs E)" "errs other_error (check_stale_txs E)" "errs other_error (collect_evidence E misb)"
  "errs other_error (find_proposer_app E a)" "errs other_error (propose_block E app p t txs evs)"
  "errs other_error (find_non_proposers E a)" "errs other_error (process_proposals E nps b)" "errs other_error (sign_votes E b)"
  "errs other_error (verify_extensions E b votes)" "errs other_error (make_commit E b votes)"
  unfolding check_fresh_txs_def check_stale_txs_def check_queue_def collect_evidence_def find_proposer_app_def propose_block_def
    find_non_proposers_def counterparty_of_def current_validators_def process_proposals_def sign_votes_def sign_vote_def
    verify_extensions_def verify_extension_def make_commit_def or_panic_def ClearTxs_def Let_def
  by (auto intro!: errs_intros dest: add_votes_errors)

lemma store_and_commit_errors: "errs other_error (store_and_commit E h b res)"
proof -
  have "errs other_error (in_storage LockBeforeStateUpdate)" "errs other_error (in_storage UnlockAfterStateUpdate)"
    by (auto simp: errs_def run_in_storage LockBeforeStateUpdate_def UnlockAfterStateUpdate_def run_bindP split: if_splits)
  then show ?thesis unfolding store_and_commit_def upd_state_def by (auto intro!: errs_intros)
qed

lemma bindO_Error: "bindO r f = Error e \<Longrightarrow> r = Error e \<or> (\<exists>a. r = Return a \<and> f a = Error e)"
  by (cases r) auto

lemma BuildLastCommitInfo_no_error: "BuildLastCommitInfo E b vs ih \<noteq> Error e"
proof -
  have "last_commit_votes E lc i vals \<noteq> Error e" for lc i vals e
    by (induction vals arbitrary: i) (auto split: option.split dest: bindO_Error)
  then show ?thesis by (auto simp: BuildLastCommitInfo_def Let_def split: option.split dest!: bindO_Error)
qed

lemma collect_calls_someone:
  assumes "collect (\<lambda>c :: counterparty. call (k c) (f c)) cs s = (r, t)" "cs \<noteq> []"
  shows "abci_log t \<noteq> abci_log s"
proof -
  obtain c cs' where cs: "cs = c # cs'" using assms(2) by (cases cs) auto
  obtain r1 u where u: "call (k c) (f c) s = (r1, u)" by fastforce
  obtain r2 v where v: "collect (\<lambda>c. call (k c) (f c)) cs' u = (r2, v)" by fastforce
  obtain n where "abci_log v = abci_log u @ map k (take n cs')" using collect_call_log [OF v] by blast
  moreover have "t = u \<or> t = v" using assms(1) u v by (cases r1; cases r2) (auto simp: cs run_bindP ret_def)
  ultimately show ?thesis using call_log [OF u] by auto
qed

lemma broadcast_fails:
  assumes "broadcast E (\<lambda>c :: counterparty. call (k c) (f c)) s = (Error e, t)"
  obtains cs where "cs \<noteq> []" "abci_log t = abci_log s @ map k cs"
proof -
  obtain cs u where rc: "range_clients E s = (Return cs, u)" using range_clients_Return by blast
  then have l: "abci_log u = abci_log s" by (auto simp: range_clients_def split: prod.splits)
  obtain r v where c: "collect (\<lambda>c. call (k c) (f c)) cs u = (r, v)" by fastforce
  have t: "t = v" and "cs \<noteq> []"
    using assms rc c by (cases r; auto simp: broadcast_def run_bindP ret_def split: if_splits list.splits)+
  obtain n where n: "abci_log v = abci_log u @ map k (take n cs)" using collect_call_log [OF c] by blast
  have "take n cs \<noteq> []" using collect_calls_someone [OF c \<open>cs \<noteq> []\<close>] n by auto
  then show thesis using that [of "take n cs"] n l t by simp
qed

lemma finalize_fails:
  assumes "finalize_and_commit E h b s = (Error (FinalizeBlockError e), t)"
  shows "client t = client s \<and> (\<exists>fin lci. fin \<noteq> [] \<and> abci_log t = abci_log s @ fin
    \<and> (\<forall>c \<in> set fin. \<exists>app. c = CallFinalizeBlock app (finalize_request E b lci)))"
proof -
  have "errs other_error (lift_outcome (BuildLastCommitInfo E b vs ih))" for vs ih
    by (rule errs_pure) (simp add: BuildLastCommitInfo_no_error)
  moreover have "bindP (lift_outcome (BuildLastCommitInfo E b (st_Validators (CurState (client s))) (st_InitialHeight (CurState (client s)))))
      (\<lambda>lci. bindP (wrap_error FinalizeBlockError (SendFinalizeBlock E b lci)) (store_and_commit E h b)) s
      = (Error (FinalizeBlockError e), t)"
    using assms by (simp add: finalize_and_commit_def run_bindP)
  ultimately obtain lci where f: "bindP (wrap_error FinalizeBlockError (SendFinalizeBlock E b lci)) (store_and_commit E h b) s
      = (Error (FinalizeBlockError e), t)"
    by - (erule late_bindP, auto)
  have "wrap_error FinalizeBlockError (SendFinalizeBlock E b lci) s = (Error (FinalizeBlockError e), t)"
  proof (cases "wrap_error FinalizeBlockError (SendFinalizeBlock E b lci) s")
    case (Pair r u)
    have "\<not> other_error (FinalizeBlockError e)" by simp
    then have "store_and_commit E h b res u \<noteq> (Error (FinalizeBlockError e), t)" for res
      using store_and_commit_errors [of E h b res] unfolding errs_def by (metis fst_conv)
    then show ?thesis using f Pair by (cases r) (simp_all add: run_bindP)
  qed
  then have "SendFinalizeBlock E b lci s = (Error e, t)"
    by (cases "SendFinalizeBlock E b lci s"; cases "fst (SendFinalizeBlock E b lci s)") (auto simp: run_wrap_error)
  note run = this
  have "client t = client s" using run by (rule finalize_call.client_unchanged)
  moreover have "broadcast E (\<lambda>c. call (CallFinalizeBlock (acc_Client c) (finalize_request E b lci))
      (app_FinalizeBlock E (acc_Client c) (finalize_request E b lci))) s = (Error e, t)"
    using run by (simp add: SendFinalizeBlock_def Let_def finalize_request_def)
  then obtain cs where cs: "cs \<noteq> []" "abci_log t = abci_log s @ map (\<lambda>c :: counterparty. CallFinalizeBlock (acc_Client c) (finalize_request E b lci)) cs"
    by (rule broadcast_fails)
  have "\<forall>k \<in> set (map (\<lambda>c :: counterparty. CallFinalizeBlock (acc_Client c) (finalize_request E b lci)) cs).
      \<exists>app. k = CallFinalizeBlock app (finalize_request E b lci)" by simp
  with cs have "\<exists>fin lci. fin \<noteq> [] \<and> abci_log t = abci_log s @ fin
      \<and> (\<forall>c \<in> set fin. \<exists>app. c = CallFinalizeBlock app (finalize_request E b lci))"
    by (metis list.map_disc_iff)
  ultimately show ?thesis by simp
qed

text \<open>The phases of a block that the applications did not finalize.\<close>

lemma helper_not_finalized:
  assumes "runBlock_helper E t p misb s = (Error (FinalizeBlockError e), s')"
  obtains s1 s2 evs s3 app s4 b s5 nps s6 s7 votes s8 s9 s10 where
    "check_fresh_txs E s = (Return (), s1)" "check_stale_txs E s1 = (Return (), s2)"
    "collect_evidence E misb s2 = (Return evs, s3)"
    "find_proposer_app E (case p of None \<Rightarrow> [] | Some v \<Rightarrow> val_Address v) s3 = (Return app, s4)"
    "propose_block E app p t (non_empty_txs (client s2)) evs s4 = (Return b, s5)"
    "find_non_proposers E (case p of None \<Rightarrow> [] | Some v \<Rightarrow> val_Address v) s5 = (Return nps, s6)"
    "process_proposals E nps b s6 = (Return (), s7)"
    "sign_votes E b s7 = (Return votes, s8)" "verify_extensions E b votes s8 = (Return (), s9)"
    "make_commit E b votes s9 = (Return (), s10)"
    "finalize_and_commit E (i64 (st_LastBlockHeight (CurState (client s)) + 1)) b s10 = (Error (FinalizeBlockError e), s')"
proof -
  note ph = phase_errors
  show thesis
    using assms unfolding runBlock_helper_def Let_def
    by (auto elim!: late_bindP late_seqP intro: ph errs_intros simp: that)
qed

text \<open>
  What such a block leaves behind: the commit it made and queues without its transactions. The rest of the client is as
  it was.
\<close>

lemma not_finalized_leaves:
  assumes "makes_blocks E" "commits_of_height E" "runBlock_helper E t p misb s = (Error (FinalizeBlockError e), s')"
  shows "\<exists>v b pre fin lci. p = Some v \<and> proposed E t v (client s) b \<and> ec_Height (LastCommit (client s')) = hd_Height (blk_Header b)
    \<and> FreshTxQueue (client s') = [] \<and> set (StaleTxQueue (client s')) \<inter> set (blk_Txs b) = {}
    \<and> CurState (client s') = CurState (client s) \<and> LastBlock (client s') = LastBlock (client s)
    \<and> ms_entries (Storage (client s')) = ms_entries (Storage (client s)) \<and> TimeHandler (client s') = TimeHandler (client s)
    \<and> abci_log s' = abci_log s @ pre @ fin \<and> list_all (\<lambda>c. stage c \<le> 6) pre \<and> fin \<noteq> []
    \<and> (\<forall>c \<in> set fin. \<exists>app. c = CallFinalizeBlock app (finalize_request E b lci))"
  using assms(3)
proof (rule helper_not_finalized, goal_cases)
  case (1 s1 s2 evs s3 app s4 b s5 nps s6 s7 votes s8 s9 s10)
  note f = phase_frames(1) [OF 1(1)] phase_frames(2) [OF 1(2)] phase_frames(3) [OF 1(3)]
    phase_frames(4) [OF 1(4)] phase_frames(5) [OF 1(5)]
  note g = grew_phases(1) [OF 1(1)] grew_phases(2) [OF 1(2)] grew_phases(3) [OF 1(3)] grew_phases(4) [OF 1(4)]
    grew_phases(5) [OF 1(5)] grew_phases(6) [OF 1(6)] grew_phases(7) [OF 1(7)] grew_phases(8) [OF 1(8)]
    grew_phases(9) [OF 1(9)] grew_phases(10) [OF 1(10)]
  have "grew 6 s s10" using g by (meson grew_trans)
  then obtain pre where pre: "abci_log s10 = abci_log s @ pre" "list_all (\<lambda>c. stage c \<le> 6) pre" by (auto simp: grew_def)
  obtain fin lci where fin: "client s' = client s10" "fin \<noteq> []" "abci_log s' = abci_log s10 @ fin"
      "\<forall>c \<in> set fin. \<exists>app. c = CallFinalizeBlock app (finalize_request E b lci)"
    using finalize_fails [OF 1(11)] by blast
  have c9: "core s9 = core s5"
    using phase_cores(2) [OF 1(6)] phase_cores(3) [OF 1(7)] phase_cores(4) [OF 1(8)] phase_cores(5) [OF 1(9)] by simp
  have f4: "frame s4 = frame s" and f9: "frame s9 = frame s" using f core_frame [OF c9] by simp_all
  obtain v prp b0 u where p: "p = Some v"
    and dec: "decideProposal E app v (i64 (st_LastBlockHeight (CurState (client s4)) + 1)) 0
      (non_empty_txs (client s2)) evs s4 = (Return (prp, b0), u)"
    and b: "b = b0\<lparr>blk_Header := (blk_Header b0)\<lparr>hd_Time := t\<rparr>\<rparr>"
    and s5: "s5 = u\<lparr>client := (client u)\<lparr>FreshTxQueue := [],
      StaleTxQueue := filter (\<lambda>tx. tx \<notin> set (blk_Txs b)) (non_empty_txs (client s2))\<rparr>\<rparr>"
    using 1(5) by (rule propose_block_Return)
  have pr: "proposed E t v (client s) b"
    using decideProposal_block [OF assms(1) dec] by (simp add: proposed_def b frameD [OF f4])
  obtain ec where s10: "client s10 = (client s9)\<lparr>LastCommit := ec\<rparr>" "ec_Height ec = hd_Height (blk_Header b)"
    using 1(10)
  proof (rule make_commit_Return, goal_cases)
    case (1 vos ec)
    then show ?case using assms(2) add_votes_Height [OF 1(2)] by (simp add: commits_of_height_def new_vote_set_def)
  qed
  have "client s9 = client s5" using c9 by (rule coreD)
  then have "ec_Height (LastCommit (client s')) = hd_Height (blk_Header b) \<and> FreshTxQueue (client s') = []
    \<and> set (StaleTxQueue (client s')) \<inter> set (blk_Txs b) = {}
    \<and> CurState (client s') = CurState (client s) \<and> LastBlock (client s') = LastBlock (client s)
    \<and> ms_entries (Storage (client s')) = ms_entries (Storage (client s)) \<and> TimeHandler (client s') = TimeHandler (client s)"
    using s5 s10 fin(1) frameD [OF f9] by auto
  moreover have "abci_log s' = abci_log s @ pre @ fin" using pre(1) fin(3) by simp
  ultimately show ?case using p pr pre(2) fin(2,4) by blast
qed

lemma RunBlock_Error:
  assumes "RunBlockWithTimeAndProposer E t p misb s = (Error e, s')"
  obtains u where "runBlock_helper E t p misb (s\<lparr>blockMutex := True\<rparr>) = (Error e, u)" "client s' = client u" "abci_log s' = abci_log u"
proof (cases "blockMutex s")
  case True
  then show thesis using assms by (simp add: RunBlock_mutex_held)
next
  case False
  obtain r u where h: "runBlock_helper E t p misb (s\<lparr>blockMutex := True\<rparr>) = (r, u)" by fastforce
  then show thesis using assms False that [of u]
    by (cases r; cases "blockMutex u")
      (auto simp: RunBlockWithTimeAndProposer_def blockMutex_Unlock_def run_seqP run_bindP run_attempt run_blockMutex)
qed

section \<open>Properties\<close>

text \<open>
  Claim C34. A block that the applications do not finalize is not undone. When FinalizeBlock fails, the chain state, the last
  block and the stores are as before, so the next block has the same height; but the commit of the failed block stays the
  client's last commit. The next block that succeeds then carries, as the commit of the block before it, a commit for its own height. The
  transactions of the failed block, which are those of the request that every FinalizeBlock of it was called with, are in neither
  queue any more.
\<close>

theorem failed_block_leaves_commit:
  assumes "makes_blocks E" and "commits_of_height E"
    and "RunBlockWithTimeAndProposer E t p misb s = (Error (FinalizeBlockError e), s1)"
    and "RunBlockWithTimeAndProposer E t' p' misb' s1 = (Return (), s2)"
  shows "CurState (client s1) = CurState (client s) \<and> LastBlock (client s1) = LastBlock (client s)
    \<and> ms_entries (Storage (client s1)) = ms_entries (Storage (client s))
    \<and> blk_LastCommit (LastBlock (client s2)) = Some (ec_ToCommit E (LastCommit (client s1)))
    \<and> ec_Height (LastCommit (client s1)) = hd_Height (blk_Header (LastBlock (client s2)))
    \<and> (\<exists>pre fin req. abci_log s1 = abci_log s @ pre @ fin \<and> list_all (\<lambda>c. stage c \<le> 6) pre
         \<and> fin \<noteq> [] \<and> (\<forall>c \<in> set fin. \<exists>app. c = CallFinalizeBlock app req)
         \<and> rfb_Height req = hd_Height (blk_Header (LastBlock (client s2)))
         \<and> FreshTxQueue (client s1) = [] \<and> set (StaleTxQueue (client s1)) \<inter> set (rfb_Txs req) = {})"
proof -
  obtain u where h: "runBlock_helper E t p misb (s\<lparr>blockMutex := True\<rparr>) = (Error (FinalizeBlockError e), u)"
    and u: "client s1 = client u" "abci_log s1 = abci_log u"
    using assms(3) by (rule RunBlock_Error)
  obtain v b pre fin lci where first: "proposed E t v (client s) b"
    "ec_Height (LastCommit (client s1)) = hd_Height (blk_Header b)" "CurState (client s1) = CurState (client s)"
    "FreshTxQueue (client s1) = []" "set (StaleTxQueue (client s1)) \<inter> set (blk_Txs b) = {}"
    "LastBlock (client s1) = LastBlock (client s)" "ms_entries (Storage (client s1)) = ms_entries (Storage (client s))"
    "abci_log s1 = abci_log s @ pre @ fin" "list_all (\<lambda>c. stage c \<le> 6) pre" "fin \<noteq> []"
    "\<forall>c \<in> set fin. \<exists>app. c = CallFinalizeBlock app (finalize_request E b lci)"
    using not_finalized_leaves [OF assms(1,2) h] u by auto
  obtain v' b' where second: "proposed E t' v' (client s1) b'" "LastBlock (client s2) = b'"
    using RunBlock_success [OF assms(1,4)] by blast
  have "rfb_Txs (finalize_request E b lci) = blk_Txs b" "rfb_Height (finalize_request E b lci) = hd_Height (blk_Header b)"
    by (simp_all add: finalize_request_def)
  moreover have "hd_Height (blk_Header b) = hd_Height (blk_Header b')" using first(1,3) second(1) by (simp add: proposed_def)
  ultimately have "\<exists>pre fin req. abci_log s1 = abci_log s @ pre @ fin \<and> list_all (\<lambda>c. stage c \<le> 6) pre
      \<and> fin \<noteq> [] \<and> (\<forall>c \<in> set fin. \<exists>app. c = CallFinalizeBlock app req) \<and> rfb_Height req = hd_Height (blk_Header (LastBlock (client s2)))
      \<and> FreshTxQueue (client s1) = [] \<and> set (StaleTxQueue (client s1)) \<inter> set (rfb_Txs req) = {}"
    using first(4,5,8-11) second(2) by (intro exI [of _ pre] exI [of _ fin] exI [of _ "finalize_request E b lci"]) simp
  then show ?thesis using first(1,2,3,6,7) second by (simp add: proposed_def)
qed

text \<open>Applications of which the first that is asked to finalize fails, and that serve from then on.\<close>

definition flaky_env :: "int env" where
  "flaky_env = sample_env\<lparr>app_FinalizeBlock := (\<lambda>c req w. if w < 2000 then (Inl ''down'', 2000) else app_FinalizeBlock sample_env c req w)\<rparr>"

lemma flaky_laws: "makes_blocks flaky_env" "commits_of_height flaky_env"
  using sample_makes_blocks sample_commits_of_height by (simp_all add: flaky_env_def makes_blocks_def commits_of_height_def)

text \<open>The system of the samples with the clock advanced by 500.\<close>

definition sample_advanced :: "int sys" where
  "sample_advanced = sample_sys\<lparr>client := (client sample_sys)\<lparr>TimeHandler := FixedBlockTimeHandler
     \<lparr>fb_blockTime = 10, fb_curBlockOffset = 500, fb_lastBlockTimestamp = 0\<rparr>\<rparr>\<rparr>"

lemma flaky_run:
  "\<exists>e s1 s2. RunBlockWithTimeAndProposer flaky_env 10 (Some (sample_validator ''v1'' 10)) [] sample_sys
      = (Error (FinalizeBlockError e), s1)
    \<and> StaleTxQueue (client s1) = [] \<and> (\<exists>pre app req. abci_log s1 = pre @ [CallFinalizeBlock app req] \<and> rfb_Txs req = [''a''])
    \<and> RunBlockWithTimeAndProposer flaky_env 20 (Some (sample_validator ''v1'' 10)) [] s1 = (Return (), s2)"
  by (simp add: flaky_env_def block_defs sample_sys_defs run_eval)

lemma flaky_advanced_run:
  "\<exists>e s1 s2. RunBlock flaky_env sample_advanced = (Error (FinalizeBlockError e), s1) \<and> RunBlock flaky_env s1 = (Return (), s2)"
  by (simp add: flaky_env_def sample_advanced_def RunBlock_def last_proposer_def GetBlockTime_def clock_defs block_defs
      sample_sys_defs run_eval)

theorem failed_block_leaves_commit_witness:
  "\<exists>e s1 s2 pre app req. RunBlockWithTimeAndProposer flaky_env 10 (Some (sample_validator ''v1'' 10)) [] sample_sys
      = (Error (FinalizeBlockError e), s1)
    \<and> RunBlockWithTimeAndProposer flaky_env 20 (Some (sample_validator ''v1'' 10)) [] s1 = (Return (), s2)
    \<and> CurState (client s1) = CurState (client sample_sys)
    \<and> ec_Height (LastCommit (client s1)) = hd_Height (blk_Header (LastBlock (client s2)))
    \<and> abci_log s1 = pre @ [CallFinalizeBlock app req] \<and> rfb_Txs req = [''a'']
    \<and> FreshTxQueue (client s1) = [] \<and> StaleTxQueue (client s1) = []"
proof -
  obtain e s1 s2 pre app req where r: "RunBlockWithTimeAndProposer flaky_env 10 (Some (sample_validator ''v1'' 10)) [] sample_sys
      = (Error (FinalizeBlockError e), s1)"
    "RunBlockWithTimeAndProposer flaky_env 20 (Some (sample_validator ''v1'' 10)) [] s1 = (Return (), s2)"
    and q: "StaleTxQueue (client s1) = []" "abci_log s1 = pre @ [CallFinalizeBlock app req]" "rfb_Txs req = [''a'']"
    using flaky_run by blast
  have "CurState (client s1) = CurState (client sample_sys)" "FreshTxQueue (client s1) = []"
    "ec_Height (LastCommit (client s1)) = hd_Height (blk_Header (LastBlock (client s2)))"
    using failed_block_leaves_commit [OF flaky_laws r] by blast+
  with r q show ?thesis by blast
qed

text \<open>
  Claim C35. A failed block swallows a pending advance of the clock. With a fixed block time and an advance that no block has seen yet, let
  a block be refused by FinalizeBlock and the next one succeed: the block that gets on the chain is stamped with the last block's time plus the block
  time only, as if the clock had never been advanced, and nothing of the advance is left for a later block.
\<close>

theorem failed_block_swallows_advance:
  assumes "makes_blocks E" "commits_of_height E" and "TimeHandler (client s) = FixedBlockTimeHandler f"
    and "RunBlock E s = (Error (FinalizeBlockError e), s1)" and "RunBlock E s1 = (Return (), s2)"
  shows "hd_Time (blk_Header (LastBlock (client s2))) = hd_Time (blk_Header (LastBlock (client s))) + i64 (fb_blockTime f)
    \<and> (\<exists>g. TimeHandler (client s2) = FixedBlockTimeHandler g \<and> fb_blockTime g = fb_blockTime f \<and> fb_curBlockOffset g = 0)"
proof -
  let ?t0 = "hd_Time (blk_Header (LastBlock (client s)))"
  let ?f = "f\<lparr>fb_curBlockOffset := 0, fb_lastBlockTimestamp := ?t0 + i64 (fb_blockTime f + fb_curBlockOffset f)\<rparr>"
  have th: "TimeHandler (client s1) = FixedBlockTimeHandler ?f" by (rule failed_block_uses_up_advance [OF assms(3,4)])
  obtain bt x u where u: "GetBlockTime E ?t0 s = (Return bt, u)" "client u = (client s)\<lparr>TimeHandler := x\<rparr>" by (rule GetBlockTime_run)
  then have "RunBlockWithTimeAndProposer E bt (vs_Proposer (st_LastValidators (CurState (client u)))) [] u = (Error (FinalizeBlockError e), s1)"
    using assms(4) by (simp add: RunBlock_def last_proposer_def run_bindP)
  then obtain w where w: "runBlock_helper E bt (vs_Proposer (st_LastValidators (CurState (client u)))) [] (u\<lparr>blockMutex := True\<rparr>)
      = (Error (FinalizeBlockError e), w)" "client s1 = client w"
    by (rule RunBlock_Error)
  have lb: "LastBlock (client s1) = LastBlock (client s)" using not_finalized_leaves [OF assms(1,2) w(1)] w(2) u(2) by auto
  let ?s = "s1\<lparr>client := (client s1)\<lparr>TimeHandler := FixedBlockTimeHandler (?f\<lparr>fb_lastBlockTimestamp := ?t0 + i64 (fb_blockTime f)\<rparr>)\<rparr>\<rparr>"
  have "RunBlockWithTimeAndProposer E (?t0 + i64 (fb_blockTime f)) (vs_Proposer (st_LastValidators (CurState (client s1)))) [] ?s = (Return (), s2)"
    using assms(5) by (simp add: RunBlock_def last_proposer_def GetBlockTime_def th lb fb_GetBlockTime_def time_Add_def Let_def run_bindP run_seqP)
  from RunBlock_success [OF assms(1) this] show ?thesis by (auto simp: proposed_def)
qed

theorem failed_block_swallows_advance_witness:
  "\<exists>e s1 s2. RunBlock flaky_env sample_advanced = (Error (FinalizeBlockError e), s1) \<and> RunBlock flaky_env s1 = (Return (), s2)
    \<and> hd_Time (blk_Header (LastBlock (client sample_advanced))) = 0 \<and> hd_Time (blk_Header (LastBlock (client s2))) = 10"
proof -
  obtain e s1 s2 where r: "RunBlock flaky_env sample_advanced = (Error (FinalizeBlockError e), s1)" "RunBlock flaky_env s1 = (Return (), s2)"
    using flaky_advanced_run by blast
  have th: "TimeHandler (client sample_advanced) = FixedBlockTimeHandler \<lparr>fb_blockTime = 10, fb_curBlockOffset = 500, fb_lastBlockTimestamp = 0\<rparr>"
    "hd_Time (blk_Header (LastBlock (client sample_advanced))) = 0"
    by (simp_all add: sample_advanced_def sample_sys_def sample_block_def)
  have "hd_Time (blk_Header (LastBlock (client s2))) = 10"
    using failed_block_swallows_advance [OF flaky_laws th(1) r] th(2) by (simp add: in64_def)
  with r th(2) show ?thesis by blast
qed

end
