(* ===== verification/Misbehaviour.thy ===== *)
theory Misbehaviour
  imports Chain
begin

text \<open>
  The evidence a block carries when a validator is told to misbehave, and the operations
  \<open>CauseDoubleSign\<close> and \<open>CauseLightClientAttack\<close> that tell it.
\<close>

section \<open>Documented behaviour of the library\<close>

text \<open>
  \<open>MockPV.SignVote\<close> only fills in the two signatures, \<open>VoteFromProto\<close> keeps every field, and a deep
  copy is equal to what it copies.
\<close>

definition signs_votes :: "'w env \<Rightarrow> bool" where
  "signs_votes E \<longleftrightarrow> (\<forall>pv chain v. \<exists>sg esg.
     snd (SignVote E pv chain v) = v\<lparr>vt_Signature := sg, vt_ExtensionSignature := esg\<rparr>)"

definition converts_votes :: "'w env \<Rightarrow> bool" where
  "converts_votes E \<longleftrightarrow> (\<forall>v w. VoteFromProto E v = Inr w \<longrightarrow> w = v)"

definition copies_blocks :: "'w env \<Rightarrow> bool" where
  "copies_blocks E \<longleftrightarrow> (\<forall>b c. deepcopy_Anything E b = Inr c \<longrightarrow> c = b)"

lemma sample_misbehaviour_laws: "signs_votes sample_env" "converts_votes sample_env" "copies_blocks sample_env"
proof -
  have "SignVote sample_env pv chain v = (None, v\<lparr>vt_Signature := pv, vt_ExtensionSignature := vt_ExtensionSignature v\<rparr>)"
    for pv chain v by (simp add: sample_env_def)
  then show "signs_votes sample_env" unfolding signs_votes_def by (metis snd_conv)
qed (simp_all add: converts_votes_def copies_blocks_def sample_env_def)

section \<open>The two kinds of evidence\<close>

text \<open>
  Two precommits of one validator for the same block at the same height, in the rounds 1 and 2.
\<close>

definition double_vote :: "'w env \<Rightarrow> validator \<Rightarrow> abci_client \<Rightarrow> duplicate_vote_evidence \<Rightarrow> bool" where
  "double_vote E v a ev \<longleftrightarrow> (\<exists>bid st i val. GetBlockIdFromBlock E (LastBlock a) = Return bid
     \<and> made (ms_states (Storage a)) (hd_Height (blk_Header (LastBlock a))) = Some st
     \<and> vs_GetByAddress E (st_Validators st) (val_Address v) = (i, Some val)
     \<and> (\<forall>vote \<in> {dve_VoteA ev, dve_VoteB ev}. vt_Height vote = hd_Height (blk_Header (LastBlock a))
          \<and> vt_BlockID vote = bid \<and> vt_Type vote = PrecommitType E \<and> vt_ValidatorAddress vote = val_Address v
          \<and> vt_ValidatorIndex vote = i32 i \<and> vt_Timestamp vote = hd_Time (blk_Header (LastBlock a)))
     \<and> vt_Round (dve_VoteA ev) = 1 \<and> vt_Round (dve_VoteB ev) = 2
     \<and> dve_ValidatorPower ev = val_VotingPower val
     \<and> dve_TotalVotingPower ev = vs_TotalVotingPower E (st_Validators st)
     \<and> dve_Timestamp ev = hd_Time (blk_Header (LastBlock a)))"

lemma checked_vote_Return:
  "converts_votes E \<Longrightarrow> checked_vote E v s = (Return w, t) \<Longrightarrow> w = v \<and> t = s"
  by (auto simp: checked_vote_def converts_votes_def split: sum.splits option.splits)

lemma ConstructDuplicateVoteEvidence_Return:
  assumes E: "signs_votes E" "converts_votes E" and run: "ConstructDuplicateVoteEvidence E v s = (Return ev, t)"
  shows "double_vote E v (client s) ev"
proof -
  let ?lb = "LastBlock (client s)"
  obtain bid st u i val pv chain where bid: "GetBlockIdFromBlock E ?lb = Return bid"
    and g: "in_storage (GetState (hd_Height (blk_Header ?lb))) s = (Return st, u)"
    and gv: "vs_GetByAddress E (st_Validators st) (val_Address v) = (i, Some val)"
    and ev: "ev = \<lparr>dve_VoteA = snd (SignVote E pv chain (evidence_vote E v ?lb bid i 1)),
      dve_VoteB = snd (SignVote E pv chain (evidence_vote E v ?lb bid i 2)),
      dve_TotalVotingPower = vs_TotalVotingPower E (st_Validators st),
      dve_ValidatorPower = val_VotingPower val, dve_Timestamp = hd_Time (blk_Header ?lb)\<rparr>"
    using run unfolding ConstructDuplicateVoteEvidence_def
    by (auto elim!: bindP_ReturnE simp: Let_def dest!: checked_vote_Return [OF E(2)] split: prod.splits option.splits)
  obtain sgA esgA sgB esgB where
    "snd (SignVote E pv chain (evidence_vote E v ?lb bid i 1))
      = (evidence_vote E v ?lb bid i 1)\<lparr>vt_Signature := sgA, vt_ExtensionSignature := esgA\<rparr>"
    "snd (SignVote E pv chain (evidence_vote E v ?lb bid i 2))
      = (evidence_vote E v ?lb bid i 2)\<lparr>vt_Signature := sgB, vt_ExtensionSignature := esgB\<rparr>"
    using E(1) unfolding signs_votes_def by metis
  then show ?thesis
    unfolding double_vote_def
    by (intro exI [of _ bid] exI [of _ st] exI [of _ i] exI [of _ val])
      (use bid run_in_storage_GetState(1) [OF g] gv in \<open>simp add: ev evidence_vote_def\<close>)
qed

text \<open>The header of the last block, changed as the kind of attack demands.\<close>

fun attack_header :: "misbehaviour_type \<Rightarrow> header \<Rightarrow> header" where
  "attack_header Lunatic x = x\<lparr>hd_AppHash := ''some other app hash''\<rparr>"
| "attack_header Equivocation x = x\<lparr>hd_Time := hd_Time x + nano_second\<rparr>"
| "attack_header m x = x"

definition attack :: "'w env \<Rightarrow> validator \<Rightarrow> misbehaviour_type \<Rightarrow> abci_client \<Rightarrow> light_client_attack_evidence \<Rightarrow> bool"
  where
  "attack E v m a ev \<longleftrightarrow> m \<noteq> DuplicateVote \<and> lcae_ByzantineValidators ev = [v]
     \<and> lcae_CommonHeight ev = i64 (hd_Height (blk_Header (LastBlock a)) - 1)
     \<and> lcae_Timestamp ev = hd_Time (blk_Header (LastBlock a))
     \<and> sh_Header (lb_SignedHeader (lcae_ConflictingBlock ev)) = attack_header m (blk_Header (LastBlock a))
     \<and> sh_Commit (lb_SignedHeader (lcae_ConflictingBlock ev)) = ec_ToCommit E (LastCommit a)
     \<and> lb_ValidatorSet (lcae_ConflictingBlock ev) = st_Validators (CurState a)
     \<and> (\<exists>st. made (ms_states (Storage a)) (hd_Height (blk_Header (LastBlock a))) = Some st
          \<and> lcae_TotalVotingPower ev = vs_TotalVotingPower E (st_Validators st))"

lemma ConstructLightClientAttackEvidence_Return:
  assumes E: "copies_blocks E" and run: "ConstructLightClientAttackEvidence E v m s = (Return ev, t)"
  shows "attack E v m (client s) ev"
proof -
  let ?lb = "LastBlock (client s)"
  obtain st u cp where g: "in_storage (GetState (hd_Height (blk_Header ?lb))) s = (Return st, u)"
    and cp: "deepcopy_Anything E ?lb = Inr cp" and m: "m \<noteq> DuplicateVote" and cu: "LastCommit (client u) = LastCommit (client s)"
      "CurState (client u) = CurState (client s)"
    and ev: "ev = \<lparr>lcae_TotalVotingPower = vs_TotalVotingPower E (st_Validators st),
      lcae_Timestamp = hd_Time (blk_Header ?lb), lcae_ByzantineValidators = [v],
      lcae_CommonHeight = i64 (hd_Height (blk_Header ?lb) - 1),
      lcae_ConflictingBlock = \<lparr>lb_SignedHeader = \<lparr>sh_Header = attack_header m (blk_Header cp),
        sh_Commit = ec_ToCommit E (LastCommit (client u))\<rparr>, lb_ValidatorSet = st_Validators (CurState (client u))\<rparr>\<rparr>"
    using run unfolding ConstructLightClientAttackEvidence_def
    by (cases m) (auto elim!: bindP_ReturnE simp: time_Add_def dest: run_in_storage_GetState(3)
        split: sum.splits, auto dest!: run_in_storage_GetState(3))
  have "cp = ?lb" using E cp by (simp add: copies_blocks_def)
  then show ?thesis using run_in_storage_GetState(1) [OF g] m by (simp add: attack_def ev cu)
qed

section \<open>The evidence of a block\<close>

lemma helper_evidence:
  assumes E: "makes_blocks E" and run: "runBlock_helper E t p misb s = (Return (), s')"
  obtains u w where "frame u = frame s" "collect_evidence E misb u = (Return (blk_Evidence (LastBlock (client s'))), w)"
  using run
proof (rule helper_Return, goal_cases)
  case (1 s1 s2 evs s3 app s4 b s5 nps s6 s7 votes s8 s9 s10)
  note ph = 1(2-)
  have f: "frame s2 = frame s" using phase_frames(1) [OF ph(1)] phase_frames(2) [OF ph(2)] by simp
  have "blk_Evidence b = evs"
    using ph(5)
  proof (rule propose_block_Return, goal_cases)
    case (1 v prp b0 u)
    then show ?case using decideProposal_block(2) [OF E 1(2)] by simp
  qed
  moreover obtain res u where "store_and_commit E (i64 (st_LastBlockHeight (CurState (client s)) + 1)) b res u = (Return (), s')"
    using ph(11) by (rule finalize_and_commit_Return)
  then have "LastBlock (client s') = b" by (rule store_and_commit_Return) (simp add: core_def finalized_def)
  ultimately show ?case using 1(1) [OF f] ph(3) by simp
qed

lemma RunBlockWithEvidence_evidence:
  assumes E: "makes_blocks E" and run: "RunBlockWithEvidence E misb s = (Return (), s')"
  obtains u w where "LastBlock (client u) = LastBlock (client s)" "LastCommit (client u) = LastCommit (client s)"
    "CurState (client u) = CurState (client s)"
    "made (ms_states (Storage (client u))) = made (ms_states (Storage (client s)))"
    "collect_evidence E misb u = (Return (blk_Evidence (LastBlock (client s'))), w)"
proof -
  obtain tm th x where x: "GetBlockTime E (hd_Time (blk_Header (LastBlock (client s)))) s = (Return tm, x)"
      "client x = (client s)\<lparr>TimeHandler := th\<rparr>"
    by (rule GetBlockTime_run)
  then obtain p where "RunBlockWithTimeAndProposer E tm p misb x = (Return (), s')"
    using run by (auto simp: RunBlockWithEvidence_def last_proposer_def run_bindP)
  then obtain y where h: "runBlock_helper E tm p misb (x\<lparr>blockMutex := True\<rparr>) = (Return (), y)"
    and s': "s' = y\<lparr>blockMutex := False\<rparr>"
    by (auto simp: RunBlock_Return_iff)
  obtain u w where u: "frame u = frame (x\<lparr>blockMutex := True\<rparr>)"
      "collect_evidence E misb u = (Return (blk_Evidence (LastBlock (client y))), w)"
    using E h by (rule helper_evidence)
  show thesis using that [of u w] frameD [OF u(1)] u(2) by (simp add: x s')
qed

lemma double_vote_cong:
  "LastBlock a' = LastBlock a \<Longrightarrow> made (ms_states (Storage a')) = made (ms_states (Storage a)) \<Longrightarrow>
    double_vote E v a' ev = double_vote E v a ev"
  by (simp add: double_vote_def)

lemma attack_cong:
  "LastBlock a' = LastBlock a \<Longrightarrow> LastCommit a' = LastCommit a \<Longrightarrow> CurState a' = CurState a \<Longrightarrow>
    made (ms_states (Storage a')) = made (ms_states (Storage a)) \<Longrightarrow> attack E v m a' ev = attack E v m a ev"
  by (simp add: attack_def)

lemma GetValidatorFromAddress_Return:
  "GetValidatorFromAddress E a s = (Return v, t) \<Longrightarrow> t = s \<and> v \<in> set (vs_Validators (st_Validators (CurState (client s))))
    \<and> addr_String E (val_Address v) = a"
  by (auto simp: GetValidatorFromAddress_def run_bindP split: option.splits dest: find_Some_iff_in)

section \<open>Properties\<close>

text \<open>
  Claim C18. A double sign that \<open>CauseDoubleSign\<close> reports as done is in the block it ran: the block's only evidence is a
  duplicate vote of the current validator with that address, two precommits at the height of the
  previous block and both for that block, which differ in their round (1 and 2) and signatures
  only, with the validator's power and the total power of the validators that signed that block.
\<close>

theorem double_sign_evidence_in_block:
  assumes "makes_blocks E" "signs_votes E" "converts_votes E" and "CauseDoubleSign E address s = (Return (), s')"
  shows "\<exists>v ev. v \<in> set (vs_Validators (st_Validators (CurState (client s)))) \<and> addr_String E (val_Address v) = address
    \<and> blk_Evidence (LastBlock (client s')) = [DuplicateVoteEvidence ev] \<and> double_vote E v (client s) ev"
proof -
  obtain v where v: "v \<in> set (vs_Validators (st_Validators (CurState (client s))))" "addr_String E (val_Address v) = address"
    and run: "RunBlockWithEvidence E [(v, DuplicateVote)] s = (Return (), s')"
    using assms(4) by (auto simp: CauseDoubleSign_def elim!: bindP_ReturnE dest!: GetValidatorFromAddress_Return)
  obtain u w where u: "LastBlock (client u) = LastBlock (client s)"
      "made (ms_states (Storage (client u))) = made (ms_states (Storage (client s)))"
    and c: "collect_evidence E [(v, DuplicateVote)] u = (Return (blk_Evidence (LastBlock (client s'))), w)"
    using assms(1) run by (rule RunBlockWithEvidence_evidence)
  obtain ev x where ev: "ConstructDuplicateVoteEvidence E v u = (Return ev, x)"
      "blk_Evidence (LastBlock (client s')) = [DuplicateVoteEvidence ev]"
    using c by (auto simp: collect_evidence_def wrap_error_Return_iff elim!: bindP_ReturnE)
  show ?thesis
    using ConstructDuplicateVoteEvidence_Return [OF assms(2,3) ev(1)] double_vote_cong [OF u] ev(2) v by blast
qed

text \<open>The sample system with the state of its last block in the store.\<close>

definition sample_started :: "int sys" where
  "sample_started = sample_sys\<lparr>client := (client sample_sys)\<lparr>Storage := stored 0 (sample_block 0)
     (sample_to_commit (sample_ec 0)) (sample_state sample_vals (- 1)) (sample_finalize \<lparr>rfb_Txs = [],
       rfb_DecidedLastCommit = empty_commit_info, rfb_Misbehavior = [], rfb_Height = 0, rfb_Hash = [], rfb_Time = 0,
       rfb_ProposerAddress = [], rfb_NextValidatorsHash = []\<rparr>) empty_MapStorage\<rparr>\<rparr>"

lemmas misbehaviour_defs = CauseDoubleSign_def CauseLightClientAttack_def RunBlockWithEvidence_def
  GetValidatorFromAddress_def ConstructDuplicateVoteEvidence_def evidence_vote_def checked_vote_def
  ConstructLightClientAttackEvidence_def GetBlockTime_def last_proposer_def clock_defs stored_def
  sample_started_def

lemma sample_double_sign: "\<exists>t. CauseDoubleSign sample_env ''v2'' sample_started = (Return (), t)"
  by (simp add: misbehaviour_defs block_defs sample_sys_defs run_eval i32_def)

theorem double_sign_evidence_in_block_witness:
  "\<exists>s' ev. CauseDoubleSign sample_env ''v2'' sample_started = (Return (), s')
    \<and> blk_Evidence (LastBlock (client s')) = [DuplicateVoteEvidence ev] \<and> vt_Round (dve_VoteB ev) = 2"
proof -
  obtain s' where "CauseDoubleSign sample_env ''v2'' sample_started = (Return (), s')" using sample_double_sign by blast
  from double_sign_evidence_in_block [OF sample_makes_blocks sample_misbehaviour_laws(1,2) this] this
  show ?thesis by (auto simp: double_vote_def)
qed

text \<open>
  Claim C19. A light client attack that \<open>CauseLightClientAttack\<close> reports as done is in the block it ran: the block's only
  evidence names the current validator with that address alone, its conflicting header is the last block's with another app
  hash (Lunatic), with a time one second later (Equivocation) or unchanged (Amnesia), under the
  last commit and the current validators, and the common height is the one before the last block.
  Any other kind of attack is refused and no block is run.
\<close>

theorem light_client_attack_in_block:
  assumes "makes_blocks E" "copies_blocks E" and "CauseLightClientAttack E address kind s = (r, s')"
    and "r = Return () \<or> kind \<notin> {''Lunatic'', ''Amnesia'', ''Equivocation''}"
  shows "(case r of
      Return _ \<Rightarrow> (\<exists>v ev m. (kind, m) \<in> {(''Lunatic'', Lunatic), (''Amnesia'', Amnesia), (''Equivocation'', Equivocation)}
        \<and> v \<in> set (vs_Validators (st_Validators (CurState (client s)))) \<and> addr_String E (val_Address v) = address
        \<and> blk_Evidence (LastBlock (client s')) = [LightClientAttackEvidence ev] \<and> attack E v m (client s) ev)
    | _ \<Rightarrow> r \<in> {Error (UnknownMisbehaviour kind), Error (ValidatorNotFound address)} \<and> s' = s)"
proof (cases "r = Return ()")
  case False
  then show ?thesis using assms(3,4)
    by (auto simp: CauseLightClientAttack_def GetValidatorFromAddress_def run_bindP split: option.splits outcome.split)
next
  case True
  obtain v m where v: "v \<in> set (vs_Validators (st_Validators (CurState (client s))))" "addr_String E (val_Address v) = address"
    and m: "(kind, m) \<in> {(''Lunatic'', Lunatic), (''Amnesia'', Amnesia), (''Equivocation'', Equivocation)}"
    and run: "RunBlockWithEvidence E [(v, m)] s = (Return (), s')"
    using assms(3) True by (auto simp: CauseLightClientAttack_def elim!: bindP_ReturnE
        dest!: GetValidatorFromAddress_Return split: if_splits)
  obtain u w where u: "LastBlock (client u) = LastBlock (client s)" "LastCommit (client u) = LastCommit (client s)"
      "CurState (client u) = CurState (client s)"
      "made (ms_states (Storage (client u))) = made (ms_states (Storage (client s)))"
    and c: "collect_evidence E [(v, m)] u = (Return (blk_Evidence (LastBlock (client s'))), w)"
    using assms(1) run by (rule RunBlockWithEvidence_evidence)
  have "m \<noteq> DuplicateVote" using m by auto
  then obtain ev x where ev: "ConstructLightClientAttackEvidence E v m u = (Return ev, x)"
      "blk_Evidence (LastBlock (client s')) = [LightClientAttackEvidence ev]"
    using c by (auto simp: collect_evidence_def wrap_error_Return_iff elim!: bindP_ReturnE)
  have "attack E v m (client s) ev"
    using ConstructLightClientAttackEvidence_Return [OF assms(2) ev(1)] attack_cong [OF u, of E v m ev] by simp
  then show ?thesis using ev(2) v m unfolding True outcome.case by blast
qed

lemma sample_lunatic: "\<exists>t. CauseLightClientAttack sample_env ''v2'' ''Lunatic'' sample_started = (Return (), t)"
  by (simp add: misbehaviour_defs block_defs sample_sys_defs run_eval i32_def)

theorem light_client_attack_in_block_witness:
  "\<exists>s' ev. CauseLightClientAttack sample_env ''v2'' ''Lunatic'' sample_started = (Return (), s')
    \<and> blk_Evidence (LastBlock (client s')) = [LightClientAttackEvidence ev]
    \<and> hd_AppHash (sh_Header (lb_SignedHeader (lcae_ConflictingBlock ev))) = ''some other app hash''"
proof -
  obtain s' where "CauseLightClientAttack sample_env ''v2'' ''Lunatic'' sample_started = (Return (), s')"
    using sample_lunatic by blast
  from light_client_attack_in_block [OF sample_makes_blocks sample_misbehaviour_laws(3) this] this
  show ?thesis by (auto simp: attack_def)
qed

end
