(* ===== verification/Websocket.thy ===== *)
theory Websocket
  imports Abci_Client
begin

text \<open>
  \<open>rpc_server/websocket.go\<close>: the three websocket routes over the event bus, which belongs to CometBFT and is a
  parameter, and the goroutine that forwards the events of one subscription to its connection, as a step over what
  its \<open>select\<close> receives.
\<close>

section \<open>The routes\<close>

text \<open>The event bus: each call may fail, and changes the bus.\<close>

record 'b event_bus =
  bus_Subscribe :: "string \<Rightarrow> bytes \<Rightarrow> int \<Rightarrow> 'b \<Rightarrow> string option \<times> 'b"
  bus_Unsubscribe :: "string \<Rightarrow> bytes \<Rightarrow> 'b \<Rightarrow> string option \<times> 'b"
  bus_UnsubscribeAll :: "string \<Rightarrow> 'b \<Rightarrow> string option \<times> 'b"

definition SubscriptionBufferSize :: int where "SubscriptionBufferSize = 100"

text \<open>What the goroutine of a subscription captures.\<close>

record forwarder =
  fw_id :: string
  fw_query :: string

definition on_bus :: "('b \<Rightarrow> string option \<times> 'b) \<Rightarrow> ('b, unit, go_error, go_panic) prog" where
  "on_bus f = (\<lambda>b. case f b of (err, b') \<Rightarrow>
     (case err of None \<Rightarrow> Return () | Some e \<Rightarrow> Error (LibError e), b'))"

definition parse_query :: "'w env \<Rightarrow> string \<Rightarrow> ('b, bytes, go_error, go_panic) prog" where
  "parse_query E query = (case cmtquery_New E query of
     Inl err \<Rightarrow> throw (QueryParseError (LibError err)) | Inr q \<Rightarrow> ret q)"

definition Subscribe :: "'w env \<Rightarrow> 'b event_bus \<Rightarrow> string \<Rightarrow> string \<Rightarrow> string
    \<Rightarrow> ('b, forwarder, go_error, go_panic) prog" where
  "Subscribe E B addr subscriptionID query =
     bindP (parse_query E query) (\<lambda>q.
     seqP (on_bus (bus_Subscribe B addr q SubscriptionBufferSize))
       (ret \<lparr>fw_id = subscriptionID, fw_query = query\<rparr>))"

definition Unsubscribe :: "'w env \<Rightarrow> 'b event_bus \<Rightarrow> string \<Rightarrow> string \<Rightarrow> ('b, unit, go_error, go_panic) prog" where
  "Unsubscribe E B addr query =
     bindP (parse_query E query) (\<lambda>q. on_bus (bus_Unsubscribe B addr q))"

definition UnsubscribeAll :: "'b event_bus \<Rightarrow> string \<Rightarrow> ('b, unit, go_error, go_panic) prog" where
  "UnsubscribeAll B addr = on_bus (bus_UnsubscribeAll B addr)"

section \<open>The goroutine of a subscription\<close>

text \<open>
  What one round of the \<open>select\<close> receives: a message, with the error of writing the response it causes, or the
  cancellation with the error of the subscription (none, \<open>ErrUnsubscribed\<close> or another).
\<close>

datatype sub_error = NoSubError | ErrUnsubscribed | SubError string

datatype received =
    Message bytes "string list" "string option"
  | Canceled sub_error

datatype ws_response =
    RPCSuccess string string bytes "string list"
  | RPCServerError string string

datatype ws_write = WriteRPCResponse ws_response | TryWriteRPCResponse ws_response

definition closeIfSlow :: bool where "closeIfSlow = False"

fun cancel_reason :: "sub_error \<Rightarrow> string" where
  "cancel_reason NoSubError = ''CometBFT exited''"
| "cancel_reason ErrUnsubscribed = ''client unsubscribed''"
| "cancel_reason (SubError e) = e"

text \<open>One round: the responses written, and whether the loop goes on.\<close>

fun select_round :: "forwarder \<Rightarrow> received \<Rightarrow> ws_write list \<times> bool" where
  "select_round f (Message data events writeErr) =
     (let resp = RPCSuccess (fw_id f) (fw_query f) data events
      in if writeErr \<noteq> None \<and> closeIfSlow
         then ([WriteRPCResponse resp,
                TryWriteRPCResponse (RPCServerError (fw_id f) ''subscription was canceled (reason: slow client)'')], False)
         else ([WriteRPCResponse resp], True))"
| "select_round f (Canceled err) =
     (if err \<noteq> ErrUnsubscribed
      then ([TryWriteRPCResponse (RPCServerError (fw_id f)
              (''subscription was canceled (reason: '' @ cancel_reason err @ '')''))], False)
      else ([], False))"

fun forward :: "forwarder \<Rightarrow> received list \<Rightarrow> ws_write list \<times> bool" where
  "forward f [] = ([], True)"
| "forward f (r # rs) =
     (case select_round f r of
        (ws, False) \<Rightarrow> (ws, False)
      | (ws, True) \<Rightarrow> (case forward f rs of (ws', running) \<Rightarrow> (ws @ ws', running)))"

section \<open>Properties\<close>

fun is_message :: "received \<Rightarrow> bool" where
  "is_message (Message _ _ _) = True"
| "is_message (Canceled _) = False"

fun success_of :: "forwarder \<Rightarrow> received \<Rightarrow> ws_write" where
  "success_of f (Message data events _) = WriteRPCResponse (RPCSuccess (fw_id f) (fw_query f) data events)"
| "success_of f (Canceled _) = undefined"

lemma forward_messages:
  "list_all is_message ms \<Longrightarrow> forward f (ms @ rs) = (map (success_of f) ms @ fst (forward f rs), snd (forward f rs))"
proof (induction ms)
  case (Cons m ms)
  then show ?case by (cases m) (simp_all add: Let_def closeIfSlow_def split_def)
qed simp

text \<open>
  Claim C31. A subscription forwards everything until it is cancelled. From a subscription that was accepted, every message
  the bus delivers is written to the connection as one success response, in order, with the id of the request and
  the query, even when earlier writes failed (a slow client is never cut off); the goroutine runs until the cancellation,
  after which nothing is written, and which itself writes one error response, or none if the client unsubscribed.
\<close>

theorem subscription_forwards_until_cancelled:
  assumes "Subscribe E B addr ident query b = (Return f, b')" and "list_all is_message ms"
  shows "forward f ms = (map (\<lambda>m. case m of Message data events e \<Rightarrow>
        WriteRPCResponse (RPCSuccess ident query data events) | Canceled e \<Rightarrow> success_of f m) ms, True)
    \<and> forward f (ms @ Canceled err # rest) = (fst (forward f ms) @ (if err = ErrUnsubscribed then []
        else [TryWriteRPCResponse (RPCServerError ident (''subscription was canceled (reason: '' @ cancel_reason err @ '')''))]), False)"
proof -
  have f: "f = \<lparr>fw_id = ident, fw_query = query\<rparr>"
    using assms(1) by (auto simp: Subscribe_def elim!: bindP_ReturnE seqP_ReturnE)
  have "map (success_of f) ms = map (\<lambda>m. case m of Message data events e \<Rightarrow>
        WriteRPCResponse (RPCSuccess ident query data events) | Canceled e \<Rightarrow> success_of f m) ms"
    by (rule map_cong) (auto simp: f split: received.split)
  then show ?thesis
    using forward_messages [OF assms(2), of f "[]"] forward_messages [OF assms(2), of f "Canceled err # rest"]
    by (simp add: f)
qed

text \<open>A bus that accepts everything and remembers who subscribed.\<close>

definition sample_bus :: "(string \<times> bytes) list event_bus" where
  "sample_bus = \<lparr>bus_Subscribe = (\<lambda>a q n b. (None, (a, q) # b)),
     bus_Unsubscribe = (\<lambda>a q b. if (a, q) \<in> set b then (None, remove1 (a, q) b) else (Some ''not found'', b)),
     bus_UnsubscribeAll = (\<lambda>a b. (None, filter (\<lambda>x. fst x \<noteq> a) b))\<rparr>"

theorem subscription_forwards_until_cancelled_witness:
  "\<exists>f b'. Subscribe sample_env sample_bus ''peer'' ''7'' ''q'' [] = (Return f, b')
    \<and> forward f [Message ''d1'' [] (Some ''slow''), Message ''d2'' [] None, Canceled NoSubError, Message ''d3'' [] None]
      = ([WriteRPCResponse (RPCSuccess ''7'' ''q'' ''d1'' []), WriteRPCResponse (RPCSuccess ''7'' ''q'' ''d2'' []),
          TryWriteRPCResponse (RPCServerError ''7'' ''subscription was canceled (reason: CometBFT exited)'')], False)"
proof -
  obtain f b' where s: "Subscribe sample_env sample_bus ''peer'' ''7'' ''q'' [] = (Return f, b')"
    by (simp add: Subscribe_def parse_query_def on_bus_def sample_env_def sample_bus_def run_bindP run_seqP ret_def)
  have "list_all is_message [Message ''d1'' [] (Some ''slow''), Message ''d2'' [] None]" by simp
  from subscription_forwards_until_cancelled [OF s this, of NoSubError "[Message ''d3'' [] None]"] s
  show ?thesis by simp
qed

end
