(* ===== verification/Rpc_Server.thy ===== *)
theory Rpc_Server
  imports Comet_Types
begin

text \<open>
  \<open>rpc_server/rpc_server.go\<close>: the start of the server, the handler that logs a request body and passes it on, and the two
  functions that write responses. A request body that was read is its bytes with the error that ended the reading;
  JSON encoding, the connection, and what the HTTP and RPC libraries do with listeners, handlers and the route table are
  parameters.
\<close>

section \<open>The logging handler\<close>

record http_request =
  req_Body :: "(bytes \<times> string option) option"
  req_other :: bytes

text \<open>\<open>io.ReadAll\<close> consumes the body; the handler behind gets a new body with the bytes that were read, which never fails.\<close>

definition ExtraLogHandler :: "(http_request \<Rightarrow> 'a) \<Rightarrow> http_request \<Rightarrow> string list \<times> 'a" where
  "ExtraLogHandler handler r =
     (case req_Body r of
        None \<Rightarrow> ([], handler r)
      | Some (body, err) \<Rightarrow>
          (case err of Some e \<Rightarrow> [''failed to read request body''] | None \<Rightarrow> [''served RPC HTTP request''],
           handler (r\<lparr>req_Body := Some (body, None)\<rparr>)))"

section \<open>The start of the server\<close>

record server_config =
  cfg_MaxOpenConnections :: int
  cfg_MaxBodyBytes :: int

text \<open>
  The functions of the libraries: \<open>'r\<close> is a route table, \<open>'l\<close> a listener and \<open>'a\<close> what serving one request does. \<open>Serve\<close> returns when
  the server stops, with the error that stopped it.
\<close>

record ('r, 'l, 'a) server_lib =
  WebsocketHandler :: "'r \<Rightarrow> int \<Rightarrow> http_request \<Rightarrow> 'a"
  ServeMux :: "(string \<times> (http_request \<Rightarrow> 'a)) list \<Rightarrow> 'r \<Rightarrow> http_request \<Rightarrow> 'a"
  Listen :: "string \<Rightarrow> int \<Rightarrow> string + 'l"
  Serve :: "'l \<Rightarrow> (http_request \<Rightarrow> string list \<times> 'a) \<Rightarrow> server_config \<Rightarrow> string option"
  DefaultConfig :: server_config

definition StartRPCServer :: "('r, 'l, 'a) server_lib \<Rightarrow> 'r \<Rightarrow> string \<Rightarrow> server_config \<Rightarrow> unit go" where
  "StartRPCServer S routes listenAddr config =
     (let wm = WebsocketHandler S routes (cfg_MaxBodyBytes config);
          mux = ServeMux S [(''/websocket'', wm)] routes
      in case Listen S listenAddr (cfg_MaxOpenConnections config) of
           Inl err \<Rightarrow> Panic (FatalError (LibError err))
         | Inr listener \<Rightarrow>
             (case Serve S listener (ExtraLogHandler mux) config of
                Some err \<Rightarrow> Panic (FatalError (LibError err))
              | None \<Rightarrow> Return ()))"

definition StartRPCServerWithDefaultConfig :: "('r, 'l, 'a) server_lib \<Rightarrow> 'r \<Rightarrow> string \<Rightarrow> unit go" where
  "StartRPCServerWithDefaultConfig S routes listenAddr = StartRPCServer S routes listenAddr (DefaultConfig S)"

section \<open>Responses\<close>

record rpc_response =
  rsp_ID :: string
  rsp_Result :: bytes
  rsp_Error :: "string option"

datatype json_value = JSONObject rpc_response | JSONArray "rpc_response list"

text \<open>
  A response writer: headers can be set until the status is sent, the first status counts, and a write sends
  the status 200 if none was sent.
\<close>

record response_writer =
  rw_Header :: "string \<rightharpoonup> string"
  rw_Status :: "int option"
  rw_Sent :: "string \<rightharpoonup> string"
  rw_Body :: bytes

definition header_Set :: "string \<Rightarrow> string \<Rightarrow> response_writer \<Rightarrow> response_writer" where
  "header_Set name value w = w\<lparr>rw_Header := (rw_Header w)(name \<mapsto> value)\<rparr>"

definition WriteHeader :: "int \<Rightarrow> response_writer \<Rightarrow> response_writer" where
  "WriteHeader code w =
     (if rw_Status w = None then w\<lparr>rw_Status := Some code, rw_Sent := rw_Header w\<rparr> else w)"

definition http_Write :: "(bytes \<Rightarrow> string option) \<Rightarrow> bytes \<Rightarrow> (response_writer, unit, go_error, go_panic) prog" where
  "http_Write conn bytes = (\<lambda>w.
     (case conn bytes of None \<Rightarrow> Return () | Some err \<Rightarrow> Error (LibError err),
      (WriteHeader 200 w)\<lparr>rw_Body := rw_Body w @ bytes\<rparr>))"

definition writeRPCResponseHTTP ::
    "(json_value \<Rightarrow> string + bytes) \<Rightarrow> (bytes \<Rightarrow> string option) \<Rightarrow> (string \<times> string) list \<Rightarrow> rpc_response list
      \<Rightarrow> (response_writer, unit, go_error, go_panic) prog" where
  "writeRPCResponseHTTP json_Marshal conn headers res =
     (let v = (case res of [r] \<Rightarrow> JSONObject r | _ \<Rightarrow> JSONArray res)
      in case json_Marshal v of
           Inl err \<Rightarrow> throw (JsonMarshalError (LibError err))
         | Inr jsonBytes \<Rightarrow>
             seqP (modify (header_Set ''Content-Type'' ''application/json''))
            (seqP (foreach (\<lambda>(name, value). modify (header_Set name value)) headers)
            (seqP (modify (WriteHeader 200))
             (http_Write conn jsonBytes))))"

definition WriteRPCResponseHTTP ::
    "(json_value \<Rightarrow> string + bytes) \<Rightarrow> (bytes \<Rightarrow> string option) \<Rightarrow> rpc_response list
      \<Rightarrow> (response_writer, unit, go_error, go_panic) prog" where
  "WriteRPCResponseHTTP json_Marshal conn res = writeRPCResponseHTTP json_Marshal conn [] res"

definition WriteRPCResponseHTTPError ::
    "(json_value \<Rightarrow> string + bytes) \<Rightarrow> (bytes \<Rightarrow> string option) \<Rightarrow> int \<Rightarrow> rpc_response
      \<Rightarrow> (response_writer, unit, go_error, go_panic) prog" where
  "WriteRPCResponseHTTPError json_Marshal conn httpCode res =
     (if rsp_Error res = None then panic NoRPCError
      else case json_Marshal (JSONObject res) of
             Inl err \<Rightarrow> throw (JsonMarshalError (LibError err))
           | Inr jsonBytes \<Rightarrow>
               seqP (modify (header_Set ''Content-Type'' ''application/json''))
              (seqP (modify (WriteHeader httpCode))
               (http_Write conn jsonBytes)))"

section \<open>Properties\<close>

definition fresh_writer :: response_writer where
  "fresh_writer = \<lparr>rw_Header = Map.empty, rw_Status = None, rw_Sent = Map.empty, rw_Body = []\<rparr>"

text \<open>
  Logging is transparent: the handler behind gets the request as it was, its body replaced by the same bytes and
  now readable without an error; a request without a body is passed on untouched. The error of a body that could not be
  read to its end is therefore lost, and the handler sees the truncated body.
\<close>

lemma extra_log_handler_transparent:
  "snd (ExtraLogHandler handler r) = handler (r\<lparr>req_Body := map_option (\<lambda>b. (fst b, None)) (req_Body r)\<rparr>)"
  by (cases r) (auto simp: ExtraLogHandler_def split: option.split)

text \<open>
  The server ends the process exactly if it cannot listen or if serving fails; it never returns an error.
\<close>

lemma StartRPCServer_panics_iff:
  "(\<exists>p. StartRPCServerWithDefaultConfig S routes addr = Panic p) \<longleftrightarrow>
     (case Listen S addr (cfg_MaxOpenConnections (DefaultConfig S)) of
        Inl err \<Rightarrow> True
      | Inr l \<Rightarrow> Serve S l (ExtraLogHandler (ServeMux S
          [(''/websocket'', WebsocketHandler S routes (cfg_MaxBodyBytes (DefaultConfig S)))] routes)) (DefaultConfig S) \<noteq> None)"
  "StartRPCServerWithDefaultConfig S routes addr \<noteq> Error e"
  by (auto simp: StartRPCServerWithDefaultConfig_def StartRPCServer_def Let_def split: sum.split option.split)

text \<open>
  What a response looks like on the wire. If encoding succeeds, the status (200, or the given one for an error) is
  sent before the body, with the JSON content type, the body is the encoding of the single response itself or of the list
  of all of them, and a failing connection is reported; if encoding fails, nothing at all is sent; and
  an error status without an error in the response panics before anything is sent.
\<close>

lemma responses_on_the_wire:
  "(case json_Marshal (case res of [r] \<Rightarrow> JSONObject r | _ \<Rightarrow> JSONArray res) of
      Inl err \<Rightarrow> WriteRPCResponseHTTP json_Marshal conn res fresh_writer = (Error (JsonMarshalError (LibError err)), fresh_writer)
    | Inr bytes \<Rightarrow> WriteRPCResponseHTTP json_Marshal conn res fresh_writer
        = (case conn bytes of None \<Rightarrow> Return () | Some e \<Rightarrow> Error (LibError e),
           \<lparr>rw_Header = [''Content-Type'' \<mapsto> ''application/json''], rw_Status = Some 200,
            rw_Sent = [''Content-Type'' \<mapsto> ''application/json''], rw_Body = bytes\<rparr>))
  \<and> (case (rsp_Error r, json_Marshal (JSONObject r)) of
      (None, _) \<Rightarrow> WriteRPCResponseHTTPError json_Marshal conn code r fresh_writer = (Panic NoRPCError, fresh_writer)
    | (Some _, Inl err) \<Rightarrow> WriteRPCResponseHTTPError json_Marshal conn code r fresh_writer
        = (Error (JsonMarshalError (LibError err)), fresh_writer)
    | (Some _, Inr bytes) \<Rightarrow> rw_Status (snd (WriteRPCResponseHTTPError json_Marshal conn code r fresh_writer)) = Some code
        \<and> rw_Body (snd (WriteRPCResponseHTTPError json_Marshal conn code r fresh_writer)) = bytes)"
  by (auto simp: WriteRPCResponseHTTP_def writeRPCResponseHTTP_def WriteRPCResponseHTTPError_def http_Write_def Let_def
      header_Set_def WriteHeader_def fresh_writer_def run_seqP throw_def panic_def ret_def split: option.split sum.split)

end
