(* ===== verification/Live_Env.thy ===== *)
theory Live_Env
  imports Block_Faults
begin

text \<open>
  What CometMock relies on to make progress: applications that answer, agree, accept and leave validators and parameters as they
  are (\<open>live_apps\<close>), a library that
  does what its documentation says (\<open>live_lib\<close>), and states from which a block can be run (\<open>ready\<close>). Here are the
  hypotheses and their first consequences; theory \<open>Progress\<close> shows that blocks keep coming.
\<close>

section \<open>Applications that answer\<close>

text \<open>The answers of the applications \<open>cs\<close>, asked one after the other.\<close>

fun answers :: "(string \<Rightarrow> 'w \<Rightarrow> (string + 'r) \<times> 'w) \<Rightarrow> string list \<Rightarrow> 'w \<Rightarrow> (string + 'r) list" where
  "answers f [] w = []"
| "answers f (c # cs) w = fst (f c w) # answers f cs (snd (f c w))"

text \<open>Asked the same, in any order, all of them answer, and the same.\<close>

definition agreeing :: "(string \<Rightarrow> 'w \<Rightarrow> (string + 'r) \<times> 'w) \<Rightarrow> bool" where
  "agreeing f \<longleftrightarrow> (\<forall>cs w. \<exists>r. set (answers f cs w) \<subseteq> {Inr r})"

text \<open>
  Applications that answer every request in every state of theirs, all the same; that accept the proposals and vote extensions, and
  prepare proposals the library finds valid; and whose FinalizeBlock gives one result per transaction and changes neither
  validators nor consensus parameters.
\<close>

definition live_apps :: "'w env \<Rightarrow> bool" where
  "live_apps E \<longleftrightarrow> orders_maps E
     \<and> (\<forall>req. agreeing (\<lambda>c. app_CheckTx E c req)) \<and> (\<forall>req. agreeing (\<lambda>c. app_FinalizeBlock E c req))
     \<and> agreeing (app_Commit E)
     \<and> (\<forall>c req w. \<exists>txs. fst (app_PrepareProposal E c req w) = Inr txs \<and> txs_Validate E txs (MaxBlockSizeBytes E) = None)
     \<and> (\<forall>c req w. fst (app_ProcessProposal E c req w) = Inr StatusAccept)
     \<and> (\<forall>c req w. \<exists>ext. fst (app_ExtendVote E c req w) = Inr ext)
     \<and> (\<forall>c req w. fst (app_VerifyVoteExtension E c req w) = Inr StatusAccept)
     \<and> (\<forall>c req w r. fst (app_FinalizeBlock E c req w) = Inr r \<longrightarrow> length (rsf_TxResults r) = length (rfb_Txs req)
          \<and> rsf_ValidatorUpdates r = [] \<and> rsf_ConsensusParamUpdates r = None)"

lemma live_appsD:
  assumes "live_apps E"
  shows "orders_maps E" "agreeing (\<lambda>c. app_CheckTx E c req1)" "agreeing (\<lambda>c. app_FinalizeBlock E c req2)"
    "agreeing (app_Commit E)"
    "\<exists>txs. fst (app_PrepareProposal E c req3 w) = Inr txs \<and> txs_Validate E txs (MaxBlockSizeBytes E) = None"
    "fst (app_ProcessProposal E c req4 w) = Inr StatusAccept" "\<exists>ext. fst (app_ExtendVote E c req4 w) = Inr ext"
    "fst (app_VerifyVoteExtension E c req5 w) = Inr StatusAccept"
    "fst (app_FinalizeBlock E c req2 w) = Inr r \<Longrightarrow> length (rsf_TxResults r) = length (rfb_Txs req2)
       \<and> rsf_ValidatorUpdates r = [] \<and> rsf_ConsensusParamUpdates r = None"
  using assms unfolding live_apps_def by blast+

lemma call_returns: "fst (f (world s)) = Inr a \<Longrightarrow> \<exists>t. call k f s = (Return a, t)"
  by (cases "f (world s)") (simp add: call_def)

lemma collect_calls:
  assumes "set (answers f (map acc_Client cs) (world s)) \<subseteq> {Inr r}"
  shows "\<exists>t. collect (\<lambda>c :: counterparty. call (k c) (f (acc_Client c))) cs s = (Return (replicate (length cs) r), t)"
  using assms
proof (induction cs arbitrary: s)
  case (Cons c cs)
  obtain a w where f: "f (acc_Client c) (world s) = (a, w)" by fastforce
  let ?u = "s\<lparr>abci_log := abci_log s @ [k c], world := w\<rparr>"
  have "call (k c) (f (acc_Client c)) s = (Return r, ?u)" using Cons.prems f by (simp add: call_def)
  moreover obtain t where "collect (\<lambda>c :: counterparty. call (k c) (f (acc_Client c))) cs ?u = (Return (replicate (length cs) r), t)"
    using Cons.IH [of ?u] Cons.prems f by auto
  ultimately show ?case by (simp add: run_bindP ret_def)
qed simp

lemma broadcast_returns:
  assumes "orders_maps E" "agreeing f" "distinct (map fst (Clients (client s)))" "Clients (client s) \<noteq> []"
  shows "\<exists>r t. broadcast E (\<lambda>c. call (k c) (f (acc_Client c))) s = (Return r, t)"
proof -
  obtain cs u where rc: "range_clients E s = (Return cs, u)" using range_clients_Return by blast
  have "mset cs = mset (map snd (Clients (client s)))" using range_clients_perm [OF assms(1,3) rc] by auto
  then have "cs \<noteq> []" using assms(4) by auto
  obtain r where "set (answers f (map acc_Client cs) (world u)) \<subseteq> {Inr r}"
    using assms(2) unfolding agreeing_def by blast
  then obtain t where "collect (\<lambda>c :: counterparty. call (k c) (f (acc_Client c))) cs u = (Return (replicate (length cs) r), t)"
    using collect_calls [of f cs u r k] by auto
  then show ?thesis using rc \<open>cs \<noteq> []\<close>
    by (cases cs) (auto simp: broadcast_def run_bindP list_ex_iff ret_def)
qed

lemma sends_return:
  assumes "live_apps E" "distinct (map fst (Clients (client s)))" "Clients (client s) \<noteq> []"
  shows "\<exists>r t. SendCheckTx E ty tx s = (Return r, t)" "\<exists>r t. SendFinalizeBlock E b lci s = (Return r, t)"
    "\<exists>r t. SendCommit E s = (Return r, t)"
proof -
  note b = broadcast_returns [OF live_appsD(1) [OF assms(1)] _ assms(2,3)]
  show "\<exists>r t. SendCheckTx E ty tx s = (Return r, t)"
    unfolding SendCheckTx_def Let_def by (rule b) (rule live_appsD(2) [OF assms(1)])
  show "\<exists>r t. SendFinalizeBlock E b lci s = (Return r, t)"
    unfolding SendFinalizeBlock_def Let_def by (rule b) (rule live_appsD(3) [OF assms(1)])
  show "\<exists>r t. SendCommit E s = (Return r, t)"
    unfolding SendCommit_def by (rule b) (rule live_appsD(4) [OF assms(1)])
qed

section \<open>A library that works\<close>

text \<open>The private validator \<open>pv\<close> signs for the address.\<close>

definition key_of :: "'w env \<Rightarrow> string \<Rightarrow> bytes \<Rightarrow> bool" where
  "key_of E pv address \<longleftrightarrow> (\<exists>pk. pv_GetPubKey E pv = Inr pk \<and> pk_Address E pk = address)"

text \<open>A vote with the signatures of a private validator, and an extension exactly if the vote set asks for one.\<close>

definition signed_vote :: "'w env \<Rightarrow> vote_set \<Rightarrow> string \<Rightarrow> vote \<Rightarrow> bool" where
  "signed_vote E vos pv vote \<longleftrightarrow> (\<exists>proto.
     SignVote E pv (vos_ChainID vos) (vote_ToProto E (vote\<lparr>vt_Signature := [], vt_ExtensionSignature := []\<rparr>)) = (None, proto)
     \<and> vt_Signature vote = vt_Signature proto
     \<and> vt_ExtensionSignature vote = (if vos_Extended vos then vt_ExtensionSignature proto else [])
     \<and> (\<not> vos_Extended vos \<longrightarrow> vt_Extension vote = []))"

text \<open>A vote of the validator with index \<open>i\<close>, as a vote set verifies it.\<close>

definition valid_vote :: "'w env \<Rightarrow> vote_set \<Rightarrow> nat \<Rightarrow> vote \<Rightarrow> bool" where
  "valid_vote E vos i vote \<longleftrightarrow> i < length (vs_Validators (vos_Validators vos))
     \<and> vt_ValidatorIndex vote = int i \<and> vt_ValidatorAddress vote = val_Address (vs_Validators (vos_Validators vos) ! i)
     \<and> vt_Height vote = vos_Height vos \<and> vt_Round vote = vos_Round vos \<and> vt_Type vote = vos_Type vos
     \<and> (\<exists>pv. key_of E pv (vt_ValidatorAddress vote) \<and> signed_vote E vos pv vote)"

text \<open>The vote is for the block.\<close>

definition names_block :: "'w env \<Rightarrow> block \<Rightarrow> vote \<Rightarrow> bool" where
  "names_block E b vote \<longleftrightarrow> (\<exists>ps. MakePartSet E b (BlockPartSizeBytes E) = Inr ps
     \<and> vt_BlockID vote = \<lparr>bid_Hash = block_Hash E b, bid_PartSetHeader = ps_Header E ps\<rparr>)"

text \<open>A member of a validator set: its address and its voting power. Those in \<open>up\<close> have more than two thirds of the power.\<close>

definition member :: "validator \<Rightarrow> bytes \<times> int" where
  "member v = (val_Address v, val_VotingPower v)"

definition members :: "validator_set \<Rightarrow> (bytes \<times> int) list" where
  "members vs = map member (vs_Validators vs)"

definition power_bounded :: "'w env \<Rightarrow> (bytes \<times> int) list \<Rightarrow> bool" where
  "power_bounded E ms \<longleftrightarrow> sum_list (map snd ms) \<le> MaxTotalVotingPower E"

definition quorum :: "bytes set \<Rightarrow> (bytes \<times> int) list \<Rightarrow> bool" where
  "quorum up ms \<longleftrightarrow> 0 < sum_list (map snd ms)
     \<and> 2 * sum_list (map snd ms) < 3 * sum_list (map snd (filter (\<lambda>m. fst m \<in> up) ms))"

text \<open>A commit with a signature, or an absent one, of each validator of the set, and with the extensions that are due.\<close>

definition commit_of :: "'w env \<Rightarrow> abci_params \<Rightarrow> validator_set \<Rightarrow> ext_commit \<Rightarrow> bool" where
  "commit_of E ap vs ec \<longleftrightarrow> list_all2 (ext_sig_ok E ec ap) (vs_Validators vs) (ec_ExtendedSignatures ec)"

text \<open>
  A block made at the next height of a state: with valid transactions, without evidence, proposed by one of the last
  validators, and with their commit of the last height (any commit at the initial height); and with a time set afterwards.
\<close>

definition made_block :: "'w env \<Rightarrow> comet_state \<Rightarrow> block \<Rightarrow> bool" where
  "made_block E st b \<longleftrightarrow> (\<exists>txs ec p t. txs_Validate E txs (MaxBlockSizeBytes E) = None
     \<and> p \<in> fst ` set (members (st_LastValidators st))
     \<and> (st_InitialHeight st = st_LastBlockHeight st + 1
        \<or> ec_Height ec = st_LastBlockHeight st \<and> commit_of E (cp_ABCI (st_ConsensusParams st)) (st_LastValidators st) ec)
     \<and> b = (MakeBlock E st (st_LastBlockHeight st + 1) txs (ec_ToCommit E ec) [] p)
        \<lparr>blk_Header := (blk_Header (MakeBlock E st (st_LastBlockHeight st + 1) txs (ec_ToCommit E ec) [] p))\<lparr>hd_Time := t\<rparr>\<rparr>)"

text \<open>
  Valid votes of more than two thirds of the power for a block made from a valid state give a commit, which verifies and
  belongs to a valid light block.
\<close>

definition makes_commits :: "'w env \<Rightarrow> (comet_state \<Rightarrow> bool) \<Rightarrow> bool" where
  "makes_commits E V \<longleftrightarrow> (\<forall>vos st b. V st \<longrightarrow> made_block E st b \<longrightarrow>
     vos_Validators vos = st_Validators st \<longrightarrow> vos_ChainID vos = st_ChainID st \<longrightarrow>
     vos_Height vos = hd_Height (blk_Header b) \<longrightarrow> vos_Type vos = PrecommitType E \<longrightarrow>
     vos_Extended vos = VoteExtensionsEnabled E (cp_ABCI (st_ConsensusParams st)) (vos_Height vos) \<longrightarrow>
     (\<forall>v \<in> set (vos_Votes vos). (\<exists>i. valid_vote E vos i v) \<and> names_block E b v) \<longrightarrow>
     quorum (vt_ValidatorAddress ` set (vos_Votes vos)) (members (vos_Validators vos)) \<longrightarrow>
     (\<exists>ec. MakeExtendedCommit E vos (cp_ABCI (st_ConsensusParams st)) = Inr ec
       \<and> ec_Height ec = vos_Height vos \<and> ec_Round ec = vos_Round vos
       \<and> commit_of E (cp_ABCI (st_ConsensusParams st)) (vos_Validators vos) ec
       \<and> VerifyCommitLightTrusting E (vos_Validators vos) (vos_ChainID vos) (ec_ToCommit E ec) (1, 3) = None
       \<and> lb_ValidateBasic E \<lparr>lb_SignedHeader = \<lparr>sh_Header = blk_Header b, sh_Commit = ec_ToCommit E ec\<rparr>,
           lb_ValidatorSet = vos_Validators vos\<rparr> (vos_ChainID vos) = None))"

text \<open>
  Documented behaviour of the library, with \<open>V\<close> the states whose contents it regards as valid (chain id, version, hashes):
  a block made from a valid state can be split into parts of the two sizes CometMock uses, and updating the state with it gives a valid state; mock
  validators sign every precommit; a vote set takes a valid vote of a validator it has no vote of; enough votes make a
  commit; turning it into a plain commit keeps the round and the number of signatures; no updates are no validators;
  and rotating the proposer of a set that is not empty, with a total power that is not above the library's maximum, keeps its
  members and chooses one of them.
\<close>

definition live_lib :: "'w env \<Rightarrow> (comet_state \<Rightarrow> bool) \<Rightarrow> bool" where
  "live_lib E V \<longleftrightarrow> makes_blocks E \<and> commit_sizes E
     \<and> (\<forall>st b n. V st \<and> made_block E st b \<and> n \<in> {2, BlockPartSizeBytes E} \<longrightarrow> (\<exists>ps. MakePartSet E b n = Inr ps))
     \<and> (\<forall>st b bid r st' h. V st \<and> made_block E st b \<and> GetBlockIdFromBlock E b = Return bid
          \<and> rsf_ConsensusParamUpdates r = None \<and> UpdateState E st bid (blk_Header b) r [] = Return st'
          \<longrightarrow> V (st'\<lparr>st_AppHash := h\<rparr>))
     \<and> (\<forall>pv chain v. vt_Type v = PrecommitType E \<longrightarrow> fst (SignVote E pv chain (vote_ToProto E v)) = None)
     \<and> (\<forall>vos vote i. valid_vote E vos i vote \<and> vos_Type vos = PrecommitType E
          \<and> (\<forall>v \<in> set (vos_Votes vos). vt_ValidatorIndex v \<noteq> vt_ValidatorIndex vote) \<longrightarrow> AddVote E vos vote = (True, None))
     \<and> makes_commits E V
     \<and> (\<forall>ec. cm_Round (ec_ToCommit E ec) = ec_Round ec
          \<and> length (cm_Signatures (ec_ToCommit E ec)) = length (ec_ExtendedSignatures ec))
     \<and> PB2TM_ValidatorUpdates E [] = Inr []
     \<and> (\<forall>vs. vs_Validators vs \<noteq> [] \<and> power_bounded E (members vs) \<longrightarrow> (\<exists>vs' p. IncrementProposerPriority E vs 1 = Inr vs' \<and> members vs' = members vs
          \<and> vs_Proposer vs' = Some p \<and> val_Address p \<in> fst ` set (members vs')))"

lemma live_libD:
  assumes "live_lib E V"
  shows "makes_blocks E" "commit_sizes E" "V st \<Longrightarrow> made_block E st b \<Longrightarrow> n \<in> {2, BlockPartSizeBytes E} \<Longrightarrow> \<exists>ps. MakePartSet E b n = Inr ps"
    "V st \<Longrightarrow> made_block E st b \<Longrightarrow> GetBlockIdFromBlock E b = Return bid \<Longrightarrow> rsf_ConsensusParamUpdates r = None \<Longrightarrow>
       UpdateState E st bid (blk_Header b) r [] = Return st' \<Longrightarrow> V (st'\<lparr>st_AppHash := h\<rparr>)"
    "vt_Type v = PrecommitType E \<Longrightarrow> fst (SignVote E pv chain (vote_ToProto E v)) = None"
    "valid_vote E vos i vote \<Longrightarrow> vos_Type vos = PrecommitType E \<Longrightarrow>
       \<forall>v \<in> set (vos_Votes vos). vt_ValidatorIndex v \<noteq> vt_ValidatorIndex vote \<Longrightarrow> AddVote E vos vote = (True, None)"
    "cm_Round (ec_ToCommit E ec) = ec_Round ec"
    "length (cm_Signatures (ec_ToCommit E ec)) = length (ec_ExtendedSignatures ec)"
    "PB2TM_ValidatorUpdates E [] = Inr []"
    "vs_Validators vs \<noteq> [] \<Longrightarrow> power_bounded E (members vs) \<Longrightarrow> \<exists>vs' p. IncrementProposerPriority E vs 1 = Inr vs' \<and> members vs' = members vs
       \<and> vs_Proposer vs' = Some p \<and> val_Address p \<in> fst ` set (members vs')"
  using assms unfolding live_lib_def by (elim conjE; blast)+

lemma live_lib_commit:
  assumes "live_lib E V" "V st" "made_block E st b" "vos_Validators vos = st_Validators st" "vos_ChainID vos = st_ChainID st"
    "vos_Height vos = hd_Height (blk_Header b)" "vos_Type vos = PrecommitType E"
    "vos_Extended vos = VoteExtensionsEnabled E (cp_ABCI (st_ConsensusParams st)) (vos_Height vos)"
    "\<forall>v \<in> set (vos_Votes vos). (\<exists>i. valid_vote E vos i v) \<and> names_block E b v"
    "quorum (vt_ValidatorAddress ` set (vos_Votes vos)) (members (vos_Validators vos))"
  obtains ec where "MakeExtendedCommit E vos (cp_ABCI (st_ConsensusParams st)) = Inr ec" "ec_Height ec = vos_Height vos"
    "ec_Round ec = vos_Round vos" "commit_of E (cp_ABCI (st_ConsensusParams st)) (vos_Validators vos) ec"
    "VerifyCommitLightTrusting E (vos_Validators vos) (vos_ChainID vos) (ec_ToCommit E ec) (1, 3) = None"
    "lb_ValidateBasic E \<lparr>lb_SignedHeader = \<lparr>sh_Header = blk_Header b, sh_Commit = ec_ToCommit E ec\<rparr>,
       lb_ValidatorSet = vos_Validators vos\<rparr> (vos_ChainID vos) = None"
proof -
  have "makes_commits E V" using assms(1) unfolding live_lib_def by blast
  from this [unfolded makes_commits_def, rule_format, OF assms(2-8) assms(9) [rule_format] assms(10)] that
  show thesis by blast
qed

section \<open>States from which blocks run\<close>

definition set_ready :: "(bytes \<times> int) list \<Rightarrow> validator_set \<Rightarrow> bool" where
  "set_ready ms vs \<longleftrightarrow> members vs = ms \<and> (\<exists>p. vs_Proposer vs = Some p \<and> val_Address p \<in> fst ` set ms)"

text \<open>Registered, with the key of the address and a signing status.\<close>

definition registered :: "'w env \<Rightarrow> abci_client \<Rightarrow> bytes \<Rightarrow> bool" where
  "registered E a x \<longleftrightarrow> (\<exists>up c. signingStatus a (addr_String E x) = Some up
     \<and> map_of (Clients a) (addr_String E x) = Some c \<and> key_of E (acc_PrivValidator c) x)"

definition signers :: "'w env \<Rightarrow> abci_client \<Rightarrow> bytes set" where
  "signers E a = {x. signingStatus a (addr_String E x) = Some True}"

text \<open>
  The members \<open>ms\<close> are the validators of the last, the current and the next height and are registered, those who sign have
  more than two thirds of the power, which is not above the library's maximum, the state is valid, the store is open, and the client has the commit of the last
  height (any commit before the initial height).
\<close>

definition ready :: "'w env \<Rightarrow> (comet_state \<Rightarrow> bool) \<Rightarrow> (bytes \<times> int) list \<Rightarrow> abci_client \<Rightarrow> bool" where
  "ready E V ms a \<longleftrightarrow>
     int (length ms) < 2 ^ 31 \<and> distinct (map fst (Clients a)) \<and> (\<forall>(k, c) \<in> set (Clients a). acc_ValidatorAddress c = k)
     \<and> \<not> stateUpdateMutex (Storage a) \<and> V (CurState a)
     \<and> set_ready ms (st_LastValidators (CurState a)) \<and> set_ready ms (st_Validators (CurState a))
     \<and> set_ready ms (st_NextValidators (CurState a))
     \<and> (\<forall>m \<in> set ms. registered E a (fst m)) \<and> quorum (signers E a) ms
     \<and> ec_Height (LastCommit a) = st_LastBlockHeight (CurState a) \<and> ec_Round (LastCommit a) = 0
     \<and> 0 \<le> st_LastBlockHeight (CurState a)
     \<and> (st_InitialHeight (CurState a) = st_LastBlockHeight (CurState a) + 1
        \<or> st_InitialHeight (CurState a) \<le> st_LastBlockHeight (CurState a)
          \<and> commit_of E (cp_ABCI (st_ConsensusParams (CurState a))) (st_LastValidators (CurState a)) (LastCommit a))
     \<and> power_bounded E ms"

lemma readyD:
  assumes "ready E V ms a"
  shows "int (length ms) < 2 ^ 31" "distinct (map fst (Clients a))" "\<forall>(k, c) \<in> set (Clients a). acc_ValidatorAddress c = k"
    "\<not> stateUpdateMutex (Storage a)" "V (CurState a)" "set_ready ms (st_LastValidators (CurState a))"
    "set_ready ms (st_Validators (CurState a))" "set_ready ms (st_NextValidators (CurState a))"
    "\<forall>m \<in> set ms. registered E a (fst m)" "quorum (signers E a) ms"
    "ec_Height (LastCommit a) = st_LastBlockHeight (CurState a)" "ec_Round (LastCommit a) = 0"
    "0 \<le> st_LastBlockHeight (CurState a)"
    "st_InitialHeight (CurState a) = st_LastBlockHeight (CurState a) + 1
      \<or> st_InitialHeight (CurState a) \<le> st_LastBlockHeight (CurState a)
        \<and> commit_of E (cp_ABCI (st_ConsensusParams (CurState a))) (st_LastValidators (CurState a)) (LastCommit a)"
    "power_bounded E ms"
  using assms unfolding ready_def by simp_all

lemma quorum_not_Nil: "quorum up ms \<Longrightarrow> ms \<noteq> []"
  by (auto simp: quorum_def)

lemma ready_clients: "ready E V ms a \<Longrightarrow> Clients a \<noteq> []"
proof -
  assume r: "ready E V ms a"
  obtain m where "m \<in> set ms" using quorum_not_Nil [OF readyD(10) [OF r]] by (cases ms) auto
  then have "registered E a (fst m)" using readyD(9) [OF r] by blast
  then show ?thesis by (auto simp: registered_def)
qed

text \<open>What \<open>ready\<close> says is part of the frame of a block.\<close>

lemma ready_frame:
  assumes "frame t = frame s"
  shows "ready E V ms (client t) = ready E V ms (client s)"
  by (simp only: ready_def registered_def signers_def frameD [OF assms])

section \<open>The sample environment is live\<close>

lemma sample_agreeing: "(\<And>c w. f c w = (Inr r, g c w)) \<Longrightarrow> agreeing f"
proof -
  assume f: "\<And>c w. f c w = (Inr r, g c w)"
  have "set (answers f cs w) \<subseteq> {Inr r}" for cs w
    using f by (induction cs arbitrary: w) auto
  then show ?thesis unfolding agreeing_def by blast
qed

lemma sample_live_apps: "live_apps sample_env"
  unfolding live_apps_def orders_maps_def
  by (auto simp: sample_env_def sample_finalize_def intro: sample_agreeing)

lemma sample_members_rotate: "vs_Validators vs \<noteq> [] \<Longrightarrow> members (sample_rotate vs) = members vs
    \<and> (\<exists>p. vs_Proposer (sample_rotate vs) = Some p \<and> p \<in> set (vs_Validators vs))"
proof -
  assume "vs_Validators vs \<noteq> []"
  then obtain v vals where v: "vs_Validators vs = v # vals" by (cases "vs_Validators vs") auto
  have "set (dropWhile (\<lambda>w. Some w \<noteq> vs_Proposer vs) (v # vals)) \<subseteq> set (v # vals)" by (auto dest: set_dropWhileD)
  then show ?thesis
    by (auto simp: sample_rotate_def v members_def simp del: dropWhile.simps split: list.split)
qed

lemma sample_quorum:
  "quorum up (members vs) \<longleftrightarrow> 0 < sample_power (vs_Validators vs)
    \<and> 2 * sample_power (vs_Validators vs) < 3 * sample_power (filter (\<lambda>v. val_Address v \<in> up) (vs_Validators vs))"
  by (simp add: quorum_def members_def sample_power_def filter_map o_def member_def)

lemma sample_commit_of:
  assumes "\<forall>v \<in> set (vos_Votes vos). \<exists>i. valid_vote sample_env vos i v"
  shows "list_all2 (ext_sig_ok sample_env ec ap) (vs_Validators (vos_Validators vos))
    (map (sample_sig_of (vos_Votes vos)) (enumerate 0 (vs_Validators (vos_Validators vos))))"
proof (rule list_all2_all_nthI)
  fix i
  let ?vals = "vs_Validators (vos_Validators vos)"
  assume i: "i < length ?vals"
  let ?sig = "sample_sig_of (vos_Votes vos) (i, ?vals ! i)"
  have "cs_BlockIDFlag ?sig = 1 \<or> cs_ValidatorAddress ?sig = val_Address (?vals ! i)"
  proof (cases "find (\<lambda>v. vt_ValidatorIndex v = int (fst (i, ?vals ! i))) (vos_Votes vos)")
    case (Some v)
    then have "v \<in> set (vos_Votes vos)" "vt_ValidatorIndex v = int i" using find_Some_iff_in [OF Some] by simp_all
    moreover obtain j where "valid_vote sample_env vos j v" using assms calculation(1) by blast
    ultimately have "vt_ValidatorAddress v = val_Address (?vals ! i)" by (simp add: valid_vote_def)
    then show ?thesis using Some by (simp add: sample_sig_of_def)
  qed (simp add: sample_sig_of_def)
  then have "ext_sig_ok sample_env ec ap (?vals ! i) ?sig" by (simp add: ext_sig_ok_def sample_env_def)
  then show "ext_sig_ok sample_env ec ap (?vals ! i) (map (sample_sig_of (vos_Votes vos)) (enumerate 0 ?vals) ! i)"
    using i by (simp add: nth_enumerate_eq)
qed simp

lemma sample_makes_commits: "makes_commits sample_env V"
  unfolding makes_commits_def
proof (intro allI impI)
  fix vos :: vote_set and st b
  let ?ap = "cp_ABCI (st_ConsensusParams st)" and ?votes = "vos_Votes vos"
  assume v: "\<forall>v \<in> set ?votes. (\<exists>i. valid_vote sample_env vos i v) \<and> names_block sample_env b v"
    and q: "quorum (vt_ValidatorAddress ` set ?votes) (members (vos_Validators vos))"
  have "?votes \<noteq> []" using q by (auto simp: sample_quorum) (simp add: sample_power_def)
  then obtain x xs where x: "?votes = x # xs" by (cases ?votes) auto
  obtain ec where ec: "sample_ext_commit vos ?ap = Inr ec" "ec_Height ec = vos_Height vos" "ec_Round ec = vos_Round vos"
      "ec_ExtendedSignatures ec = map (sample_sig_of ?votes) (enumerate 0 (vs_Validators (vos_Validators vos)))"
    using q by (simp add: sample_ext_commit_def Let_def x sample_quorum)
  have "commit_of sample_env ?ap (vos_Validators vos) ec"
    unfolding commit_of_def ec(4) by (rule sample_commit_of) (use v in blast)
  then show "\<exists>ec. MakeExtendedCommit sample_env vos ?ap = Inr ec \<and> ec_Height ec = vos_Height vos
      \<and> ec_Round ec = vos_Round vos \<and> commit_of sample_env ?ap (vos_Validators vos) ec
      \<and> VerifyCommitLightTrusting sample_env (vos_Validators vos) (vos_ChainID vos) (ec_ToCommit sample_env ec) (1, 3) = None
      \<and> lb_ValidateBasic sample_env \<lparr>lb_SignedHeader = \<lparr>sh_Header = blk_Header b, sh_Commit = ec_ToCommit sample_env ec\<rparr>,
           lb_ValidatorSet = vos_Validators vos\<rparr> (vos_ChainID vos) = None"
    using ec(1-3) by (intro exI [of _ ec]) (simp add: sample_env_def)
qed

lemma sample_live_lib: "live_lib sample_env (\<lambda>_. True)"
proof -
  have r: "\<exists>vs' p. IncrementProposerPriority sample_env vs 1 = Inr vs' \<and> members vs' = members vs
      \<and> vs_Proposer vs' = Some p \<and> val_Address p \<in> fst ` set (members vs')" if vs: "vs_Validators vs \<noteq> []" for vs
  proof -
    obtain p where p: "vs_Proposer (sample_rotate vs) = Some p" "p \<in> set (vs_Validators vs)"
        "members (sample_rotate vs) = members vs"
      using sample_members_rotate [OF vs] by blast
    have "val_Address p \<in> fst ` set (members vs)" using p(2) by (force simp: members_def member_def)
    then show ?thesis using p by (intro exI [of _ "sample_rotate vs"] exI [of _ p]) (simp add: sample_env_def)
  qed
  show ?thesis
    unfolding live_lib_def
    by (intro conjI sample_makes_blocks sample_commit_sizes sample_makes_commits allI impI r)
      (simp_all add: sample_env_def sample_to_commit_def)
qed

lemma sample_ready: "ready sample_env (\<lambda>_. True) [(''v1'', 10), (''v2'', 20)] (client sample_sys)"
  by (simp add: ready_def set_ready_def registered_def signers_def quorum_def members_def member_def key_of_def
      power_bounded_def sample_sys_defs ex_bool_eq)

end
