(* ===== verification/Progress.thy ===== *)
theory Progress
  imports Live_Env Startup
begin

text \<open>
  CometMock makes progress: with applications and a library as in theory \<open>Live_Env\<close>, every phase of a block returns, the block
  returns, and the state after it is one from which the next block runs; so blocks keep coming, however many are
  asked for.
\<close>

section \<open>Calls and lookups that return\<close>

lemma wpR_call:
  "\<exists>a. fst (f (world s)) = Inr a \<and> P a \<Longrightarrow> (\<And>a t. P a \<Longrightarrow> core t = core s \<Longrightarrow> Q a t) \<Longrightarrow> wpR (call k f) Q s"
  by (cases "f (world s)") (auto simp: wpR_def call_def core_def)

lemma wpR_get_client [wpR_intros]: "Q (f (client s)) s \<Longrightarrow> wpR (get_client f) Q s"
  by (simp add: wpR_def)

section \<open>Transactions and clients\<close>

lemma check_queue_returns:
  assumes "live_apps E" "distinct (map fst (Clients (client s)))" "Clients (client s) \<noteq> []"
    and q: "\<And>q a. Clients (set_queue q a) = Clients a"
  shows "\<exists>t. check_queue E ty queue set_queue s = (Return (), t)"
proof -
  let ?I = "\<lambda>u. Clients (client u) = Clients (client s)"
  have "wpR (check_queue E ty queue set_queue) (\<lambda>_. ?I) s"
    unfolding check_queue_def
  proof (rule wpR_bindP, simp add: wpR_def [of "get_client queue"], rule wpR_foreach, goal_cases)
    case (2 x u)
    obtain i tx where x: "x = (i, tx)" by fastforce
    obtain r v where r: "SendCheckTx E ty tx u = (Return r, v)"
      using sends_return(1) [OF assms(1), of u ty tx] assms(2,3) 2 by auto
    then have "client v = client u" by (rule check_call.client_unchanged)
    then show ?case using r 2 q
      by (auto simp: wpR_def x run_bindP run_wrap_error)
  qed simp
  then show ?thesis by (auto simp: wpR_def)
qed

lemma check_txs_return:
  assumes "live_apps E" "ready E V ms (client s)"
  shows "\<exists>t. check_fresh_txs E s = (Return (), t)" "\<exists>t. check_stale_txs E s = (Return (), t)"
  unfolding check_fresh_txs_def check_stale_txs_def
  by (rule check_queue_returns [OF assms(1) readyD(2) [OF assms(2)] ready_clients [OF assms(2)]]; simp)+

lemma client_found:
  assumes "live_apps E" "ready E V ms (client s)" "x \<in> fst ` set ms"
  shows "\<exists>c t. GetCounterpartyFromAddress E (addr_String E x) s = (Return c, t)"
    "\<exists>c t. find_proposer_app E x s = (Return c, t)"
proof -
  have "registered E (client s) x" using readyD(9) [OF assms(2)] assms(3) by auto
  then obtain c where "map_of (Clients (client s)) (addr_String E x) = Some c" by (auto simp: registered_def)
  then have c: "(addr_String E x, c) \<in> set (Clients (client s))" by (rule map_of_SomeD)
  then have a: "acc_ValidatorAddress c = addr_String E x" using readyD(3) [OF assms(2)] by blast
  have i: "c \<in> set (map snd (Clients (client s)))" using c by force
  obtain cs u where rc: "range_clients E s = (Return cs, u)" using range_clients_Return by blast
  have "mset cs = mset (map snd (Clients (client s)))"
    using range_clients_perm [OF live_appsD(1) [OF assms(1)] readyD(2) [OF assms(2)] rc] by auto
  then have "c \<in> set cs" using i by (metis set_mset_mset)
  then have "find (\<lambda>c. acc_ValidatorAddress c = addr_String E x) cs \<noteq> None"
    using a by (auto simp: find_None_iff_all)
  then show "\<exists>c t. GetCounterpartyFromAddress E (addr_String E x) s = (Return c, t)"
    "\<exists>c t. find_proposer_app E x s = (Return c, t)"
    using rc by (auto simp: GetCounterpartyFromAddress_def find_proposer_app_def run_bindP)
qed

section \<open>The proposal\<close>

lemma BuildExtendedCommitInfo_returns:
  assumes "commit_sizes E" "ec_Height ec < ih \<or> commit_of E ap vs ec"
  shows "\<exists>info. BuildExtendedCommitInfo E ec vs ih ap = Return info"
proof (cases "ec_Height ec < ih")
  case False
  then have c: "list_all2 (ext_sig_ok E ec ap) (vs_Validators vs) (ec_ExtendedSignatures ec)"
    using assms(2) by (simp add: commit_of_def)
  from list_all2_lengthD [OF c] ext_commit_votes_Return_iff [of 0 "vs_Validators vs" ec E ap] c assms(1) False
  show ?thesis by (auto simp: BuildExtendedCommitInfo_def commit_sizes_def Let_def bindO_Return_iff)
qed (simp add: BuildExtendedCommitInfo_def)

lemma BuildLastCommitInfo_returns:
  assumes "commit_sizes E" "blk_LastCommit b = Some c" "hd_Height (blk_Header b) = ih
    \<or> length (cm_Signatures c) = length (vs_Validators vs)"
  shows "\<exists>lci. BuildLastCommitInfo E b vs ih = Return lci"
  using assms(3) by (auto simp: BuildLastCommitInfo_spec [OF assms(1,2)])

lemma decideProposal_returns:
  assumes A: "live_apps E" and L: "live_lib E V" and r: "ready E V ms (client s)" and p: "val_Address v \<in> fst ` set ms"
    and h: "st_LastBlockHeight (CurState (client s)) + 1 < 2 ^ 63"
  shows "\<exists>prp b u. decideProposal E app v (i64 (st_LastBlockHeight (CurState (client s)) + 1)) 0 txs [] s = (Return (prp, b), u)
    \<and> made_block E (CurState (client s)) (b\<lparr>blk_Header := (blk_Header b)\<lparr>hd_Time := t\<rparr>\<rparr>)"
proof -
  let ?a = "client s" and ?st = "CurState (client s)" and ?ec = "LastCommit (client s)"
  have i: "i64 (st_LastBlockHeight ?st + 1) = st_LastBlockHeight ?st + 1" using readyD(13) [OF r] h by (simp add: in64_def)
  have commit: "st_InitialHeight ?st = st_LastBlockHeight ?st + 1
      \<or> ec_Height ?ec = st_LastBlockHeight ?st \<and> commit_of E (cp_ABCI (st_ConsensusParams ?st)) (st_LastValidators ?st) ?ec"
    using readyD(11,14) [OF r] by blast
  have "ec_Height ?ec < st_InitialHeight ?st \<or> commit_of E (cp_ABCI (st_ConsensusParams ?st)) (st_LastValidators ?st) ?ec"
    using commit readyD(11) [OF r] by auto
  then obtain info where info: "BuildExtendedCommitInfo E ?ec (st_LastValidators ?st) (st_InitialHeight ?st)
      (cp_ABCI (st_ConsensusParams ?st)) = Return info"
    using BuildExtendedCommitInfo_returns [OF live_libD(2) [OF L]] by blast
  let ?mk = "\<lambda>txs. MakeBlock E ?st (st_LastBlockHeight ?st + 1) txs (ec_ToCommit E ?ec) [] (val_Address v)"
  have mk: "hd_ProposerAddress (blk_Header (?mk txs)) = val_Address v" for txs
    using live_libD(1) [OF L] by (simp add: makes_blocks_def)
  have made: "made_block E ?st ((?mk txs')\<lparr>blk_Header := (blk_Header (?mk txs'))\<lparr>hd_Time := t\<rparr>\<rparr>)"
    if "txs_Validate E txs' (MaxBlockSizeBytes E) = None" for txs' t
    using that commit p readyD(6) [OF r] unfolding made_block_def set_ready_def by blast
  have parts: "\<exists>ps. MakePartSet E (?mk txs') (BlockPartSizeBytes E) = Inr ps"
      if "txs_Validate E txs' (MaxBlockSizeBytes E) = None" for txs'
    using live_libD(3) [OF L readyD(5) [OF r] made [OF that, of "hd_Time (blk_Header (?mk txs'))"], of "BlockPartSizeBytes E"] by simp
  let ?Q = "\<lambda>b u. core u = core s \<and> (\<exists>txs'. b = ?mk txs' \<and> txs_Validate E txs' (MaxBlockSizeBytes E) = None)"
  have c: "wpR (CreateProposalBlock E app v (st_LastBlockHeight ?st + 1) ?st ?ec txs []) ?Q s"
    unfolding CreateProposalBlock_def Let_def
    by (rule wpR_bindP, rule wpR_lift_outcome [OF info], rule wpR_bindP, rule wpR_attempt,
        rule wpR_call [OF live_appsD(5) [OF A]]) (auto simp: mk intro!: wpR_ret)
  have "wpR (decideProposal E app v (st_LastBlockHeight ?st + 1) 0 txs [])
      (\<lambda>d u. \<exists>txs'. snd d = ?mk txs' \<and> txs_Validate E txs' (MaxBlockSizeBytes E) = None) s"
    unfolding decideProposal_def
  proof (intro wpR_bindP wpR_get_client, rule wpR_mono [OF c], elim conjE exE, goal_cases)
    case (1 b u txs')
    then show ?case using parts [OF 1(3)]
      by (auto simp: Let_def split: sum.split intro!: wpR_intros exI [of _ txs'])
  qed
  then show ?thesis using made i by (auto simp: wpR_def)
qed

lemma propose_block_returns:
  assumes A: "live_apps E" and L: "live_lib E V" and r: "ready E V ms (client s)" and p: "val_Address v \<in> fst ` set ms"
    and h: "st_LastBlockHeight (CurState (client s)) + 1 < 2 ^ 63"
  shows "\<exists>b u. propose_block E app (Some v) t txs [] s = (Return b, u) \<and> made_block E (CurState (client s)) b"
proof -
  obtain prp b u where d: "decideProposal E app v (i64 (st_LastBlockHeight (CurState (client s)) + 1)) 0 txs [] s
      = (Return (prp, b), u)" "made_block E (CurState (client s)) (b\<lparr>blk_Header := (blk_Header b)\<lparr>hd_Time := t\<rparr>\<rparr>)"
    using decideProposal_returns [OF assms] by blast
  then have "attempt (decideProposal E app v (i64 (st_LastBlockHeight (CurState (client s)) + 1)) 0 txs []) s
      = (Return (Inr (prp, b)), u)" by (simp add: attempt_Inr_iff)
  then show ?thesis using d(2)
    by (simp add: propose_block_def run_bindP run_seqP ClearTxs_def foreach_stale Let_def ret_def)
qed

section \<open>The proposal is processed\<close>

text \<open>The last commit of the block fits the validators, so that its information can be built.\<close>

definition fits :: "'w env \<Rightarrow> comet_state \<Rightarrow> block \<Rightarrow> bool" where
  "fits E st b \<longleftrightarrow> (\<exists>c. blk_LastCommit b = Some c \<and> cm_Round c = 0
     \<and> (hd_Height (blk_Header b) = st_InitialHeight st \<or> length (cm_Signatures c) = length (vs_Validators (st_Validators st))))
     \<and> hd_Height (blk_Header b) = st_LastBlockHeight st + 1"

lemma proposed_fits:
  assumes "live_lib E V" "ready E V ms a" "proposed E t v a b" "st_LastBlockHeight (CurState a) + 1 < 2 ^ 63"
  shows "fits E (CurState a) b"
proof -
  have h: "hd_Height (blk_Header b) = st_LastBlockHeight (CurState a) + 1"
    using assms(3,4) readyD(13) [OF assms(2)] by (simp add: proposed_def in64_def)
  have "length (vs_Validators (st_LastValidators (CurState a))) = length (vs_Validators (st_Validators (CurState a)))"
    using readyD(6,7) [OF assms(2)] by (metis set_ready_def members_def length_map)
  then have "st_InitialHeight (CurState a) = hd_Height (blk_Header b)
      \<or> length (ec_ExtendedSignatures (LastCommit a)) = length (vs_Validators (st_Validators (CurState a)))"
    using readyD(14) [OF assms(2)] h by (auto simp: commit_of_def dest: list_all2_lengthD)
  then show ?thesis
    using assms(3) h readyD(12) [OF assms(2)] live_libD(7,8) [OF assms(1)] by (auto simp: fits_def proposed_def)
qed

lemma fits_info:
  assumes "live_lib E V" "fits E st b"
  shows "\<exists>lci. BuildLastCommitInfo E b (st_Validators st) (st_InitialHeight st) = Return lci"
  using assms(2) BuildLastCommitInfo_returns [OF live_libD(2) [OF assms(1)]] by (auto simp: fits_def)

lemma counterparty_found:
  assumes "live_apps E" "ready E V ms (client u)" "val_Address v \<in> fst ` set ms"
  shows "wpR (counterparty_of E v) (\<lambda>_ t. core t = core u) u"
proof -
  obtain c t where g: "GetCounterpartyFromAddress E (addr_String E (val_Address v)) u = (Return c, t)"
    using client_found(1) [OF assms] by blast
  have "core t = core u" using g by (rule keeps_core [rotated]) (auto intro: keeps_intros)
  then show ?thesis using g by (simp add: wpR_def counterparty_of_def wrap_error_Return_iff)
qed

lemma find_non_proposers_returns:
  assumes "live_apps E" "ready E V ms (client s)"
  shows "\<exists>nps t. find_non_proposers E x s = (Return nps, t)"
proof -
  have "wpR (collect (counterparty_of E) (vs_Validators (st_Validators (CurState (client s)))))
      (\<lambda>ys t. core t = core s \<and> list_all2 (\<lambda>_ _. True) (vs_Validators (st_Validators (CurState (client s)))) ys) s"
  proof (rule wpR_collect, goal_cases)
    case (2 v u)
    have "val_Address v \<in> fst ` set ms"
      using 2(1) readyD(7) [OF assms(2)] by (force simp: set_ready_def members_def member_def)
    moreover have "ready E V ms (client u)" using 2(2) assms(2) by (simp add: core_def)
    ultimately have "wpR (counterparty_of E v) (\<lambda>_ t. core t = core u) u" using counterparty_found [OF assms(1)] by blast
    then show ?case using 2(2) by (simp add: wpR_def)
  qed simp
  then show ?thesis by (auto simp: wpR_def find_non_proposers_def current_validators_def run_bindP)
qed

lemma process_proposals_returns:
  assumes "live_apps E" "live_lib E V" "fits E (CurState (client s)) b"
  shows "\<exists>t. process_proposals E nps b s = (Return (), t)"
proof -
  have "wpR (process_proposals E nps b) (\<lambda>_ t. core t = core s) s"
    unfolding process_proposals_def
  proof (rule wpR_foreach, goal_cases)
    case (2 app u)
    have c: "client u = client s" using 2(2) by (simp add: core_def)
    obtain lci where lci: "BuildLastCommitInfo E b (st_Validators (CurState (client u))) (st_InitialHeight (CurState (client u)))
        = Return lci" using fits_info [OF assms(2,3)] c by auto
    have "wpR (ProcessProposal E app b) (\<lambda>ok t. ok \<and> core t = core u) u"
      unfolding ProcessProposal_def Let_def
      by (intro wpR_bindP wpR_get_client, rule wpR_lift_outcome [OF lci], rule wpR_bindP,
          rule wpR_call [where P = "\<lambda>a. a = StatusAccept"]) (auto simp: live_appsD(6) [OF assms(1)] intro!: wpR_ret)
    then show ?case using 2(2) by (intro wpR_bindP wpR_wrap_error) (erule wpR_mono, auto intro!: wpR_ret)
  qed simp
  then show ?thesis by (auto simp: wpR_def)
qed

section \<open>The votes\<close>

text \<open>The vote of a validator that signs is valid and for the block; the others have none.\<close>

definition vote_ok :: "'w env \<Rightarrow> abci_client \<Rightarrow> vote_set \<Rightarrow> block \<Rightarrow> nat \<times> validator \<Rightarrow> vote option \<Rightarrow> bool" where
  "vote_ok E a vos b iv vote \<longleftrightarrow> (if val_Address (snd iv) \<in> signers E a
     then \<exists>v. vote = Some v \<and> valid_vote E vos (fst iv) v \<and> names_block E b v else vote = None)"

text \<open>The vote of a validator for a block, before it is signed.\<close>

definition ballot :: "'w env \<Rightarrow> block \<Rightarrow> bytes \<Rightarrow> validator \<Rightarrow> nat \<Rightarrow> bytes \<Rightarrow> vote" where
  "ballot E b ps val i ext = \<lparr>vt_Type = PrecommitType E, vt_Height = hd_Height (blk_Header b), vt_Round = 0,
     vt_BlockID = \<lparr>bid_Hash = block_Hash E b, bid_PartSetHeader = ps_Header E ps\<rparr>, vt_Timestamp = hd_Time (blk_Header b),
     vt_ValidatorAddress = val_Address val, vt_ValidatorIndex = int i, vt_Signature = [], vt_Extension = ext,
     vt_ExtensionSignature = []\<rparr>"

lemma ballot_signed:
  assumes "vos = new_vote_set E st (hd_Height (blk_Header b))" "MakePartSet E b (BlockPartSizeBytes E) = Inr ps"
    and "key_of E pv (val_Address val)" "i < length (vs_Validators (st_Validators st))" "val = vs_Validators (st_Validators st) ! i"
    and "SignVote E pv (st_ChainID st) (vote_ToProto E (ballot E b ps val i ext)) = (None, proto)"
    and "\<not> vos_Extended vos \<longrightarrow> ext = []"
    and "v = (ballot E b ps val i ext)\<lparr>vt_Signature := vt_Signature proto,
      vt_ExtensionSignature := (if vos_Extended vos then vt_ExtensionSignature proto else [])\<rparr>"
  shows "valid_vote E vos i v \<and> names_block E b v"
proof -
  have "signed_vote E vos pv v" using assms by (auto simp: signed_vote_def new_vote_set_def ballot_def)
  then show ?thesis using assms by (auto simp: valid_vote_def names_block_def new_vote_set_def ballot_def)
qed

lemma extension_returns:
  assumes A: "live_apps E" and lci: "BuildLastCommitInfo E b vs ih = Return lci"
  shows "wpR (if on then
      bindP (lift_outcome (BuildLastCommitInfo E b vs ih)) (\<lambda>lastCommitInfo.
        bindP (wrap_error ExtendingVoteError (call (CallExtendVote c (process_request E b h lastCommitInfo))
             (app_ExtendVote E c (process_request E b h lastCommitInfo))))
        (\<lambda>ext. ret (ballot E b ps val i ext)))
    else ret (ballot E b ps val i []))
    (\<lambda>v t. core t = core s \<and> (\<exists>ext. v = ballot E b ps val i ext \<and> (\<not> on \<longrightarrow> ext = []))) s"
proof (cases on)
  case True
  show ?thesis unfolding if_P [OF True]
    by (rule wpR_bindP, rule wpR_lift_outcome [OF lci], rule wpR_bindP, rule wpR_wrap_error,
        rule wpR_call [where P = "\<lambda>_. True"]) (use True live_appsD(7) [OF A] in \<open>auto intro!: wpR_ret\<close>)
qed (auto intro!: wpR_ret)

lemma ExtendAndSignVote_returns:
  assumes A: "live_apps E" and L: "live_lib E V" and st: "CurState (client s) = st" "V st" "made_block E st b" "fits E st b"
    and key: "key_of E (acc_PrivValidator app) (val_Address val)"
    and i: "i < length (vs_Validators (st_Validators st))" "val = vs_Validators (st_Validators st) ! i"
    and vos: "vos = new_vote_set E st (hd_Height (blk_Header b))"
  shows "wpR (ExtendAndSignVote E app val (int i) b) (\<lambda>v t. core t = core s \<and> valid_vote E vos i v \<and> names_block E b v) s"
proof -
  obtain ps where ps: "MakePartSet E b (BlockPartSizeBytes E) = Inr ps" using live_libD(3) [OF L st(2,3), of "BlockPartSizeBytes E"] by blast
  obtain lc where lc: "blk_LastCommit b = Some lc" "cm_Round lc = 0" using st(4) by (auto simp: fits_def)
  obtain lci where lci: "BuildLastCommitInfo E b (st_Validators st) (st_InitialHeight st) = Return lci"
    using fits_info [OF L st(4)] by blast
  let ?on = "VoteExtensionsEnabled E (cp_ABCI (st_ConsensusParams st)) (hd_Height (blk_Header b))"
  let ?ballot = "ballot E b ps val i"
  have on: "vos_Extended vos = ?on" by (simp add: vos new_vote_set_def)
  have sign: "\<exists>proto. SignVote E (acc_PrivValidator app) (st_ChainID st) (vote_ToProto E (?ballot ext)) = (None, proto)" for ext
    using live_libD(5) [OF L, of "?ballot ext" "acc_PrivValidator app" "st_ChainID st"]
    by (cases "SignVote E (acc_PrivValidator app) (st_ChainID st) (vote_ToProto E (?ballot ext))") (simp add: ballot_def)
  have signed: "wpR (case SignVote E (acc_PrivValidator app) (st_ChainID st) (vote_ToProto E v) of (err, protoVote) \<Rightarrow>
        (case err of Some e \<Rightarrow> throw (VoteSignatureError (LibError e))
         | None \<Rightarrow> ret (v\<lparr>vt_Signature := vt_Signature protoVote,
             vt_ExtensionSignature := (if ?on then vt_ExtensionSignature protoVote else [])\<rparr>)))
      (\<lambda>v t. core t = core s \<and> valid_vote E vos i v \<and> names_block E b v) t"
    if v: "core t = core s \<and> (\<exists>ext. v = ?ballot ext \<and> (\<not> ?on \<longrightarrow> ext = []))" for v and t :: "'a sys"
  proof -
    obtain ext proto where "v = ?ballot ext" "\<not> ?on \<longrightarrow> ext = []"
        "SignVote E (acc_PrivValidator app) (st_ChainID st) (vote_ToProto E (?ballot ext)) = (None, proto)"
      using v sign by blast
    with ballot_signed [OF vos ps key i this(3)] v show ?thesis by (auto simp: on intro!: wpR_ret)
  qed
  show ?thesis
    unfolding ExtendAndSignVote_def ps lc sum.case option.case Let_def vote.simps block_id.simps
    unfolding ballot_def [symmetric]
    by (rule wpR_bindP, rule wpR_get_client, unfold st(1), rule wpR_bindP,
        rule wpR_mono [OF extension_returns [OF A lci] signed])
qed

lemma enumerate_0D: "iv \<in> set (enumerate 0 xs) \<Longrightarrow> fst iv < length xs \<and> snd iv = xs ! fst iv"
  by (cases iv) (simp add: in_set_enumerate_eq)

lemma sign_votes_return:
  assumes A: "live_apps E" and L: "live_lib E V" and r: "ready E V ms (client s)"
    and b: "made_block E (CurState (client s)) b" "fits E (CurState (client s)) b"
    and vos: "vos = new_vote_set E (CurState (client s)) (hd_Height (blk_Header b))"
  shows "\<exists>votes t. sign_votes E b s = (Return votes, t)
    \<and> list_all2 (vote_ok E (client s) vos b) (enumerate 0 (vs_Validators (st_Validators (CurState (client s))))) votes"
proof -
  let ?vals = "vs_Validators (st_Validators (CurState (client s)))"
  have m: "length ?vals = length ms" "map val_Address ?vals = map fst ms"
    using readyD(7) [OF r] by (auto simp: set_ready_def members_def member_def)
  have "wpR (collect (sign_vote E b) (enumerate 0 ?vals))
      (\<lambda>votes t. core t = core s \<and> list_all2 (vote_ok E (client s) vos b) (enumerate 0 ?vals) votes) s"
  proof (rule wpR_collect, goal_cases)
    case (2 iv u)
    obtain i val where iv: "iv = (i, val)" by fastforce
    have i: "i < length ?vals" "val = ?vals ! i" using enumerate_0D [OF 2(1)] by (simp_all add: iv)
    have u: "client u = client s" using 2(2) by (simp add: core_def)
    have "val_Address val \<in> fst ` set ms" using i m(2) by (metis image_set in_set_conv_nth length_map nth_map)
    then have "registered E (client s) (val_Address val)" using readyD(9) [OF r] by auto
    then obtain up c where st: "signingStatus (client s) (addr_String E (val_Address val)) = Some up"
        and c: "map_of (Clients (client s)) (addr_String E (val_Address val)) = Some c"
          "key_of E (acc_PrivValidator c) (val_Address val)"
      by (auto simp: registered_def)
    have i32: "i32 (int i) = int i" using i(1) m(1) readyD(1) [OF r] by (intro i32_id) simp_all
    have "wpR (ExtendAndSignVote E c val (int i) b) (\<lambda>v t. core t = core u \<and> valid_vote E vos i v \<and> names_block E b v) u"
      by (rule ExtendAndSignVote_returns [OF A L _ readyD(5) [OF r] b c(2) i vos]) (simp add: u)
    then show ?case using st c(1) u 2(2)
      by (cases up) (auto simp: wpR_def sign_vote_def Let_def iv run_bindP run_wrap_error run_GetSigningStatus i32
          vote_ok_def signers_def ret_def)
  qed simp
  then show ?thesis by (auto simp: wpR_def sign_votes_def current_validators_def run_bindP)
qed

lemma verify_extensions_return:
  assumes A: "live_apps E" and r: "ready E V ms (client s)"
  shows "\<exists>t. verify_extensions E b votes s = (Return (), t)"
proof -
  have one: "wpR (verify_extension E app b v) (\<lambda>_ t. core t = core s) u" if "core u = core s" for app v u
  proof -
    have accept: "wpR (call k (app_VerifyVoteExtension E c req)) Q u" if "\<And>t. core t = core s \<Longrightarrow> Q StatusAccept t" for k c req Q
      by (rule wpR_call [where P = "\<lambda>a. a = StatusAccept"]) (simp_all add: live_appsD(8) [OF A] that \<open>core u = core s\<close>)
    show ?thesis using that unfolding verify_extension_def Let_def
      by (auto split: option.split intro!: wpR_ret wpR_bindP wpR_attempt accept)
  qed
  have all: "wpR (foreach (verify_extension E app b) votes) (\<lambda>_ t. core t = core s) u" if "core u = core s" for app u
    using that by (rule wpR_foreach) (rule one)
  have "wpR (foreach (\<lambda>val. bindP (counterparty_of E val) (\<lambda>app. foreach (verify_extension E app b) votes))
      (vs_Validators (st_Validators (CurState (client s))))) (\<lambda>_ t. core t = core s) s"
  proof (rule wpR_foreach, goal_cases)
    case (2 val u)
    then have "ready E V ms (client u)" using r by (simp add: core_def)
    have "val_Address val \<in> fst ` set ms"
      using 2(1) readyD(7) [OF r] by (force simp: set_ready_def members_def member_def)
    then have "wpR (counterparty_of E val) (\<lambda>_ t. core t = core u) u"
      using counterparty_found [OF A \<open>ready E V ms (client u)\<close>] by blast
    then show ?case using 2(2) by (intro wpR_bindP) (erule wpR_mono, auto intro: all)
  qed simp
  then show ?thesis by (auto simp: wpR_def verify_extensions_def current_validators_def run_bindP ret_def)
qed

section \<open>The commit\<close>

lemma valid_vote_votes [simp]: "valid_vote E (vos\<lparr>vos_Votes := x\<rparr>) i v = valid_vote E vos i v"
  by (simp add: valid_vote_def signed_vote_def)

lemma add_votes_return:
  assumes L: "live_lib E V" and "vos_Type vos = PrecommitType E"
    and "list_all2 (\<lambda>iv vote. \<forall>v. vote = Some v \<longrightarrow> valid_vote E vos (fst iv) v) (enumerate n vals) votes"
    and "\<forall>v \<in> set (vos_Votes vos). vt_ValidatorIndex v < int n"
  shows "add_votes E vos votes = Return (vos\<lparr>vos_Votes := vos_Votes vos @ List.map_filter id votes\<rparr>)"
  using assms(2-4)
proof (induction vals arbitrary: n votes vos)
  case (Cons val vals)
  obtain vote rest where v: "votes = vote # rest" "\<forall>v. vote = Some v \<longrightarrow> valid_vote E vos n v"
      "list_all2 (\<lambda>iv vote. \<forall>v. vote = Some v \<longrightarrow> valid_vote E vos (fst iv) v) (enumerate (Suc n) vals) rest"
    using Cons.prems(2) by (auto simp: list_all2_Cons1)
  have below: "\<forall>v \<in> set (vos_Votes vos). vt_ValidatorIndex v < int (Suc n)" using Cons.prems(3) by fastforce
  show ?case
  proof (cases vote)
    case None
    then show ?thesis using Cons.IH [OF Cons.prems(1) v(3) below] v(1) by (simp add: List.map_filter_simps)
  next
    case (Some w)
    then have w: "valid_vote E vos n w" using v(2) by simp
    then have i: "vt_ValidatorIndex w = int n" by (simp add: valid_vote_def)
    have "AddVote E vos w = (True, None)" using live_libD(6) [OF L w Cons.prems(1)] Cons.prems(3) i by fastforce
    moreover have "add_votes E (vos\<lparr>vos_Votes := vos_Votes vos @ [w]\<rparr>) rest
        = Return (vos\<lparr>vos_Votes := (vos_Votes vos @ [w]) @ List.map_filter id rest\<rparr>)"
      using Cons.IH [of "vos\<lparr>vos_Votes := vos_Votes vos @ [w]\<rparr>" "Suc n" rest] Cons.prems(1) v(3) i below
      by (simp add: id_def)
    ultimately show ?thesis using v(1) Some by (simp add: List.map_filter_simps id_def)
  qed
qed (simp add: List.map_filter_simps)

lemma set_votes: "set (List.map_filter id votes) = {v. Some v \<in> set votes}"
  by (induction votes) (auto simp: List.map_filter_simps split: option.splits)

text \<open>The votes there are, with the validators they come from.\<close>

lemma vote_ok_from:
  assumes "list_all2 (vote_ok E a vos b) (enumerate 0 vals) votes" "vals = vs_Validators (vos_Validators vos)"
    and "Some v \<in> set votes"
  obtains i where "i < length vals" "valid_vote E vos i v" "names_block E b v" "val_Address (vals ! i) \<in> signers E a"
    "vt_ValidatorAddress v = val_Address (vals ! i)"
proof -
  obtain i where i: "i < length vals" "votes ! i = Some v"
    using assms(3) list_all2_lengthD [OF assms(1)] by (metis in_set_conv_nth length_enumerate)
  have "vote_ok E a vos b (i, vals ! i) (Some v)"
    using list_all2_nthD [OF assms(1), of i] i by (simp add: nth_enumerate_eq)
  then have v: "valid_vote E vos i v" "names_block E b v" "val_Address (vals ! i) \<in> signers E a"
    by (simp_all add: vote_ok_def split: if_splits)
  have "vt_ValidatorAddress v = val_Address (vals ! i)" using v(1) assms(2) unfolding valid_vote_def by blast
  then show thesis using that i(1) v by blast
qed

lemma vote_ok_to:
  assumes "list_all2 (vote_ok E a vos b) (enumerate 0 vals) votes" "vals = vs_Validators (vos_Validators vos)"
    and "i < length vals" "val_Address (vals ! i) \<in> signers E a"
  obtains v where "Some v \<in> set votes" "vt_ValidatorAddress v = val_Address (vals ! i)"
proof -
  have "vote_ok E a vos b (i, vals ! i) (votes ! i)"
    using list_all2_nthD [OF assms(1), of i] assms(3) by (simp add: nth_enumerate_eq)
  then obtain v where v: "votes ! i = Some v" "valid_vote E vos i v" using assms(4) by (auto simp: vote_ok_def)
  have "vt_ValidatorAddress v = val_Address (vals ! i)" using v(2) assms(2) unfolding valid_vote_def by blast
  moreover have "Some v \<in> set votes"
    using v(1) assms(3) list_all2_lengthD [OF assms(1)] by (metis length_enumerate nth_mem)
  ultimately show thesis using that by blast
qed

lemma voters_are_signers:
  assumes "list_all2 (vote_ok E a vos b) (enumerate 0 vals) votes" "vals = vs_Validators (vos_Validators vos)"
  shows "vt_ValidatorAddress ` set (List.map_filter id votes) = val_Address ` set vals \<inter> signers E a"
    and "\<forall>v \<in> set (List.map_filter id votes). (\<exists>i. valid_vote E vos i v) \<and> names_block E b v"
proof -
  show "\<forall>v \<in> set (List.map_filter id votes). (\<exists>i. valid_vote E vos i v) \<and> names_block E b v"
    unfolding set_votes using vote_ok_from [OF assms] by blast
  show "vt_ValidatorAddress ` set (List.map_filter id votes) = val_Address ` set vals \<inter> signers E a"
    unfolding set_votes
  proof (intro equalityI subsetI)
    fix x assume "x \<in> vt_ValidatorAddress ` {v. Some v \<in> set votes}"
    then obtain v where v: "Some v \<in> set votes" "x = vt_ValidatorAddress v" by blast
    show "x \<in> val_Address ` set vals \<inter> signers E a" by (rule vote_ok_from [OF assms v(1)]) (simp add: v(2))
  next
    fix x assume x: "x \<in> val_Address ` set vals \<inter> signers E a"
    then obtain i where i: "i < length vals" "x = val_Address (vals ! i)" by (auto simp: set_conv_nth)
    show "x \<in> vt_ValidatorAddress ` {v. Some v \<in> set votes}"
      by (rule vote_ok_to [OF assms i(1)]) (use x i(2) in \<open>auto intro!: image_eqI\<close>)
  qed
qed

lemma members_addresses: "val_Address ` set (vs_Validators vs) = fst ` set (members vs)"
  by (force simp: members_def member_def)

lemma make_commit_returns:
  assumes L: "live_lib E V" and r: "ready E V ms (client s)" and b: "made_block E (CurState (client s)) b"
    and vos: "vos = new_vote_set E (CurState (client s)) (hd_Height (blk_Header b))"
    and ok: "list_all2 (vote_ok E (client s) vos b) (enumerate 0 (vs_Validators (st_Validators (CurState (client s))))) votes"
  shows "\<exists>ec. make_commit E b votes s = (Return (), s\<lparr>client := (client s)\<lparr>LastCommit := ec\<rparr>\<rparr>)
    \<and> ec_Height ec = hd_Height (blk_Header b) \<and> ec_Round ec = 0
    \<and> commit_of E (cp_ABCI (st_ConsensusParams (CurState (client s)))) (st_Validators (CurState (client s))) ec"
proof -
  let ?st = "CurState (client s)" and ?votes = "List.map_filter id votes"
  let ?vals = "vs_Validators (st_Validators ?st)"
  let ?vos = "vos\<lparr>vos_Votes := ?votes\<rparr>"
  have f: "vos_Type vos = PrecommitType E" "vos_Votes vos = []" "vos_Validators vos = st_Validators ?st"
      "vos_ChainID vos = st_ChainID ?st" "vos_Height vos = hd_Height (blk_Header b)" "vos_Round vos = 0"
      "vos_Extended vos = VoteExtensionsEnabled E (cp_ABCI (st_ConsensusParams ?st)) (vos_Height vos)"
    by (simp_all add: vos new_vote_set_def)
  have "list_all2 (\<lambda>iv vote. \<forall>v. vote = Some v \<longrightarrow> valid_vote E vos (fst iv) v) (enumerate 0 ?vals) votes"
    using ok by (rule list_all2_mono) (auto simp: vote_ok_def split: if_splits)
  then have add: "add_votes E vos votes = Return ?vos" using add_votes_return [OF L f(1)] f(2) by simp
  note voters = voters_are_signers [OF ok, unfolded f(3), OF refl]
  have ms: "members (st_Validators ?st) = ms" using readyD(7) [OF r] by (simp add: set_ready_def)
  have "filter (\<lambda>m. fst m \<in> vt_ValidatorAddress ` set ?votes) ms = filter (\<lambda>m. fst m \<in> signers E (client s)) ms"
    unfolding voters(1) members_addresses ms by (rule filter_cong) auto
  then have q: "quorum (vt_ValidatorAddress ` set ?votes) (members (st_Validators ?st))"
    using readyD(10) [OF r] by (simp add: quorum_def ms)
  show ?thesis
  proof (rule live_lib_commit [OF L readyD(5) [OF r] b, of ?vos], goal_cases)
    case (8 ec)
    then show ?thesis using add
      by (intro exI [of _ ec]) (simp add: make_commit_def vos [symmetric] f run_bindP run_seqP or_panic_def lift_outcome_def ret_def)
  qed (use f voters(2) q in simp_all)
qed

section \<open>The block is finalized\<close>

lemma UpdateState_rotates:
  assumes L: "live_lib E V" and r: "rsf_ConsensusParamUpdates res = None" and ne: "vs_Validators (st_NextValidators st) \<noteq> []"
    and pw: "power_bounded E (members (st_NextValidators st))"
  shows "\<exists>st' p. UpdateState E st bid h res [] = Return st' \<and> members (st_NextValidators st') = members (st_NextValidators st)
    \<and> vs_Proposer (st_NextValidators st') = Some p \<and> val_Address p \<in> fst ` set (members (st_NextValidators st'))"
proof -
  obtain vs' p where "IncrementProposerPriority E (st_NextValidators st) 1 = Inr vs'" "members vs' = members (st_NextValidators st)"
      "vs_Proposer vs' = Some p" "val_Address p \<in> fst ` set (members vs')"
    using live_libD(10) [OF L ne pw] by blast
  then show ?thesis by (simp add: UpdateState_def r)
qed

lemma SendFinalizeBlock_response:
  assumes A: "live_apps E" and run: "SendFinalizeBlock E b lci s = (Return res, t)"
  shows "length (rsf_TxResults res) = length (blk_Txs b) \<and> rsf_ValidatorUpdates res = [] \<and> rsf_ConsensusParamUpdates res = None"
proof -
  let ?req = "finalize_request E b lci"
  obtain cs v rs where "collect (\<lambda>c :: counterparty. call (CallFinalizeBlock (acc_Client c) ?req)
      (app_FinalizeBlock E (acc_Client c) ?req)) cs v = (Return (res # rs), t)"
    using run unfolding SendFinalizeBlock_def Let_def finalize_request_def [symmetric] broadcast_Return_iff by blast
  then obtain x :: counterparty and y z where
      "call (CallFinalizeBlock (acc_Client x) ?req) (app_FinalizeBlock E (acc_Client x) ?req) y = (Return res, z)"
    by (rule collect_first) blast
  then have "fst (app_FinalizeBlock E (acc_Client x) ?req (world y)) = Inr res" by (rule call_Return)
  then show ?thesis using live_appsD(9) [OF A] by (fastforce simp: finalize_request_def)
qed

lemma store_and_commit_returns:
  assumes A: "live_apps E" and L: "live_lib E V" and clients: "distinct (map fst (Clients (client s)))" "Clients (client s) \<noteq> []"
    and st: "\<not> stateUpdateMutex (Storage (client s))" "vs_Validators (st_NextValidators (CurState (client s))) \<noteq> []"
      "V (CurState (client s))" "made_block E (CurState (client s)) b" "power_bounded E (members (st_NextValidators (CurState (client s))))"
    and res: "length (rsf_TxResults res) = length (blk_Txs b)" "rsf_ValidatorUpdates res = []" "rsf_ConsensusParamUpdates res = None"
  shows "\<exists>t. store_and_commit E h b res s = (Return (), t)"
proof -
  define u where "u = s\<lparr>client := (client s)\<lparr>LastBlock := b,
    Storage := stored h b (ec_ToCommit E (LastCommit (client s))) (CurState (client s)) res
      ((Storage (client s))\<lparr>stateUpdateMutex := True\<rparr>)\<rparr>\<rparr>"
  obtain ps where "MakePartSet E b 2 = Inr ps" using live_libD(3) [OF L st(3,4), of 2] by blast
  then obtain bid where bid: "GetBlockIdFromBlock E b = Return bid" by (simp add: GetBlockIdFromBlock_def)
  obtain st' where upd: "UpdateState E (CurState (client s)) bid (blk_Header b) res [] = Return st'"
    using UpdateState_rotates [OF L res(3) st(2,5)] by blast
  define v where "v = u\<lparr>client := (client u)\<lparr>CurState := st'\<rparr>, published := published u @ block_events b bid res []\<rparr>"
  have v: "UpdateStateFromBlock E bid b res u = (Return (), v)"
    using res upd by (simp add: UpdateStateFromBlock_def live_libD(9) [OF L] run_bindP run_seqP run_wrap_error run_fireEvents
        lift_outcome_def u_def v_def)
  define w where "w = v\<lparr>client := (client v)\<lparr>Storage := (Storage (client v))\<lparr>stateUpdateMutex := False\<rparr>\<rparr>\<rparr>"
  obtain x y where "SendCommit E w = (Return x, y)"
    using sends_return(3) [OF A, of w] clients by (auto simp: w_def v_def u_def)
  moreover have "stateUpdateMutex (Storage (client v))" by (simp add: v_def u_def)
  ultimately show ?thesis using st(1) bid v [unfolded u_def stored_def, simplified]
    by (simp add: store_and_commit_def run_seqP run_bindP run_in_storage run_locks run_wrap_error run_UpdateStores
        upd_state_def lift_outcome_def w_def [symmetric])
qed

lemma finalize_returns:
  assumes A: "live_apps E" and L: "live_lib E V" and r: "ready E V ms (client s0)"
    and b: "made_block E (CurState (client s0)) b" "fits E (CurState (client s0)) b"
    and s: "client s = (client s0)\<lparr>LastCommit := ec\<rparr>"
  obtains res bid st p t where "finalize_and_commit E h b s = (Return (), t)" "GetBlockIdFromBlock E b = Return bid"
    "rsf_ConsensusParamUpdates res = None" "UpdateState E (CurState (client s0)) bid (blk_Header b) res [] = Return st"
    "members (st_NextValidators st) = ms" "vs_Proposer (st_NextValidators st) = Some p" "val_Address p \<in> fst ` set ms"
    "client t = finalized E h b res st (client s)"
proof -
  let ?st = "CurState (client s0)"
  have next_ms: "members (st_NextValidators ?st) = ms" using readyD(8) [OF r] by (simp add: set_ready_def)
  then have ne: "vs_Validators (st_NextValidators ?st) \<noteq> []"
    using quorum_not_Nil [OF readyD(10) [OF r]] by (auto simp: members_def)
  have pw: "power_bounded E (members (st_NextValidators ?st))" using readyD(15) [OF r] by (simp add: next_ms)
  have c: "distinct (map fst (Clients (client s)))" "Clients (client s) \<noteq> []"
    using readyD(2) [OF r] ready_clients [OF r] by (simp_all add: s)
  obtain lci where lci: "BuildLastCommitInfo E b (st_Validators ?st) (st_InitialHeight ?st) = Return lci"
    using fits_info [OF L b(2)] by blast
  obtain res u where fin: "SendFinalizeBlock E b lci s = (Return res, u)" using sends_return(2) [OF A c] by blast
  have u: "client u = client s" using fin by (rule finalize_call.client_unchanged)
  note res = SendFinalizeBlock_response [OF A fin]
  obtain t where t: "store_and_commit E h b res u = (Return (), t)"
    using store_and_commit_returns [OF A L, of u b res h] c readyD(4,5) [OF r] ne pw b(1) res by (auto simp: u s)
  have run: "finalize_and_commit E h b s = (Return (), t)"
    using lci fin t by (simp add: finalize_and_commit_def s run_bindP run_wrap_error lift_outcome_def)
  show thesis
    using t
  proof (rule store_and_commit_Return, goal_cases)
    case (1 bid ups st v x w)
    have "ups = []" using 1(3) res live_libD(9) [OF L] by simp
    then have up: "UpdateState E ?st bid (blk_Header b) res [] = Return st" using 1(5) by (simp add: u s)
    then obtain p where "members (st_NextValidators st) = members (st_NextValidators ?st)" "vs_Proposer (st_NextValidators st) = Some p"
        "val_Address p \<in> fst ` set (members (st_NextValidators st))"
      using UpdateState_rotates [OF L _ ne pw, of res bid "blk_Header b"] res by fastforce
    then show thesis using that [OF run 1(2) _ up] res 1(11) next_ms by (simp add: core_def u)
  qed
qed

lemma finalized_ready:
  assumes L: "live_lib E V" and r: "ready E V ms a" and b: "made_block E (CurState a) b" "fits E (CurState a) b"
    and up: "GetBlockIdFromBlock E b = Return bid" "rsf_ConsensusParamUpdates res = None"
      "UpdateState E (CurState a) bid (blk_Header b) res [] = Return st"
      "members (st_NextValidators st) = ms" "vs_Proposer (st_NextValidators st) = Some p" "val_Address p \<in> fst ` set ms"
    and ec: "ec_Height ec = hd_Height (blk_Header b)" "ec_Round ec = 0"
      "commit_of E (cp_ABCI (st_ConsensusParams (CurState a))) (st_Validators (CurState a)) ec"
  shows "ready E V ms (finalized E h b res st (a\<lparr>LastCommit := ec\<rparr>))"
proof -
  note st = UpdateState_Return [OF up(3)]
  have V: "V (st\<lparr>st_AppHash := rsf_AppHash res\<rparr>)"
    by (rule live_libD(4) [OF L readyD(5) [OF r] b(1) up(1,2,3)])
  have h: "hd_Height (blk_Header b) = st_LastBlockHeight (CurState a) + 1" using b(2) by (simp add: fits_def)
  have "set_ready ms (st_NextValidators st)" using up(4-6) by (simp add: set_ready_def)
  then show ?thesis
    using readyD [OF r] V st(2,3,6,7) st(12) [OF up(2)] ec h
    by (auto simp: ready_def finalized_def registered_def signers_def)
qed

lemma finalize_and_commit_ready:
  assumes A: "live_apps E" and L: "live_lib E V" and r: "ready E V ms (client s0)"
    and b: "made_block E (CurState (client s0)) b" "fits E (CurState (client s0)) b"
    and s: "client s = (client s0)\<lparr>LastCommit := ec\<rparr>"
    and ec: "ec_Height ec = hd_Height (blk_Header b)" "ec_Round ec = 0"
      "commit_of E (cp_ABCI (st_ConsensusParams (CurState (client s0)))) (st_Validators (CurState (client s0))) ec"
  shows "\<exists>t. finalize_and_commit E h b s = (Return (), t) \<and> ready E V ms (client t)
    \<and> st_LastBlockHeight (CurState (client t)) = st_LastBlockHeight (CurState (client s0)) + 1"
proof (rule finalize_returns [OF A L r b s, of h], goal_cases)
  case (1 res bid st p t)
  have "ready E V ms (client t)"
    unfolding 1(8) s by (rule finalized_ready [OF L r b 1(2-7) ec])
  moreover have "st_LastBlockHeight (CurState (client t)) = st_LastBlockHeight (CurState (client s0)) + 1"
    using UpdateState_Return(3) [OF 1(4)] b(2) by (simp add: 1(8) finalized_def fits_def)
  ultimately show ?case using 1(1) by blast
qed

section \<open>The whole block\<close>

lemma made_block_proposed:
  assumes L: "live_lib E V" and r: "ready E V ms (client s)"
    and run: "propose_block E app (Some v) t txs evs s = (Return b, u)"
  shows "proposed E t v (client s) b"
proof -
  obtain prp b0 w where d: "decideProposal E app v (i64 (st_LastBlockHeight (CurState (client s)) + 1)) 0 txs evs s
      = (Return (prp, b0), w)" "b = b0\<lparr>blk_Header := (blk_Header b0)\<lparr>hd_Time := t\<rparr>\<rparr>"
    using run by (auto elim: propose_block_Return)
  then show ?thesis using decideProposal_block [OF live_libD(1) [OF L] d(1)] by (simp add: proposed_def)
qed

lemma helper_returns:
  assumes A: "live_apps E" and L: "live_lib E V" and r: "ready E V ms (client s)" and v: "val_Address v \<in> fst ` set ms"
    and h: "st_LastBlockHeight (CurState (client s)) + 1 < 2 ^ 63"
  shows "\<exists>s'. runBlock_helper E t (Some v) [] s = (Return (), s') \<and> ready E V ms (client s')
    \<and> st_LastBlockHeight (CurState (client s')) = st_LastBlockHeight (CurState (client s)) + 1"
proof -
  let ?st = "CurState (client s)" and ?H = "i64 (st_LastBlockHeight (CurState (client s)) + 1)"
  obtain s1 where s1: "check_fresh_txs E s = (Return (), s1)" using check_txs_return(1) [OF A r] by blast
  have f1: "frame s1 = frame s" using s1 by (rule phase_frames)
  obtain s2 where s2: "check_stale_txs E s1 = (Return (), s2)"
    using check_txs_return(2) [OF A, of V ms s1] ready_frame [OF f1] r by blast
  have f2: "frame s2 = frame s" using phase_frames(2) [OF s2] f1 by simp
  obtain app s4 where s4: "find_proposer_app E (val_Address v) s2 = (Return app, s4)"
    using client_found(2) [OF A _ v, of V s2] ready_frame [OF f2] r by blast
  have f4: "frame s4 = frame s" using phase_frames(4) [OF s4] f2 by simp
  note e4 = frameD [OF f4] and r4 = ready_frame [OF f4, THEN iffD2, OF r]
  obtain b s5 where s5: "propose_block E app (Some v) t (non_empty_txs (client s2)) [] s4 = (Return b, s5)"
      and b: "made_block E ?st b"
    using propose_block_returns [OF A L r4 v, where app = app and t = t and txs = "non_empty_txs (client s2)"] h
    by (auto simp: e4)
  have fit: "fits E ?st b" using proposed_fits [OF L r4 made_block_proposed [OF L r4 s5]] h by (simp add: e4)
  have f5: "frame s5 = frame s" using phase_frames(5) [OF s5] f4 by simp
  note e5 = frameD [OF f5] and r5 = ready_frame [OF f5, THEN iffD2, OF r]
  obtain nps s6 where s6: "find_non_proposers E (val_Address v) s5 = (Return nps, s6)"
    using find_non_proposers_returns [OF A r5] by blast
  have c6: "client s6 = client s5" using phase_cores(2) [OF s6] by (rule coreD)
  obtain s7 where s7: "process_proposals E nps b s6 = (Return (), s7)"
    using process_proposals_returns [OF A L, of s6 b nps] fit by (auto simp: c6 e5)
  have c7: "client s7 = client s5" using coreD(1) [OF phase_cores(3) [OF s7]] c6 by simp
  let ?vos = "new_vote_set E ?st (hd_Height (blk_Header b))"
  obtain votes s8 where s8: "sign_votes E b s7 = (Return votes, s8)"
      and ok: "list_all2 (vote_ok E (client s5) ?vos b) (enumerate 0 (vs_Validators (st_Validators ?st))) votes"
    using sign_votes_return [OF A L, of ms s7 b] r5 b fit by (auto simp: c7 e5)
  have c8: "client s8 = client s5" using coreD(1) [OF phase_cores(4) [OF s8]] c7 by simp
  obtain s9 where s9: "verify_extensions E b votes s8 = (Return (), s9)"
    using verify_extensions_return [OF A, of V ms s8 b votes] r5 by (auto simp: c8)
  have c9: "client s9 = client s5" using coreD(1) [OF phase_cores(5) [OF s9]] c8 by simp
  obtain ec where s10: "make_commit E b votes s9 = (Return (), s9\<lparr>client := (client s9)\<lparr>LastCommit := ec\<rparr>\<rparr>)"
      and ec: "ec_Height ec = hd_Height (blk_Header b)" "ec_Round ec = 0"
        "commit_of E (cp_ABCI (st_ConsensusParams ?st)) (st_Validators ?st) ec"
    using make_commit_returns [OF L, of ms s9 b ?vos votes] r5 b ok by (auto simp: c9 e5)
  obtain s' where s': "finalize_and_commit E ?H b (s9\<lparr>client := (client s9)\<lparr>LastCommit := ec\<rparr>\<rparr>) = (Return (), s')"
      "ready E V ms (client s')" "st_LastBlockHeight (CurState (client s')) = st_LastBlockHeight ?st + 1"
    using finalize_and_commit_ready [OF A L r5, of b "s9\<lparr>client := (client s9)\<lparr>LastCommit := ec\<rparr>\<rparr>" ec ?H] b fit ec
    by (auto simp: c9 e5)
  have "runBlock_helper E t (Some v) [] s = (Return (), s')"
    using s1 s2 s4 s5 s6 s7 s8 s9 s10 s'(1)
    by (simp add: runBlock_helper_def run_bindP run_seqP collect_evidence_def ret_def Let_def)
  then show ?thesis using s'(2,3) by blast
qed

lemma block_returns:
  assumes "live_apps E" "live_lib E V" "ready E V ms (client s)" "\<not> blockMutex s" "val_Address v \<in> fst ` set ms"
    "st_LastBlockHeight (CurState (client s)) + 1 < 2 ^ 63"
  shows "\<exists>s'. RunBlockWithTimeAndProposer E t (Some v) [] s = (Return (), s') \<and> ready E V ms (client s') \<and> \<not> blockMutex s'
    \<and> st_LastBlockHeight (CurState (client s')) = st_LastBlockHeight (CurState (client s)) + 1"
proof -
  obtain u where "runBlock_helper E t (Some v) [] (s\<lparr>blockMutex := True\<rparr>) = (Return (), u)" "ready E V ms (client u)"
      "st_LastBlockHeight (CurState (client u)) = st_LastBlockHeight (CurState (client s)) + 1"
    using helper_returns [OF assms(1,2), of ms "s\<lparr>blockMutex := True\<rparr>" v t] assms(3,5,6) by auto
  then show ?thesis using assms(4) by (intro exI [of _ "u\<lparr>blockMutex := False\<rparr>"]) (auto simp: RunBlock_Return_iff)
qed

lemma ready_TimeHandler: "ready E V ms (a\<lparr>TimeHandler := th\<rparr>) = ready E V ms a"
  by (simp add: ready_def registered_def signers_def)

lemma RunBlock_returns:
  assumes A: "live_apps E" and L: "live_lib E V" and r: "ready E V ms (client s)" and m: "\<not> blockMutex s"
    and h: "st_LastBlockHeight (CurState (client s)) + 1 < 2 ^ 63"
  shows "\<exists>s'. RunBlock E s = (Return (), s') \<and> ready E V ms (client s') \<and> \<not> blockMutex s'
    \<and> st_LastBlockHeight (CurState (client s')) = st_LastBlockHeight (CurState (client s)) + 1"
proof -
  obtain v where v: "vs_Proposer (st_LastValidators (CurState (client s))) = Some v" "val_Address v \<in> fst ` set ms"
    using readyD(6) [OF r] by (auto simp: set_ready_def)
  obtain tm th u where u: "GetBlockTime E (hd_Time (blk_Header (LastBlock (client s)))) s = (Return tm, u)"
      "client u = (client s)\<lparr>TimeHandler := th\<rparr>" "blockMutex u = blockMutex s"
    by (rule GetBlockTime_run)
  have "ready E V ms (client u)"
    using r by (simp only: u(2) ready_TimeHandler)
  then obtain s' where "RunBlockWithTimeAndProposer E tm (Some v) [] u = (Return (), s')" "ready E V ms (client s')"
      "\<not> blockMutex s'" "st_LastBlockHeight (CurState (client s')) = st_LastBlockHeight (CurState (client s)) + 1"
    using block_returns [OF A L, of ms u v tm] m h v(2) u by auto
  then show ?thesis using u v(1) by (simp add: RunBlock_def last_proposer_def run_bindP)
qed

lemma RunBlocks_return:
  assumes "live_apps E" "live_lib E V"
  shows "ready E V ms (client s) \<Longrightarrow> \<not> blockMutex s \<Longrightarrow>
    st_LastBlockHeight (CurState (client s)) + int (length xs) < 2 ^ 63 \<Longrightarrow>
    \<exists>s'. foreach (\<lambda>_. RunBlock E) xs s = (Return (), s') \<and> foreach (\<lambda>_. fatal (RunBlock E)) xs s = (Return (), s')
      \<and> ready E V ms (client s') \<and> \<not> blockMutex s'
      \<and> st_LastBlockHeight (CurState (client s')) = st_LastBlockHeight (CurState (client s)) + int (length xs)"
proof (induction xs arbitrary: s)
  case (Cons x xs)
  obtain u where u: "RunBlock E s = (Return (), u)" "ready E V ms (client u)" "\<not> blockMutex u"
      "st_LastBlockHeight (CurState (client u)) = st_LastBlockHeight (CurState (client s)) + 1"
    using RunBlock_returns [OF assms Cons.prems(1,2)] Cons.prems(3) by auto
  then have "fatal (RunBlock E) s = (Return (), u)" by (simp add: fatal_Return_iff)
  then show ?case using Cons.IH [OF u(2,3)] Cons.prems(3) u by (auto simp: run_seqP)
qed (simp add: ret_def)

section \<open>Properties\<close>

text \<open>
  Claim C7. Blocks keep coming. With applications that answer, agree, accept and never change validators or parameters, and a library that behaves as documented, in a state that
  is ready (open store, all validators registered, those who sign holding more than two thirds of the voting power): any number
  of blocks is produced, whatever transactions are queued; none of them fails, panics or waits, neither for \<open>RunEmptyBlocks\<close> nor in the
  loop of \<open>main\<close>; the chain is that many blocks longer, and the state is ready again, with no lock held.
\<close>

theorem blocks_keep_coming:
  assumes "live_apps E" "live_lib E V" "ready E V ms (client s)" "\<not> blockMutex s"
    and "st_LastBlockHeight (CurState (client s)) + int n < 2 ^ 63" and "0 < fl_block_production_interval F"
  shows "\<exists>s'. RunEmptyBlocks E (int n) s = (Return (), s') \<and> main_produce E F n s = (Return (), s')
    \<and> st_LastBlockHeight (CurState (client s')) = st_LastBlockHeight (CurState (client s)) + int n
    \<and> ready E V ms (client s') \<and> \<not> blockMutex s'"
  using RunBlocks_return [OF assms(1-4), of "[0..<n]"] assms(5,6) by (auto simp: RunEmptyBlocks_def main_produce_def)

theorem blocks_keep_coming_witness:
  "\<exists>s'. RunEmptyBlocks sample_env 1000 sample_sys = (Return (), s') \<and> main_produce sample_env sample_flags 1000 sample_sys = (Return (), s')
    \<and> st_LastBlockHeight (CurState (client s')) = 1000"
proof -
  have "\<not> blockMutex sample_sys" "st_LastBlockHeight (CurState (client sample_sys)) + int 1000 < 2 ^ 63"
    "0 < fl_block_production_interval sample_flags" "st_LastBlockHeight (CurState (client sample_sys)) = 0"
    by (simp_all add: sample_sys_def sample_state_def sample_flags_def)
  then show ?thesis using blocks_keep_coming [OF sample_live_apps sample_live_lib sample_ready, of 1000 sample_flags] by auto
qed

end
