(* ===== verification/Start_Progress.thy ===== *)
theory Start_Progress
  imports Progress
begin

text \<open>
  From the command line to a chain that keeps growing: with files that can be read, applications that answer InitChain with
  validators whose keys are in the node homes, and a library that behaves as documented, the start of \<open>main.go\<close> returns and
  the state it ends in is ready in the sense of theory \<open>Live_Env\<close>.
\<close>

section \<open>Hypotheses\<close>

text \<open>
  The arguments name files that can be read: one node home at least for every application address, a key in every node home,
  and a genesis file. \<open>pvs\<close> are the private validators of the applications, in the order of their addresses.
\<close>

definition key_file :: "'w env \<Rightarrow> loader \<Rightarrow> string \<Rightarrow> string \<Rightarrow> bool" where
  "key_file E L home pv \<longleftrightarrow> (\<exists>key pk. LoadFilePV L (home @ ''/config/priv_validator_key.json'')
     (home @ ''/data/priv_validator_state.json'') = Inr key \<and> pv = NewMockPVWithParams L key \<and> pv_GetPubKey E pv = Inr pk)"

definition arguments_ok ::
    "'w env \<Rightarrow> loader \<Rightarrow> string list \<Rightarrow> string list \<Rightarrow> genesis_doc \<Rightarrow> comet_state \<Rightarrow> bool" where
  "arguments_ok E L args pvs doc st \<longleftrightarrow> (\<exists>a0 gf la nh mode rest g more. args = a0 # gf # la # nh # mode # rest
     \<and> mode \<in> {''socket'', ''grpc''} \<and> list_all2 (key_file E L) (split_comma nh) (pvs @ more)
     \<and> length pvs = length (split_comma a0)
     \<and> AppGenesisFromFile L gf = Inr g \<and> ToGenesisDoc L (Some g) = Return doc \<and> MakeGenesisState L doc = Inr st)"

text \<open>
  Documented behaviour of the library: the services start, addresses are printed without loss, a set can be made of validators with
  different addresses and positive power, if their total power is not above the library's maximum, and has a proposer, and so
  has its copy with another priority.
\<close>

definition live_valsets :: "'w env \<Rightarrow> bool" where
  "live_valsets E \<longleftrightarrow>
     (\<forall>vals. vals \<noteq> [] \<and> distinct (map val_Address vals) \<and> (\<forall>v \<in> set vals. 0 < val_VotingPower v)
          \<and> power_bounded E (map member vals) \<longrightarrow>
        (\<exists>vs. NewValidatorSet E vals = Inr vs \<and> set_ready (members vs) vs \<and> mset (members vs) = mset (map member vals)))
     \<and> (\<forall>vs. vs_Validators vs \<noteq> [] \<and> power_bounded E (members vs) \<longrightarrow> (\<exists>vs'. CopyIncrementProposerPriority E vs 1 = Inr vs' \<and> set_ready (members vs) vs'))"

definition live_services :: "'w env \<Rightarrow> bool" where
  "live_services E \<longleftrightarrow> EventBus_Start E = None \<and> IndexerService_Start E = None \<and> inj (addr_String E)"

text \<open>
  The genesis is of height 1, and the applications answer its InitChain request, all the same, with validators
  of positive power, in total not above the library's maximum, whose keys are among \<open>pvs\<close>; the state they make of the genesis state is valid.
\<close>

definition live_init ::
    "'w env \<Rightarrow> (comet_state \<Rightarrow> bool) \<Rightarrow> string list \<Rightarrow> genesis_doc \<Rightarrow> comet_state \<Rightarrow> bool" where
  "live_init E V pvs doc st \<longleftrightarrow> st_LastBlockHeight st = 0 \<and> st_InitialHeight st = 1
     \<and> (\<exists>req. CreateInitChainRequest E st doc = Return req \<and> agreeing (\<lambda>c. app_InitChain E c req)
        \<and> (\<forall>c w res. fst (app_InitChain E c req w) = Inr res \<longrightarrow>
            (\<exists>vals. rsi_Validators res \<noteq> [] \<and> PB2TM_ValidatorUpdates E (rsi_Validators res) = Inr vals \<and> vals \<noteq> []
               \<and> distinct (map val_Address vals) \<and> int (length vals) < 2 ^ 31 \<and> power_bounded E (map member vals)
               \<and> (\<forall>v \<in> set vals. 0 < val_VotingPower v \<and> (\<exists>pv \<in> set pvs. key_of E pv (val_Address v))))
            \<and> (\<forall>s t. CurState (client s) = st \<and> UpdateStateFromInit E res s = (Return (), t) \<longrightarrow> V (CurState (client t)))))"

section \<open>The set-up\<close>

lemma pvs_return: "list_all2 (key_file E L) homes pvs \<Longrightarrow> GetMockPVsFromNodeHomes L homes = Return pvs"
  by (induction homes pvs rule: list_all2_induct) (auto simp: key_file_def)

lemma genesis_returns:
  "AppGenesisFromFile L gf = Inr g \<Longrightarrow> ToGenesisDoc L (Some g) = Return doc \<Longrightarrow> MakeGenesisState L doc = Inr st \<Longrightarrow>
    read_genesis L gf = Return (doc, st)"
  by (simp add: read_genesis_def)

text \<open>Every entry is a client under the address of its own key.\<close>

definition key_addressed :: "'w env \<Rightarrow> (string \<times> counterparty) list \<Rightarrow> bool" where
  "key_addressed E m \<longleftrightarrow> (\<forall>(k, c) \<in> set m. \<exists>pk. pv_GetPubKey E (acc_PrivValidator c) = Inr pk \<and> k = addr_String E (pk_Address E pk))"

lemma key_addressed_update:
  assumes "key_addressed E m" "pv_GetPubKey E (acc_PrivValidator c) = Inr pk" "k = addr_String E (pk_Address E pk)"
  shows "key_addressed E (AList.update k c m)"
proof -
  have "set (AList.update k c m) \<subseteq> insert (k, c) (set m)" by (induction m) auto
  then show ?thesis using assms unfolding key_addressed_def by fast
qed

lemma connect_clients_returns:
  assumes "i + length addrs \<le> length pvs" "\<forall>pv \<in> set pvs. \<exists>pk. pv_GetPubKey E pv = Inr pk" "key_addressed E m"
  shows "\<exists>cs. connect_clients E L mode pvs i addrs m = Return cs \<and> key_addressed E cs
    \<and> dom (map_of m) \<subseteq> dom (map_of cs)
    \<and> (\<forall>j < length addrs. \<forall>pk. pv_GetPubKey E (pvs ! (i + j)) = Inr pk \<longrightarrow> addr_String E (pk_Address E pk) \<in> dom (map_of cs))"
  using assms(1,3)
proof (induction addrs arbitrary: i m)
  case Nil
  then show ?case by simp
next
  case (Cons a addrs)
  have i: "i < length pvs" using Cons.prems(1) by simp
  then obtain pk where pk: "pv_GetPubKey E (pvs ! i) = Inr pk" using assms(2) nth_mem by blast
  let ?k = "addr_String E (pk_Address E pk)"
  let ?m = "AList.update ?k (NewAbciCounterpartyClient (NewClient L mode a) a ?k (pvs ! i)) m"
  have "key_addressed E ?m"
    by (rule key_addressed_update [OF Cons.prems(2)]) (simp_all add: NewAbciCounterpartyClient_def pk)
  then obtain cs where cs: "connect_clients E L mode pvs (Suc i) addrs ?m = Return cs" "key_addressed E cs"
      "dom (map_of ?m) \<subseteq> dom (map_of cs)"
      "\<forall>j < length addrs. \<forall>pk. pv_GetPubKey E (pvs ! (Suc i + j)) = Inr pk \<longrightarrow> addr_String E (pk_Address E pk) \<in> dom (map_of cs)"
    using Cons.IH [of "Suc i" ?m] Cons.prems(1) by auto
  have d: "insert ?k (dom (map_of m)) \<subseteq> dom (map_of cs)" using cs(3) by (simp add: update_conv')
  have "addr_String E (pk_Address E q) \<in> dom (map_of cs)"
    if "j < length (a # addrs)" "pv_GetPubKey E (pvs ! (i + j)) = Inr q" for j q
    using that d pk cs(4) by (cases j) auto
  then show ?case using cs(1,2) d i pk by (simp add: Let_def)
qed

text \<open>A private validator of the command line is found under the address of its key.\<close>

lemma key_found:
  assumes "key_addressed E cs" "inj (addr_String E)" "addr_String E x \<in> dom (map_of cs)"
  shows "\<exists>c. map_of cs (addr_String E x) = Some c \<and> key_of E (acc_PrivValidator c) x"
proof -
  obtain c where c: "map_of cs (addr_String E x) = Some c" using assms(3) by blast
  then obtain pk where "pv_GetPubKey E (acc_PrivValidator c) = Inr pk" "addr_String E x = addr_String E (pk_Address E pk)"
    using assms(1) map_of_SomeD [OF c] unfolding key_addressed_def by fastforce
  then show ?thesis using c assms(2) by (auto simp: key_of_def inj_eq)
qed

lemma arguments_keys:
  assumes "arguments_ok E L args pvs doc st"
  shows "pvs \<noteq> []" "\<forall>pv \<in> set pvs. \<exists>pk. pv_GetPubKey E pv = Inr pk"
proof -
  obtain a0 nh more where a: "list_all2 (key_file E L) (split_comma nh) (pvs @ more)" "length pvs = length (split_comma a0)"
    using assms unfolding arguments_ok_def by blast
  show "pvs \<noteq> []" using a(2) split_comma_not_Nil [of a0] by auto
  have "\<forall>pv \<in> set (pvs @ more). \<exists>home. key_file E L home pv" using a(1) by (metis in_set_conv_nth list_all2_conv_all_nth)
  then show "\<forall>pv \<in> set pvs. \<exists>pk. pv_GetPubKey E pv = Inr pk" by (auto simp: key_file_def)
qed

lemma main_setup_returns:
  assumes "arguments_ok E L args pvs doc st" "live_services E"
  obtains d w' where "main_setup E L F args w = (Return d, w')" "sd_state d = st" "sd_genesis d = doc"
    "CurState (sd_client d) = st" "key_addressed E (Clients (sd_client d))"
    "\<forall>pv \<in> set pvs. \<forall>pk. pv_GetPubKey E pv = Inr pk \<longrightarrow> addr_String E (pk_Address E pk) \<in> dom (map_of (Clients (sd_client d)))"
proof -
  obtain a0 gf la nh mode rest g more where a: "args = a0 # gf # la # nh # mode # rest" "mode \<in> {''socket'', ''grpc''}"
      "list_all2 (key_file E L) (split_comma nh) (pvs @ more)" "length pvs = length (split_comma a0)"
      "AppGenesisFromFile L gf = Inr g" "ToGenesisDoc L (Some g) = Return doc" "MakeGenesisState L doc = Inr st"
    using assms(1) unfolding arguments_ok_def by blast
  have "\<forall>pv \<in> set (pvs @ more). \<exists>home. key_file E L home pv" using a(3) by (metis in_set_conv_nth list_all2_conv_all_nth)
  then have "\<forall>pv \<in> set (pvs @ more). \<exists>pk. pv_GetPubKey E pv = Inr pk" by (auto simp: key_file_def)
  then obtain cs where cs: "connect_clients E L mode (pvs @ more) 0 (split_comma a0) [] = Return cs" "key_addressed E cs"
      "\<forall>j < length pvs. \<forall>pk. pv_GetPubKey E (pvs ! j) = Inr pk \<longrightarrow> addr_String E (pk_Address E pk) \<in> dom (map_of cs)"
    using connect_clients_returns [of 0 "split_comma a0" "pvs @ more" E "[]" L mode] a(4)
    by (auto simp: key_addressed_def nth_append)
  have "\<exists>t w1. starting_time E F doc w = (Return t, w1)"
    by (simp add: starting_time_def now_def ret_def split: prod.split)
  then obtain t w1 where t: "starting_time E F doc w = (Return t, w1)" by blast
  let ?bt = "i64 (fl_block_time F * nano_millisecond)"
  have "\<exists>th w2. new_time_handler E t ?bt w1 = (Return th, w2)"
    by (cases "time_Now E w1") (simp add: new_time_handler_def now_def run_bindP)
  then obtain th w2 where th: "new_time_handler E t ?bt w1 = (Return th, w2)" by blast
  obtain a where na: "NewAbciClient E cs st zero_block zero_ext_commit empty_MapStorage th True = Return a"
      "Clients a = cs" "CurState a = st"
    using assms(2) by (auto simp: NewAbciClient_def live_services_def)
  let ?d = "\<lparr>sd_client = a\<lparr>AutoIncludeTx := fl_auto_tx F\<rparr>, sd_state = st, sd_genesis = doc, sd_starting_time = t, sd_block_time = ?bt\<rparr>"
  have "main_setup E L F args w = (Return ?d, w2)"
    using a(2) pvs_return [OF a(3)] genesis_returns [OF a(5-7)] t cs(1) th na(1)
    by (auto simp: main_setup_def a(1) Let_def run_bindP lift_outcome_def ret_def)
  moreover have "\<forall>pv \<in> set pvs. \<forall>pk. pv_GetPubKey E pv = Inr pk \<longrightarrow> addr_String E (pk_Address E pk) \<in> dom (map_of cs)"
    using cs(3) by (metis in_set_conv_nth)
  ultimately show thesis using that [of ?d w2] cs(2) na(2,3) by simp
qed

section \<open>InitChain\<close>

lemma power_bounded_perm: "mset ms = mset ms' \<Longrightarrow> power_bounded E ms = power_bounded E ms'"
proof -
  assume "mset ms = mset ms'"
  then have "mset (map snd ms) = mset (map snd ms')" by simp
  then have "sum_list (map snd ms) = sum_list (map snd ms')" by (metis sum_mset_sum_list)
  then show ?thesis by (simp add: power_bounded_def)
qed

lemma UpdateStateFromInit_returns:
  assumes L: "live_valsets E" and v: "rsi_Validators res \<noteq> []" "PB2TM_ValidatorUpdates E (rsi_Validators res) = Inr vals" "vals \<noteq> []"
    "distinct (map val_Address vals)" "\<forall>v \<in> set vals. 0 < val_VotingPower v" "power_bounded E (map member vals)"
  obtains t st ms where "UpdateStateFromInit E res s = (Return (), t)" "t = s\<lparr>client := (client s)\<lparr>CurState := st\<rparr>\<rparr>"
    "from_init (CurState (client s)) st" "mset ms = mset (map member vals)"
    "set_ready ms (st_LastValidators st)" "set_ready ms (st_Validators st)" "set_ready ms (st_NextValidators st)"
proof -
  obtain vs where vs: "NewValidatorSet E vals = Inr vs" "set_ready (members vs) vs" "mset (members vs) = mset (map member vals)"
    using L v(3-6) unfolding live_valsets_def by blast
  have pw: "power_bounded E (members vs)" using power_bounded_perm [OF vs(3), of E] v(6) by simp
  have "members vs \<noteq> []" using vs(3) v(3) by (metis list.map_disc_iff mset_zero_iff)
  then have "vs_Validators vs \<noteq> []" by (auto simp: members_def)
  then obtain nxt where nxt: "CopyIncrementProposerPriority E vs 1 = Inr nxt" "set_ready (members vs) nxt"
    using L pw unfolding live_valsets_def by blast
  define st where "st = (let st0 = (if rsi_AppHash res \<noteq> [] then (CurState (client s))\<lparr>st_AppHash := rsi_AppHash res\<rparr> else CurState (client s));
      st1 = st0\<lparr>st_LastValidators := vs, st_Validators := vs, st_NextValidators := nxt\<rparr>;
      st2 = (case rsi_ConsensusParams res of None \<Rightarrow> st1 | Some u \<Rightarrow> st1\<lparr>st_ConsensusParams := cp_Update E (st_ConsensusParams st1) u,
        st_Version := (st_Version st1)\<lparr>ver_ConsensusApp := cp_VersionApp (cp_Update E (st_ConsensusParams st1) u)\<rparr>\<rparr>)
    in st2\<lparr>st_LastResultsHash := HashFromByteSlices_nil E\<rparr>)"
  have "UpdateStateFromInit E res s = (Return (), s\<lparr>client := (client s)\<lparr>CurState := st\<rparr>\<rparr>)"
    using v(1,2) vs(1) nxt(1)
    by (simp add: UpdateStateFromInit_def init_validators_def init_params_def upd_state_def or_panic_def st_def Let_def
        run_seqP run_bindP split: option.split)
  moreover have "from_init (CurState (client s)) st" "st_LastValidators st = vs" "st_Validators st = vs" "st_NextValidators st = nxt"
    by (simp_all add: st_def Let_def from_init_def split: option.split)
  ultimately show thesis using that [OF _ refl, of st "members vs"] vs nxt by simp
qed

text \<open>The request is answered, and what the answer is like.\<close>

lemma SendInitChain_answered:
  assumes A: "live_apps E" and I: "live_init E V pvs doc st" and c: "distinct (map fst (Clients (client s)))" "Clients (client s) \<noteq> []"
  obtains req res u vals where "CreateInitChainRequest E st doc = Return req"
    "broadcast E (\<lambda>c. call (CallInitChain (acc_Client c) req) (app_InitChain E (acc_Client c) req)) s = (Return res, u)"
    "client u = client s" "blockMutex u = blockMutex s"
    "rsi_Validators res \<noteq> []" "PB2TM_ValidatorUpdates E (rsi_Validators res) = Inr vals" "vals \<noteq> []"
    "distinct (map val_Address vals)" "int (length vals) < 2 ^ 31" "power_bounded E (map member vals)"
    "\<forall>v \<in> set vals. 0 < val_VotingPower v \<and> (\<exists>pv \<in> set pvs. key_of E pv (val_Address v))"
    "\<And>t. CurState (client u) = st \<Longrightarrow> UpdateStateFromInit E res u = (Return (), t) \<Longrightarrow> V (CurState (client t))"
proof -
  obtain req where req: "CreateInitChainRequest E st doc = Return req" "agreeing (\<lambda>c. app_InitChain E c req)"
    and ok: "\<forall>c w res. fst (app_InitChain E c req w) = Inr res \<longrightarrow>
            (\<exists>vals. rsi_Validators res \<noteq> [] \<and> PB2TM_ValidatorUpdates E (rsi_Validators res) = Inr vals \<and> vals \<noteq> []
               \<and> distinct (map val_Address vals) \<and> int (length vals) < 2 ^ 31 \<and> power_bounded E (map member vals)
               \<and> (\<forall>v \<in> set vals. 0 < val_VotingPower v \<and> (\<exists>pv \<in> set pvs. key_of E pv (val_Address v))))
            \<and> (\<forall>s t. CurState (client s) = st \<and> UpdateStateFromInit E res s = (Return (), t) \<longrightarrow> V (CurState (client t)))"
    using I unfolding live_init_def by blast
  obtain res u where b: "broadcast E (\<lambda>c. call (CallInitChain (acc_Client c) req) (app_InitChain E (acc_Client c) req)) s = (Return res, u)"
    using broadcast_returns [OF live_appsD(1) [OF A] req(2) c, where k = "\<lambda>c. CallInitChain (acc_Client c) req"] by blast
  have u: "core u = core s" using b by (rule init_call.core_unchanged)
  obtain c w where "fst (app_InitChain E c req w) = Inr res" by (rule init_answer [OF b])
  note r = ok [rule_format, OF this]
  then obtain vals where "rsi_Validators res \<noteq> []" "PB2TM_ValidatorUpdates E (rsi_Validators res) = Inr vals" "vals \<noteq> []"
      "distinct (map val_Address vals)" "int (length vals) < 2 ^ 31" "power_bounded E (map member vals)"
      "\<forall>v \<in> set vals. 0 < val_VotingPower v \<and> (\<exists>pv \<in> set pvs. key_of E pv (val_Address v))"
    by blast
  moreover have "\<And>t. CurState (client u) = st \<Longrightarrow> UpdateStateFromInit E res u = (Return (), t) \<Longrightarrow> V (CurState (client t))"
    using r by blast
  ultimately show thesis using that [OF req(1) b] u by (simp add: core_def)
qed

text \<open>With everybody signing, any validators of positive power are enough.\<close>

lemma quorum_all:
  assumes "mset ms = mset (map member vals)" "vals \<noteq> []" "\<forall>v \<in> set vals. 0 < val_VotingPower v" "\<forall>m \<in> set ms. fst m \<in> up"
  shows "quorum up ms"
proof -
  have pos: "\<forall>m \<in> set ms. 0 < snd m" using assms(3) mset_eq_setD [OF assms(1)] by (auto simp: member_def)
  have "ms \<noteq> []" using assms(1,2) by auto
  then obtain m ms' where m: "ms = m # ms'" by (cases ms) auto
  have "0 \<le> sum_list (map snd ms')" using pos m by (intro sum_list_nonneg) (auto simp: less_imp_le)
  then have "0 < sum_list (map snd ms)" using pos m by simp
  moreover have "filter (\<lambda>m. fst m \<in> up) ms = ms" using assms(4) by (simp add: filter_id_conv)
  ultimately show ?thesis by (simp add: quorum_def)
qed

text \<open>InitChain returns, and the state after it is ready for the first block.\<close>

lemma SendInitChain_ready:
  assumes A: "live_apps E" and S: "live_valsets E" "live_services E" and I: "live_init E V pvs doc st"
    and a: "CurState a = st" "LastCommit a = zero_ext_commit" "Storage a = empty_MapStorage" "keyed (Clients a)"
      "signingStatus a = (\<lambda>addr. if addr \<in> set (map fst (Clients a)) then Some True else None)" "key_addressed E (Clients a)"
      "\<forall>pv \<in> set pvs. \<forall>pk. pv_GetPubKey E pv = Inr pk \<longrightarrow> addr_String E (pk_Address E pk) \<in> dom (map_of (Clients a))"
    and pv: "pvs \<noteq> []" "\<forall>pv \<in> set pvs. \<exists>pk. pv_GetPubKey E pv = Inr pk"
  obtains t ms where "SendInitChain E st doc (initial_sys a w) = (Return (), t)" "ready E V ms (client t)" "\<not> blockMutex t"
    "st_LastBlockHeight (CurState (client t)) = 0"
proof -
  let ?s = "initial_sys a w"
  have ne: "Clients a \<noteq> []" using a(7) pv by (cases pvs) fastforce+
  have d: "distinct (map fst (Clients a))" using a(4) by (simp add: keyed_def)
  obtain req res u vals where r: "CreateInitChainRequest E st doc = Return req"
    "broadcast E (\<lambda>c. call (CallInitChain (acc_Client c) req) (app_InitChain E (acc_Client c) req)) ?s = (Return res, u)"
    "client u = client ?s" "blockMutex u = blockMutex ?s"
    "rsi_Validators res \<noteq> []" "PB2TM_ValidatorUpdates E (rsi_Validators res) = Inr vals" "vals \<noteq> []"
    "distinct (map val_Address vals)" "int (length vals) < 2 ^ 31" "power_bounded E (map member vals)"
    "\<forall>v \<in> set vals. 0 < val_VotingPower v \<and> (\<exists>pv \<in> set pvs. key_of E pv (val_Address v))"
    and V: "\<And>t. CurState (client u) = st \<Longrightarrow> UpdateStateFromInit E res u = (Return (), t) \<Longrightarrow> V (CurState (client t))"
    by (rule SendInitChain_answered [OF A I, of ?s]) (use d ne in \<open>simp_all add: initial_sys_def\<close>)
  have u: "client u = a" "\<not> blockMutex u" using r(3,4) by (simp_all add: initial_sys_def)
  have pos: "\<forall>v \<in> set vals. 0 < val_VotingPower v" using r(11) by blast
  obtain t st' ms where t: "UpdateStateFromInit E res u = (Return (), t)" "t = u\<lparr>client := (client u)\<lparr>CurState := st'\<rparr>\<rparr>"
      "from_init (CurState (client u)) st'" "mset ms = mset (map member vals)"
      "set_ready ms (st_LastValidators st')" "set_ready ms (st_Validators st')" "set_ready ms (st_NextValidators st')"
    by (rule UpdateStateFromInit_returns [OF S(1) r(5-8) pos r(10)])
  have ms: "length ms = length vals" "\<forall>m \<in> set ms. \<exists>v \<in> set vals. m = member v"
    using mset_eq_length [OF t(4)] mset_eq_setD [OF t(4)] by auto
  have known: "addr_String E (fst m) \<in> dom (map_of (Clients a))" if "m \<in> set ms" for m
    using that ms(2) r(11) a(7) by (fastforce simp: member_def key_of_def)
  have sign: "signingStatus a (addr_String E (fst m)) = Some True" if "m \<in> set ms" for m
    using known [OF that] by (simp add: a(5) dom_map_of_conv_image_fst)
  have reg: "registered E a (fst m)" if "m \<in> set ms" for m
    using key_found [OF a(6) _ known [OF that]] S(2) sign [OF that] by (auto simp: registered_def live_services_def)
  have q: "quorum (signers E a) ms"
    by (rule quorum_all [OF t(4) r(7) pos]) (simp add: signers_def sign)
  have ct: "client t = a\<lparr>CurState := st'\<rparr>" by (simp add: t(2) u(1))
  have fi: "st_LastBlockHeight st' = 0" "st_InitialHeight st' = 1" using t(3) I by (simp_all add: u(1) a(1) from_init_def live_init_def)
  have "V st'" using V [OF _ t(1)] by (simp add: ct u(1) a(1))
  then have "ready E V ms (client t)"
    using r(9) ms(1) d a(4) reg q t(5-7) fi power_bounded_perm [OF t(4), of E] r(10)
    by (simp add: ready_def ct a(2,3) empty_MapStorage_def zero_ext_commit_def registered_def signers_def keyed_def)
  moreover have "SendInitChain E st doc ?s = (Return (), t)"
    using r(1,2) t(1) by (simp add: SendInitChain_def run_bindP lift_outcome_def)
  ultimately show thesis using that fi(1) u(2) by (simp add: ct t(2))
qed

section \<open>The start\<close>

lemma main_start_returns:
  assumes A: "live_apps E" "live_lib E V" "live_valsets E" "live_services E"
    and I: "arguments_ok E L args pvs doc st" "live_init E V pvs doc st"
  obtains s ms where "main_start E L F args w = (Return (), Some s)" "ready E V ms (client s)" "\<not> blockMutex s"
    "st_LastBlockHeight (CurState (client s)) = 1"
proof -
  obtain d w' where d: "main_setup E L F args w = (Return d, w')" "sd_state d = st" "sd_genesis d = doc"
      "CurState (sd_client d) = st" "key_addressed E (Clients (sd_client d))"
      "\<forall>pv \<in> set pvs. \<forall>pk. pv_GetPubKey E pv = Inr pk \<longrightarrow> addr_String E (pk_Address E pk) \<in> dom (map_of (Clients (sd_client d)))"
    by (rule main_setup_returns [OF I(1) A(4)])
  obtain cs th where c: "sd_client d = \<lparr>Clients = cs, CurState = sd_state d, LastBlock = zero_block, LastCommit = zero_ext_commit,
       Storage = empty_MapStorage, ErrorOnUnequalResponses = True,
       signingStatus = (\<lambda>addr. if addr \<in> set (map fst cs) then Some True else None), TimeHandler = th,
       AutoIncludeTx = fl_auto_tx F, FreshTxQueue = [], StaleTxQueue = []\<rparr>" "keyed cs"
    by (rule main_setup_Return [OF d(1)])
  have pv: "pvs \<noteq> []" "\<forall>pv \<in> set pvs. \<exists>pk. pv_GetPubKey E pv = Inr pk"
    using arguments_keys [OF I(1)] by simp_all
  obtain u ms where u: "SendInitChain E st doc (initial_sys (sd_client d) w') = (Return (), u)" "ready E V ms (client u)" "\<not> blockMutex u"
      "st_LastBlockHeight (CurState (client u)) = 0"
    by (rule SendInitChain_ready [OF A(1,3,4) I(2) d(4) _ _ _ _ d(5,6) pv]) (use c in simp_all)
  obtain v where v: "vs_Proposer (st_LastValidators (CurState (client u))) = Some v" "val_Address v \<in> fst ` set ms"
    using readyD(6) [OF u(2)] by (auto simp: set_ready_def)
  let ?t = "first_block_time (sd_starting_time d) (sd_block_time d)"
  obtain s where s: "RunBlockWithTimeAndProposer E ?t (Some v) [] u = (Return (), s)" "ready E V ms (client s)" "\<not> blockMutex s"
      "st_LastBlockHeight (CurState (client s)) = 1"
    using block_returns [OF A(1,2) u(2,3) v(2), of ?t] u(4) by auto
  have "RunBlockWithTime E ?t u = (Return (), s)" using s(1) v(1) by (simp add: RunBlockWithTime_def last_proposer_def run_bindP)
  then have "main_init E d (initial_sys (sd_client d) w') = (Return (), s)"
    unfolding main_init_def seqP_Return_iff fatal_Return_iff d(2,3) using u(1) by blast
  then show thesis using that [of s ms] d(1) s by (simp add: main_start_def)
qed

section \<open>The sample start is live\<close>

lemma sample_live_valsets: "live_valsets sample_env"
proof -
  have "set_ready (members (sample_valset vals)) (sample_valset vals)" if "vals \<noteq> []" for vals
    using that by (cases vals) (auto simp: set_ready_def sample_valset_def members_def member_def)
  moreover have "set_ready (members vs) (sample_rotate vs)" if "vs_Validators vs \<noteq> []" for vs
    using sample_members_rotate [OF that] by (force simp: set_ready_def members_def member_def)
  ultimately show ?thesis
    unfolding live_valsets_def by (simp add: sample_env_def) (simp add: sample_valset_def members_def)
qed

lemma sample_arguments_ok:
  "arguments_ok sample_env (sample_loader 1) sample_args [''v1'', ''v2'']
     \<lparr>gd_GenesisTime = 1000, gd_Validators = [\<lparr>gv_PubKey = ''v1'', gv_Power = 10\<rparr>, \<lparr>gv_PubKey = ''v2'', gv_Power = 20\<rparr>],
      gd_AppState = [], gd_other = []\<rparr>
     ((sample_state sample_vals 0)\<lparr>st_LastValidators := \<lparr>vs_Validators = [], vs_Proposer = None\<rparr>, st_InitialHeight := 1\<rparr>)"
  unfolding arguments_ok_def
  by (rule exI [of _ "''c1,c2''"], rule exI [of _ "''genesis.json''"], rule exI [of _ "''127.0.0.1:22331''"],
      rule exI [of _ "''v1,v2''"], rule exI [of _ "''grpc''"], rule exI [of _ "[]"], rule exI [of _ "''genesis.json''"], rule exI [of _ "[]"])
    (simp add: sample_args_def sample_loader_def key_file_def sample_env_def)

lemma sample_live_init:
  "live_init sample_env (\<lambda>_. True) [''v1'', ''v2'']
     \<lparr>gd_GenesisTime = 1000, gd_Validators = [\<lparr>gv_PubKey = ''v1'', gv_Power = 10\<rparr>, \<lparr>gv_PubKey = ''v2'', gv_Power = 20\<rparr>],
      gd_AppState = [], gd_other = []\<rparr>
     ((sample_state sample_vals 0)\<lparr>st_LastValidators := \<lparr>vs_Validators = [], vs_Proposer = None\<rparr>, st_InitialHeight := 1\<rparr>)"
  unfolding live_init_def
proof (intro conjI, goal_cases)
  case 3
  show ?case
    unfolding CreateInitChainRequest_def Let_def
    by (simp add: sample_env_def sample_valset_def sample_validator_def key_of_def power_bounded_def member_def)
      (rule sample_agreeing, simp)
qed (simp_all add: sample_state_def)

section \<open>Properties\<close>

text \<open>
  Claim C10. CometMock starts and keeps producing blocks, under these conditions: the arguments name readable key and
  genesis files, and the genesis state has height 0 and initial height 1; the applications answer every request, agree and accept, never
  change validators or consensus parameters in FinalizeBlock, and answer InitChain with validators of positive power, in total not
  above the library's maximum, whose keys are in the node homes; the library behaves as documented. Then, whatever the other flags, the
  start returns with the first block on the chain, and if the production interval is positive the loop of \<open>main\<close> then produces any number
  of blocks, none of them failing.
\<close>

theorem start_up_succeeds:
  assumes "live_apps E" "live_lib E V" "live_valsets E" "live_services E"
    and "arguments_ok E L args pvs doc st" "live_init E V pvs doc st" and "0 < fl_block_production_interval F"
  shows "\<exists>s. main_start E L F args w = (Return (), Some s) \<and> st_LastBlockHeight (CurState (client s)) = 1
    \<and> (\<forall>n. 1 + int n < 2 ^ 63 \<longrightarrow> (\<exists>s'. main_produce E F n s = (Return (), s')
        \<and> st_LastBlockHeight (CurState (client s')) = 1 + int n))"
proof -
  obtain s ms where s: "main_start E L F args w = (Return (), Some s)" "ready E V ms (client s)" "\<not> blockMutex s"
      "st_LastBlockHeight (CurState (client s)) = 1"
    by (rule main_start_returns [OF assms(1-6)])
  have "\<exists>s'. main_produce E F n s = (Return (), s') \<and> st_LastBlockHeight (CurState (client s')) = 1 + int n"
    if "1 + int n < 2 ^ 63" for n
    using RunBlocks_return [OF assms(1,2) s(2,3), of "[0..<n]"] that s(4) assms(7) by (auto simp: main_produce_def)
  then show ?thesis using s(1,4) by blast
qed

theorem start_up_succeeds_witness:
  "\<exists>s s'. main_start sample_env (sample_loader 1) sample_flags sample_args 0 = (Return (), Some s)
    \<and> main_produce sample_env sample_flags 1000 s = (Return (), s') \<and> st_LastBlockHeight (CurState (client s')) = 1001"
proof -
  have "live_services sample_env" by (simp add: live_services_def sample_env_def)
  moreover have "0 < fl_block_production_interval sample_flags" by (simp add: sample_flags_def)
  ultimately obtain s where s: "main_start sample_env (sample_loader 1) sample_flags sample_args 0 = (Return (), Some s)"
    and p: "\<forall>n. 1 + int n < 2 ^ 63 \<longrightarrow> (\<exists>s'. main_produce sample_env sample_flags n s = (Return (), s')
        \<and> st_LastBlockHeight (CurState (client s')) = 1 + int n)"
    using start_up_succeeds [OF sample_live_apps sample_live_lib sample_live_valsets _ sample_arguments_ok sample_live_init] by blast
  from p [rule_format, of 1000] s show ?thesis by auto
qed

end
