(* ===== verification/Concurrent.thy ===== *)
theory Concurrent
  imports Service Start_Progress
begin

text \<open>
  The running program as threads. \<open>RunBlock\<close> and \<open>RunBlockWithEvidence\<close> of \<open>abci_client/client.go\<close> read the time of the last
  block, ask the time handler (under its own mutex) and read the last proposer before \<open>RunBlockWithTimeAndProposer\<close> takes
  the block mutex, and other threads may run between any two of these: every such read, the call of the time handler and
  the section under the block mutex are one step of a thread each. \<open>advance_blocks\<close> starts over for each of its blocks.
  A request that runs no block, and the start of one that does, is one step.
\<close>

section \<open>Threads\<close>

type_synonym misbehaving = "(validator \<times> misbehaviour_type) list"

text \<open>A thread that runs a block, by what it does next, and how many blocks it runs after this one.\<close>

datatype thread =
    Read_time misbehaving nat
  | Ask_time time misbehaving nat
  | Read_proposer time misbehaving nat
  | Run_block time "validator option" misbehaving nat

fun next_block :: "nat \<Rightarrow> thread option" where
  "next_block 0 = None"
| "next_block (Suc n) = Some (Read_time [] n)"

fun thread_step :: "'w env \<Rightarrow> thread \<Rightarrow> ('w, thread option) run" where
  "thread_step E (Read_time misb n) =
     bindP (get_client (\<lambda>a. hd_Time (blk_Header (LastBlock a)))) (\<lambda>lastTime. ret (Some (Ask_time lastTime misb n)))"
| "thread_step E (Ask_time lastTime misb n) =
     bindP (GetBlockTime E lastTime) (\<lambda>blockTime. ret (Some (Read_proposer blockTime misb n)))"
| "thread_step E (Read_proposer blockTime misb n) =
     bindP last_proposer (\<lambda>proposer. ret (Some (Run_block blockTime proposer misb n)))"
| "thread_step E (Run_block blockTime proposer misb n) =
     seqP (RunBlockWithTimeAndProposer E blockTime proposer misb) (ret (next_block n))"

text \<open>
  What the operations that run blocks do before the first step of the thread: the guard of \<open>AdvanceBlocks\<close>, the lookups and
  the choice of the misbehaviour of \<open>CauseDoubleSign\<close> and \<open>CauseLightClientAttack\<close>, the start of a goroutine by \<open>BroadcastTx\<close>.
\<close>

definition launch_AdvanceBlocks :: "int \<Rightarrow> ('w, thread option) run" where [simp]:
  "launch_AdvanceBlocks n = (if n < 1 then throw NumBlocksNotPositive else ret (next_block (nat n)))"

definition launch_CauseDoubleSign :: "'w env \<Rightarrow> string \<Rightarrow> ('w, thread option) run" where [simp]:
  "launch_CauseDoubleSign E address =
     bindP (GetValidatorFromAddress E address) (\<lambda>v. ret (Some (Read_time [(v, DuplicateVote)] 0)))"

definition launch_CauseLightClientAttack :: "'w env \<Rightarrow> string \<Rightarrow> string \<Rightarrow> ('w, thread option) run" where [simp]:
  "launch_CauseLightClientAttack E address misbehaviourType =
     bindP (GetValidatorFromAddress E address) (\<lambda>v.
       if misbehaviourType = ''Lunatic'' then ret (Some (Read_time [(v, Lunatic)] 0))
       else if misbehaviourType = ''Amnesia'' then ret (Some (Read_time [(v, Amnesia)] 0))
       else if misbehaviourType = ''Equivocation'' then ret (Some (Read_time [(v, Equivocation)] 0))
       else throw (UnknownMisbehaviour misbehaviourType))"

definition launch_goroutine :: "('w, thread option) run" where [simp]:
  "launch_goroutine =
     bindP (gets goroutines) (\<lambda>n. case n of
         0 \<Rightarrow> ret None
       | Suc m \<Rightarrow> seqP (modify (\<lambda>s. s\<lparr>goroutines := m\<rparr>)) (ret (next_block 1)))"

text \<open>What happens to the program, up to the thread that it leaves running: the route table, with these for the routes that run blocks.\<close>

fun launch :: "'w env \<Rightarrow> happening \<Rightarrow> ('w, thread option) run" where
  "launch E (Request (Call_advance_blocks n)) = launch_AdvanceBlocks n"
| "launch E (Request (Call_cause_double_sign address)) = launch_CauseDoubleSign E address"
| "launch E (Request (Call_cause_light_client_attack address misbehaviourType)) = launch_CauseLightClientAttack E address misbehaviourType"
| "launch E (Request c) = seqP (Routes E c) (ret None)"
| "launch E Background = launch_goroutine"
| "launch E Produce = ret (next_block 1)"

section \<open>Interleavings\<close>

text \<open>
  A thread that fails, panics or waits for a mutex that is held between two steps does not go on. (Nobody releases such
  a mutex: its holder is gone.)
\<close>

fun left_running :: "thread option go \<Rightarrow> thread list" where
  "left_running (Return (Some th)) = [th]"
| "left_running r = []"

text \<open>\<open>allowed\<close> restricts the outcomes of the steps of threads.\<close>

inductive interleave :: "'w env \<Rightarrow> (thread option go \<Rightarrow> bool) \<Rightarrow> thread list \<times> 'w sys \<Rightarrow> thread list \<times> 'w sys \<Rightarrow> bool"
  for E allowed where
  launches: "launch E h s = (r, t) \<Longrightarrow> interleave E allowed (ths, s) (ths @ left_running r, t)"
| steps: "st_LastBlockHeight (CurState (client s)) < 2 ^ 63 - 1 \<Longrightarrow> thread_step E th s = (r, t) \<Longrightarrow> allowed r \<Longrightarrow>
    interleave E allowed (ths @ th # ths', s) (ths @ left_running r @ ths', t)"

inductive_cases interleaveE: "interleave E allowed c c'"

fun any_outcome :: "thread option go \<Rightarrow> bool" where
  "any_outcome r = True"

fun returned :: "thread option go \<Rightarrow> bool" where
  "returned (Return th) = True"
| "returned r = False"

section \<open>A thread alone\<close>

fun run_thread :: "'w env \<Rightarrow> nat \<Rightarrow> thread option \<Rightarrow> ('w, thread option) run" where
  "run_thread E 0 th = ret th"
| "run_thread E (Suc k) None = ret None"
| "run_thread E (Suc k) (Some th) = bindP (thread_step E th) (run_thread E k)"

lemma bindP_bindP: "bindP (bindP m f) g = bindP m (\<lambda>a. bindP (f a) g)"
proof (rule ext)
  fix s
  show "bindP (bindP m f) g s = bindP m (\<lambda>a. bindP (f a) g) s"
    by (cases "m s"; cases "fst (m s)") (auto simp: run_bindP)
qed

lemma bindP_ret: "bindP (ret a) f = f a" "bindP m ret = m"
proof -
  show "bindP m ret = m"
    by (rule ext, rename_tac s, case_tac "m s"; case_tac "fst (m s)") (auto simp: run_bindP)
qed (simp add: bindP_def)

lemma bindP_throw: "bindP (throw e) f = throw e"
  by (rule ext) (simp add: run_bindP, simp add: throw_def)

lemma bindP_if: "bindP (if b then m else k) f = (if b then bindP m f else bindP k f)"
  by simp

lemmas bindP_laws = bindP_bindP bindP_ret bindP_throw

lemma run_thread_None: "run_thread E k None = ret None"
  by (cases k) auto

text \<open>Uninterrupted, a thread is the operation it comes from.\<close>

lemma run_thread_block:
  "run_thread E (Suc (Suc (Suc (Suc k)))) (Some (Read_time misb n)) =
    bindP (RunBlockWithEvidence E misb) (\<lambda>_. run_thread E k (next_block n))"
  by (simp add: RunBlockWithEvidence_def bindP_laws seqP_def)

lemma RunBlock_no_evidence: "RunBlock E = RunBlockWithEvidence E []"
  by (simp add: RunBlock_def RunBlockWithEvidence_def)

lemma run_thread_blocks:
  "run_thread E (4 * n) (next_block n) = seqP (foreach (\<lambda>_. RunBlock E) [m..<m + n]) (ret None)"
proof (induction n arbitrary: m)
  case 0
  then show ?case by (simp add: seqP_def bindP_laws)
next
  case (Suc n)
  have "[m..<m + Suc n] = m # [Suc m..<Suc m + n]" by (simp add: upt_conv_Cons)
  moreover have "4 * Suc n = Suc (Suc (Suc (Suc (4 * n))))" by simp
  ultimately show ?case
    using Suc.IH [of "Suc m"] by (simp only: next_block.simps run_thread_block) (simp add: seqP_def bindP_laws RunBlock_no_evidence)
qed

text \<open>
  The most blocks that a happening runs, and what it does when nothing comes in between: the step that starts it, then
  the steps of its thread.
\<close>

fun blocks_of :: "happening \<Rightarrow> nat" where
  "blocks_of (Request (Call_advance_blocks n)) = nat n"
| "blocks_of h = 1"

definition alone :: "'w env \<Rightarrow> happening \<Rightarrow> ('w, thread option) run" where
  "alone E h = bindP (launch E h) (run_thread E (4 * blocks_of h))"

lemma alone_blocks: "run_thread E 4 (next_block 1) = seqP (RunBlock E) (ret None)"
  using run_thread_blocks [of E 1 0] by (simp add: seqP_def bindP_laws)

lemma alone_evidence: "run_thread E 4 (Some (Read_time misb 0)) = seqP (RunBlockWithEvidence E misb) (ret None)"
  using run_thread_block [of E 0 misb 0] by (simp add: seqP_def numeral_eq_Suc)

lemma seqP_unit: "seqP m (ret ()) = m"
proof -
  have "(\<lambda>_. ret ()) = (ret :: unit \<Rightarrow> ('s, unit, 'e, 'p) prog)" by (rule ext) simp
  then show ?thesis by (simp add: seqP_def bindP_ret(2))
qed

lemma request_alone: "Routes E c = seqP (alone E (Request c)) (ret ())"
proof -
  note u = seqP_unit [unfolded seqP_def]
  have q: "seqP (bindP (seqP m (ret None)) (run_thread E k)) (ret ()) = m" for m :: "('a, unit) run" and E k
    by (simp add: seqP_def bindP_laws run_thread_None u)
  show ?thesis
  proof (cases c)
    case (Call_advance_blocks n)
    then show ?thesis
      using run_thread_blocks [of E "nat n" 0]
      by (auto simp: alone_def route_AdvanceBlocks_def RunEmptyBlocks_def seqP_def bindP_laws u)
  next
    case (Call_cause_double_sign a)
    then show ?thesis
      by (simp add: alone_def alone_evidence route_CauseDoubleSign_def CauseDoubleSign_def seqP_def bindP_laws u)
  next
    case (Call_cause_light_client_attack a m)
    then show ?thesis
      by (simp add: alone_def alone_evidence route_CauseLightClientAttack_def CauseLightClientAttack_def seqP_def bindP_laws u
          bindP_if cong: if_cong)
  qed (simp_all only: alone_def launch.simps q Routes.simps)
qed

lemma others_alone:
  "happen E Background = seqP (attempt (alone E Background)) (ret ())"
  "happen E Produce = seqP (fatal (alone E Produce)) (ret ())"
proof -
  have p: "alone E Produce = seqP (RunBlock E) (ret None)"
    using alone_blocks [of E] by (simp add: alone_def bindP_ret)
  show "happen E Produce = seqP (fatal (alone E Produce)) (ret ())"
    by (rule ext, rename_tac s, case_tac "RunBlock E s"; case_tac "fst (RunBlock E s)")
      (auto simp: p fatal_def run_bindP run_seqP run_attempt)
  show "happen E Background = seqP (attempt (alone E Background)) (ret ())"
  proof (rule ext)
    fix s :: "'a sys"
    show "happen E Background s = seqP (attempt (alone E Background)) (ret ()) s"
    proof (cases "goroutines s")
      case 0
      then show ?thesis by (simp add: alone_def goroutine_step_def run_bindP run_seqP run_attempt run_thread_None)
    next
      case (Suc m)
      let ?u = "s\<lparr>goroutines := m\<rparr>"
      have "alone E Background s = seqP (RunBlock E) (ret None) ?u"
        using alone_blocks [of E] by (simp add: alone_def run_bindP run_seqP Suc)
      moreover have "happen E Background s = seqP (attempt (RunBlock E)) (ret ()) ?u"
        by (simp add: goroutine_step_def run_bindP run_seqP Suc)
      ultimately show ?thesis
        by (cases "RunBlock E ?u"; cases "fst (RunBlock E ?u)") (auto simp: run_seqP run_attempt)
    qed
  qed
qed

text \<open>
  So nothing is lost or added by cutting a handler into the steps at which other threads can run: without other threads, every request
  does what its route of the table does, a block in the background what \<open>goroutine_step\<close> does, and a round of the loop of \<open>main\<close> what
  \<open>RunBlock\<close> does, on every outcome and in every state.
\<close>

lemma steps_make_up_handlers:
  "seqP (alone E (Request c)) (ret ()) = Routes E c"
  "seqP (attempt (alone E Background)) (ret ()) = goroutine_step E"
  "seqP (fatal (alone E Produce)) (ret ()) = fatal (RunBlock E)"
  using request_alone [of E c] others_alone [of E] by simp_all

section \<open>Invariants of every interleaving\<close>

lemma keeps_nat [keeps_intros]:
  "(n = 0 \<Longrightarrow> keeps P m) \<Longrightarrow> (\<And>k. n = Suc k \<Longrightarrow> keeps P (f k)) \<Longrightarrow> keeps P (case n of 0 \<Rightarrow> m | Suc k \<Rightarrow> f k)"
  by (cases n) auto

fun runs_blocks :: "rpc_call \<Rightarrow> bool" where
  "runs_blocks (Call_advance_blocks n) = True"
| "runs_blocks (Call_cause_double_sign a) = True"
| "runs_blocks (Call_cause_light_client_attack a m) = True"
| "runs_blocks c = False"

lemma launch_request: "\<not> runs_blocks c \<Longrightarrow> launch E (Request c) = seqP (Routes E c) (ret None)"
  by (cases c) auto

lemma keeps_launch:
  assumes "\<And>c. \<not> runs_blocks c \<Longrightarrow> keeps P (Routes E c)" and "\<And>s n. P s \<Longrightarrow> P (s\<lparr>goroutines := n\<rparr>)"
  shows "keeps P (launch E h)"
proof (cases "\<exists>c. h = Request c \<and> \<not> runs_blocks c")
  case True
  then show ?thesis using assms(1) by (auto simp: launch_request intro!: keeps_intros)
next
  case False
  then show ?thesis using assms(2)
    by (cases "(E, h)" rule: launch.cases) (auto simp: keeps_modify intro!: keeps_intros)
qed

context service_invariant
begin

lemma keeps_thread_step: "keeps P (thread_step E th)"
  by (cases th) (auto simp: last_proposer_def intro!: block asks keeps_intros)

lemma keeps_started: "keeps P (launch E h)"
  by (rule keeps_launch) (simp_all add: keeps_Routes pending)

lemma interleaved: "(interleave E allowed)\<^sup>*\<^sup>* (ths0, s0) (ths, s) \<Longrightarrow> P s0 \<Longrightarrow> P s"
proof (induction rule: rtranclp_induct2)
  case (step ths s ths' t)
  then show ?case by (auto elim!: interleaveE dest: keeps_run [OF keeps_started] keeps_run [OF keeps_thread_step])
qed

end

section \<open>The chain under every interleaving\<close>

text \<open>Only the section under the block mutex moves the chain, and with any time and proposer it is given.\<close>

lemma launch_untouched:
  assumes "launch E h s = (r, t)" "\<not> stateUpdateMutex (Storage (client s))"
  shows "untouched (client s) (client t) \<and> LastCommit (client t) = LastCommit (client s)"
proof -
  let ?U = "\<lambda>u. untouched (client s) (client u) \<and> LastCommit (client u) = LastCommit (client s)"
  have rb: "read_blind ?U" by (simp add: read_blind_def env_blind_def untouched_def same_reads_fields)
  note rb = rb read_blindD [OF rb]
  have "keeps ?U (Routes E c)" if c: "\<not> runs_blocks c" for c
  proof (cases "is_query c")
    case True
    then show ?thesis by (rule keeps_queries [OF rb(1)])
  next
    case False
    then show ?thesis using c
      by (cases c) (auto simp: route_BroadcastTxSync_def route_BroadcastTxAsync_def BroadcastTx_def route_SetSigningStatus_def
          route_AdvanceTime_def GetSigningStatusMap_def keeps_modify intro!: keeps_intros rb, auto simp: untouched_def keeps_def)
  qed
  then have "keeps ?U (launch E h)" by (rule keeps_launch) simp_all
  from keepsD [OF this, of s] show ?thesis using assms(1) untouched_refl [OF assms(2)] by simp
qed

lemma thread_step_outcome:
  assumes E: "makes_blocks E" and l: "\<not> stateUpdateMutex (Storage (client s))" and "thread_step E th s = (r, t)"
  shows "op_outcome E (client s) (client t)"
proof (cases th)
  case (Run_block tm p misb n)
  obtain r' u where b: "RunBlockWithTimeAndProposer E tm p misb s = (r', u)" by fastforce
  then have "t = u" using assms(3) Run_block by (cases r') (auto simp: run_seqP)
  then show ?thesis using RunBlock_op_outcome [OF E l, of tm p misb] b by simp
next
  case (Ask_time tm misb n)
  obtain bt th u where "GetBlockTime E tm s = (Return bt, u)" "client u = (client s)\<lparr>TimeHandler := th\<rparr>"
    by (rule GetBlockTime_run)
  then show ?thesis using assms(3) Ask_time untouched_refl [OF l] by (auto simp: run_bindP op_outcome_def untouched_def)
qed (use assms(3) untouched_refl [OF l] in \<open>auto simp: run_bindP last_proposer_def op_outcome_def\<close>)

lemma interleaved_linked:
  assumes E: "makes_blocks E" and h0: "0 \<le> h0" and "linked E h0 (client s0)" and "(interleave E any_outcome)\<^sup>*\<^sup>* (ths0, s0) (ths, s)"
  shows "stateUpdateMutex (Storage (client s)) \<or> linked E h0 (client s)"
  using assms(4)
proof (induction rule: rtranclp_induct2)
  case refl
  then show ?case using assms(3) by simp
next
  case (step ths s ths' t)
  show ?case
  proof (cases "stateUpdateMutex (Storage (client s))")
    case True
    then show ?thesis using store_locked.interleaved [of E any_outcome ths s ths' t] step.hyps(2) by blast
  next
    case False
    then have l: "linked E h0 (client s)" using step.IH by simp
    have "op_outcome E (client s) (client t)" "untouched (client s) (client t) \<or> st_LastBlockHeight (CurState (client s)) < 2 ^ 63 - 1"
      using step.hyps(2) launch_untouched [OF _ False] thread_step_outcome [OF E False]
      by (auto elim!: interleaveE simp: op_outcome_def simp del: not_None_eq) blast+
    then show ?thesis
      using linked_untouched [OF l] linked_moved [OF l _ h0] unfolding op_outcome_def by blast
  qed
qed

text \<open>A step of a thread that returned moved the chain on by one block, or left it and the last commit alone.\<close>

lemma thread_step_returned:
  assumes E: "makes_blocks E" and l: "\<not> stateUpdateMutex (Storage (client s))" and "thread_step E th s = (r, t)" "returned r"
  shows "untouched (client s) (client t) \<and> LastCommit (client t) = LastCommit (client s)
    \<or> (\<exists>tm p. moved_on E tm p (client s) (client t))"
proof (cases th)
  case (Run_block tm p misb n)
  obtain r' u where b: "RunBlockWithTimeAndProposer E tm p misb s = (r', u)" by fastforce
  then have "r' = Return ()" "t = u" using assms(3,4) Run_block by (cases r'; auto simp: run_seqP)+
  then show ?thesis using RunBlock_moved [OF E] b by blast
next
  case (Ask_time tm misb n)
  obtain bt th u where "GetBlockTime E tm s = (Return bt, u)" "client u = (client s)\<lparr>TimeHandler := th\<rparr>"
    by (rule GetBlockTime_run)
  then show ?thesis using assms(3) Ask_time untouched_refl [OF l] by (auto simp: run_bindP untouched_def)
qed (use assms(3) untouched_refl [OF l] in \<open>auto simp: run_bindP last_proposer_def\<close>)

lemma interleaved_commits_linked:
  assumes E: "makes_blocks E" and h0: "0 \<le> h0" and s0: "linked E h0 (client s0)" "commits_linked E h0 (client s0)"
      "\<not> stateUpdateMutex (Storage (client s0))"
    and "(interleave E returned)\<^sup>*\<^sup>* (ths0, s0) (ths, s)"
  shows "\<not> stateUpdateMutex (Storage (client s)) \<and> linked E h0 (client s) \<and> commits_linked E h0 (client s)"
  using assms(6)
proof (induction rule: rtranclp_induct2)
  case refl
  then show ?case using s0 by simp
next
  case (step ths s ths' t)
  note ih = step.IH [THEN conjunct1] step.IH [THEN conjunct2, THEN conjunct1] step.IH [THEN conjunct2, THEN conjunct2]
  have "untouched (client s) (client t) \<and> LastCommit (client t) = LastCommit (client s)
      \<or> (\<exists>tm p. moved_on E tm p (client s) (client t)) \<and> st_LastBlockHeight (CurState (client s)) < 2 ^ 63 - 1"
    using step.hyps(2)
  proof (cases rule: interleave.cases)
    case (launches h r)
    then show ?thesis using launch_untouched [OF _ ih(1)] by blast
  next
    case (steps th r)
    then show ?thesis using thread_step_returned [OF E ih(1)] by blast
  qed
  then consider "untouched (client s) (client t)" "LastCommit (client t) = LastCommit (client s)"
    | tm p where "moved_on E tm p (client s) (client t)" "st_LastBlockHeight (CurState (client s)) < 2 ^ 63 - 1"
    by blast
  then show ?case
  proof cases
    case 1
    then show ?thesis using linked_untouched [OF ih(2)] commits_linked_untouched [OF ih(3)] by (auto simp: untouched_def)
  next
    case 2
    then show ?thesis
      using linked_moved [OF ih(2) 2(1) h0 2(2)] commits_linked_moved [OF ih(3,2) 2(1) h0 2(2)] by (auto simp: moved_on_def)
  qed
qed

section \<open>Two blocks at once\<close>

text \<open>A block that is given a time and a proposer and returns, as far as a reader of the store sees it.\<close>

lemma timed_block:
  assumes A: "live_apps E" "live_lib E V" and s: "ready E V ms (client s)" "\<not> blockMutex s" "val_Address v \<in> fst ` set ms"
    and h: "st_LastBlockHeight (CurState (client s)) = h" "0 \<le> h" "h + 1 < 2 ^ 63"
  obtains s' b c r where "RunBlockWithTimeAndProposer E t (Some v) [] s = (Return (), s')" "ready E V ms (client s')"
    "\<not> blockMutex s'" "st_LastBlockHeight (CurState (client s')) = h + 1"
    "ms_entries (Storage (client s')) = (ms_entries (Storage (client s)))(h + 1 \<mapsto> (b, c, CurState (client s), r))"
    "hd_Time (blk_Header b) = t" "hd_ProposerAddress (blk_Header b) = val_Address v" "LastBlock (client s') = b"
proof -
  obtain s' where s': "RunBlockWithTimeAndProposer E t (Some v) [] s = (Return (), s')" "ready E V ms (client s')"
      "\<not> blockMutex s'" "st_LastBlockHeight (CurState (client s')) = h + 1"
    using block_returns [OF A s, of t] h by auto
  have i: "i64 (h + 1) = h + 1" using h(2,3) by (simp add: in64_def)
  obtain b r where "proposed E t v (client s) b" "LastBlock (client s') = b"
      "ms_entries (Storage (client s')) = (ms_entries (Storage (client s)))(hd_Height (blk_Header b) \<mapsto>
        (b, ec_ToCommit E (LastCommit (client s')), CurState (client s), r))"
    using RunBlock_success [OF live_libD(1) [OF A(2)] s'(1)] by auto
  then show thesis using that [OF s', of b _ r] h(1) by (simp add: proposed_def i)
qed

text \<open>A thread that goes on, at its place.\<close>

lemma thread_goes_on:
  assumes "i < length ths" "st_LastBlockHeight (CurState (client s)) < 2 ^ 63 - 1"
    and "thread_step E (ths ! i) s = (Return (Some th), t)" and "allowed (Return (Some th))"
  shows "(interleave E allowed)\<^sup>*\<^sup>* (ths, s) (ths[i := th], t)"
  using interleave.steps [where allowed = allowed, OF assms(2-4), of "take i ths" "drop (Suc i) ths"] assms(1)
  by (auto simp: id_take_nth_drop [symmetric] upd_conv_take_nth_drop)

lemma first_thread_ends:
  assumes "st_LastBlockHeight (CurState (client s)) < 2 ^ 63 - 1" and "thread_step E th s = (Return None, t)" and "allowed (Return None)"
  shows "(interleave E allowed)\<^sup>*\<^sup>* (th # ths, s) (ths, t)"
  using interleave.steps [where allowed = allowed, OF assms, of "[]" ths] by auto

text \<open>Two threads read the same last block before either of them runs its block.\<close>

lemma both_ask:
  assumes f: "TimeHandler (client s) = FixedBlockTimeHandler f" and h: "st_LastBlockHeight (CurState (client s)) < 2 ^ 63 - 1"
    and t0: "t0 = hd_Time (blk_Header (LastBlock (client s)))" and p: "p = vs_Proposer (st_LastValidators (CurState (client s)))"
  obtains th where "(interleave E returned)\<^sup>*\<^sup>* ([Read_time [] 0, Read_time [] 0], s)
    ([Run_block (t0 + i64 (fb_blockTime f + fb_curBlockOffset f)) p [] 0, Run_block (t0 + i64 (fb_blockTime f)) p [] 0],
     s\<lparr>client := (client s)\<lparr>TimeHandler := th\<rparr>\<rparr>)"
proof -
  let ?t1 = "t0 + i64 (fb_blockTime f + fb_curBlockOffset f)" and ?t2 = "t0 + i64 (fb_blockTime f)"
  let ?s = "\<lambda>t. s\<lparr>client := (client s)\<lparr>TimeHandler := FixedBlockTimeHandler
    (f\<lparr>fb_curBlockOffset := 0, fb_lastBlockTimestamp := t\<rparr>)\<rparr>\<rparr>"
  have g: "GetBlockTime E t0 s = (Return ?t1, ?s ?t1)" "GetBlockTime E t0 (?s ?t1) = (Return ?t2, ?s ?t2)"
    by (simp_all add: GetBlockTime_def f fb_GetBlockTime_def time_Add_def Let_def run_bindP run_seqP)
  note go = thread_goes_on [where allowed = returned, OF _ h] and go1 = thread_goes_on [where allowed = returned and s = "?s ?t1"] and go2 = thread_goes_on [where allowed = returned and s = "?s ?t2"]
  have "(interleave E returned)\<^sup>*\<^sup>* ([Read_time [] 0, Read_time [] 0], s) ([Ask_time t0 [] 0, Read_time [] 0], s)"
    using go [of 0 "[Read_time [] 0, Read_time [] 0]" E] t0 by (simp add: run_bindP)
  also have "(interleave E returned)\<^sup>*\<^sup>* \<dots> ([Ask_time t0 [] 0, Ask_time t0 [] 0], s)"
    using go [of 1 "[Ask_time t0 [] 0, Read_time [] 0]" E] t0 by (simp add: run_bindP)
  also have "(interleave E returned)\<^sup>*\<^sup>* \<dots> ([Read_proposer ?t1 [] 0, Ask_time t0 [] 0], ?s ?t1)"
    using go [of 0 "[Ask_time t0 [] 0, Ask_time t0 [] 0]" E] by (simp add: run_bindP g)
  also have "(interleave E returned)\<^sup>*\<^sup>* \<dots> ([Read_proposer ?t1 [] 0, Read_proposer ?t2 [] 0], ?s ?t2)"
    using go1 [of 1 "[Read_proposer ?t1 [] 0, Ask_time t0 [] 0]" E] h by (simp add: run_bindP g)
  also have "(interleave E returned)\<^sup>*\<^sup>* \<dots> ([Run_block ?t1 p [] 0, Read_proposer ?t2 [] 0], ?s ?t2)"
    using go2 [of 0 "[Read_proposer ?t1 [] 0, Read_proposer ?t2 [] 0]" E] h p by (simp add: run_bindP last_proposer_def)
  also have "(interleave E returned)\<^sup>*\<^sup>* \<dots> ([Run_block ?t1 p [] 0, Run_block ?t2 p [] 0], ?s ?t2)"
    using go2 [of 1 "[Run_block ?t1 p [] 0, Read_proposer ?t2 [] 0]" E] h p by (simp add: run_bindP last_proposer_def)
  finally show thesis by (rule that)
qed

section \<open>A sample interleaving\<close>

text \<open>A block that returns is an interleaving in which nothing comes between the steps of its thread.\<close>

lemma block_thread_runs:
  assumes run: "RunBlock E s = (Return (), s')" and h: "st_LastBlockHeight (CurState (client s)) < 2 ^ 63 - 1"
    and ok: "\<And>x. allowed (Return x)"
  shows "(interleave E allowed)\<^sup>*\<^sup>* (Read_time [] 0 # ths, s) (ths, s')"
proof -
  let ?t = "hd_Time (blk_Header (LastBlock (client s)))" and ?p = "vs_Proposer (st_LastValidators (CurState (client s)))"
  obtain bt th u where u: "GetBlockTime E ?t s = (Return bt, u)" "client u = (client s)\<lparr>TimeHandler := th\<rparr>"
    by (rule GetBlockTime_run)
  then have b: "RunBlockWithTimeAndProposer E bt ?p [] u = (Return (), s')"
    using run by (simp add: RunBlock_def last_proposer_def run_bindP)
  have hu: "st_LastBlockHeight (CurState (client u)) < 2 ^ 63 - 1" using h by (simp add: u(2))
  have "(interleave E allowed)\<^sup>*\<^sup>* (Read_time [] 0 # ths, s) (Ask_time ?t [] 0 # ths, s)"
    using thread_goes_on [where allowed = allowed, OF _ h, of 0 "Read_time [] 0 # ths" E] ok by (simp add: run_bindP)
  also have "(interleave E allowed)\<^sup>*\<^sup>* \<dots> (Read_proposer bt [] 0 # ths, u)"
    using thread_goes_on [where allowed = allowed, OF _ h, of 0 "Ask_time ?t [] 0 # ths" E] ok by (simp add: run_bindP u(1))
  also have "(interleave E allowed)\<^sup>*\<^sup>* \<dots> (Run_block bt ?p [] 0 # ths, u)"
    using thread_goes_on [where allowed = allowed, OF _ hu, of 0 "Read_proposer bt [] 0 # ths" E] ok
    by (simp add: run_bindP last_proposer_def u(2))
  also have "(interleave E allowed)\<^sup>*\<^sup>* \<dots> (ths, s')"
    by (rule first_thread_ends [OF hu]) (use b ok in \<open>simp_all add: run_seqP\<close>)
  finally show ?thesis .
qed

lemma sample_interleaving:
  obtains s0 s :: "int sys" where "main_start sample_env (sample_loader 1) sample_flags sample_args 0 = (Return (), Some s0)"
    "st_LastBlockHeight (CurState (client s)) = 2"
    "\<And>allowed. (\<And>x. allowed (Return x)) \<Longrightarrow> (interleave sample_env allowed)\<^sup>*\<^sup>* ([], s0) ([Read_time [] 2], s)"
proof -
  let ?E = sample_env
  have "live_services ?E" by (simp add: live_services_def sample_env_def)
  then obtain s0 ms where s0: "main_start ?E (sample_loader 1) sample_flags sample_args 0 = (Return (), Some s0)"
      "ready ?E (\<lambda>_. True) ms (client s0)" "\<not> blockMutex s0" "st_LastBlockHeight (CurState (client s0)) = 1"
    using main_start_returns [OF sample_live_apps sample_live_lib sample_live_valsets _ sample_arguments_ok sample_live_init] by blast
  then obtain s where s: "RunBlock ?E s0 = (Return (), s)" "st_LastBlockHeight (CurState (client s)) = 2"
    using RunBlock_returns [OF sample_live_apps sample_live_lib s0(2,3)] by auto
  have "(interleave ?E allowed)\<^sup>*\<^sup>* ([], s0) ([Read_time [] 2], s)" if ok: "\<And>x. allowed (Return x)" for allowed
  proof -
    have "(interleave ?E allowed)\<^sup>*\<^sup>* ([], s0) ([Read_time [] 0], s0)"
      using interleave.launches [of ?E Produce s0 "Return (next_block 1)" s0 allowed "[]"] by (auto simp: ret_def)
    also have "(interleave ?E allowed)\<^sup>*\<^sup>* \<dots> ([Read_time [] 0, Read_time [] 2], s0)"
      using interleave.launches [of ?E "Request (Call_advance_blocks 3)" s0 "Return (next_block 3)" s0 allowed "[Read_time [] 0]"]
      by (auto simp: ret_def numeral_eq_Suc)
    also have "(interleave ?E allowed)\<^sup>*\<^sup>* \<dots> ([Read_time [] 2], s)"
      by (rule block_thread_runs [OF s(1)]) (simp_all add: s0(4) ok)
    finally show ?thesis .
  qed
  then show thesis using that s0(1) s(2) by blast
qed

section \<open>Properties\<close>

text \<open>
  Claim C4. The chain of a running CometMock, under every interleaving. From a start that succeeded, whatever requests arrive,
  whatever blocks are produced by the loop of \<open>main\<close> or in the background, however their steps are interleaved and however
  each of them ends (panics that the server recovers from included): the applications stay registered under the addresses
  of their validators, each with a signing status, the settings stay as the command line set them, and the stored chain,
  unless the store is locked, has exactly the heights from 1 to the last one, each block linked to the state before and after it.
\<close>

theorem running_chain_linked:
  assumes "makes_blocks E" "genesis_states L" and "main_start E L F args w = (Return (), Some s0)"
    and "(interleave E any_outcome)\<^sup>*\<^sup>* ([], s0) (ths, s)"
  shows "clients_wf (client s) \<and> Clients (client s) = Clients (client s0) \<and> AutoIncludeTx (client s) = fl_auto_tx F
    \<and> (stateUpdateMutex (Storage (client s)) \<or> linked E 0 (client s))"
proof -
  note st = main_start_state [OF assms(1-3)]
  have "settings (client s) = settings (client s0)" by (rule configuration.interleaved [OF assms(4)]) simp
  then show ?thesis using st interleaved_linked [OF assms(1) _ _ assms(4), of 0] by (simp add: settings_def clients_wf_def)
qed

theorem running_chain_linked_witness:
  "\<exists>s0 s. main_start sample_env (sample_loader 1) sample_flags sample_args 0 = (Return (), Some s0)
    \<and> (interleave sample_env any_outcome)\<^sup>*\<^sup>* ([], s0) ([Read_time [] 2], s) \<and> st_LastBlockHeight (CurState (client s)) = 2
    \<and> Clients (client s) = Clients (client s0) \<and> (stateUpdateMutex (Storage (client s)) \<or> linked sample_env 0 (client s))"
proof -
  obtain s0 s where s: "main_start sample_env (sample_loader 1) sample_flags sample_args 0 = (Return (), Some s0)"
      "st_LastBlockHeight (CurState (client s)) = 2" "(interleave sample_env any_outcome)\<^sup>*\<^sup>* ([], s0) ([Read_time [] 2], s)"
    by (rule sample_interleaving) simp
  from running_chain_linked [OF sample_makes_blocks sample_genesis_states s(1,3)] s show ?thesis by blast
qed

text \<open>
  Claim C16. Commits are linked. From a start that succeeded, under every interleaving in which the blocks that ran returned
  (requests may fail otherwise): the store is open, each stored block carries, as its last commit, the commit stored with the block before it, and the
  client holds the commit of the last block.
\<close>

theorem running_commits_linked:
  assumes "makes_blocks E" "genesis_states L" and "main_start E L F args w = (Return (), Some s0)"
    and "(interleave E returned)\<^sup>*\<^sup>* ([], s0) (ths, s)"
  shows "\<not> stateUpdateMutex (Storage (client s)) \<and> commits_linked E 0 (client s)"
proof -
  note st = main_start_state [OF assms(1-3)]
  then show ?thesis using interleaved_commits_linked [OF assms(1) _ _ _ _ assms(4), of 0] by simp
qed

theorem running_commits_linked_witness:
  "\<exists>s0 s. main_start sample_env (sample_loader 1) sample_flags sample_args 0 = (Return (), Some s0)
    \<and> (interleave sample_env returned)\<^sup>*\<^sup>* ([], s0) ([Read_time [] 2], s) \<and> st_LastBlockHeight (CurState (client s)) = 2
    \<and> commits_linked sample_env 0 (client s)"
proof -
  obtain s0 s where s: "main_start sample_env (sample_loader 1) sample_flags sample_args 0 = (Return (), Some s0)"
      "st_LastBlockHeight (CurState (client s)) = 2" "(interleave sample_env returned)\<^sup>*\<^sup>* ([], s0) ([Read_time [] 2], s)"
    by (rule sample_interleaving) simp
  from running_commits_linked [OF sample_makes_blocks sample_genesis_states s(1,3)] s show ?thesis by blast
qed

text \<open>
  Claim C17. The clock keeps its type. From the start on, under every interleaving, the time handler stays of the kind that the
  command line selected: the one of the system clock if the block time, in nanoseconds as an \<open>int64\<close>, is negative, and otherwise the one
  of a fixed block time, with exactly that block time; the offset that the requests to advance the time add to always fits an \<open>int64\<close>.
\<close>

theorem clock_keeps_its_type:
  assumes "makes_blocks E" and "main_start E L F args w = (Return (), Some s0)" and "(interleave E any_outcome)\<^sup>*\<^sup>* ([], s0) (ths, s)"
    and "bt = i64 (fl_block_time F * nano_millisecond)"
  shows "case TimeHandler (client s) of
      SystemClockTimeHandler sc \<Rightarrow> bt < 0 \<and> in64 (sc_curOffset sc)
    | FixedBlockTimeHandler fb \<Rightarrow> 0 \<le> bt \<and> fb_blockTime fb = bt \<and> in64 (fb_blockTime fb) \<and> in64 (fb_curBlockOffset fb)"
proof -
  have "clock_typed bt (TimeHandler (client s0))"
    using main_start_clock [OF assms(1,2)] assms(4) by (auto simp: clock_typed_def NewFixedBlockTimeHandler_def in64_def)
  then have "clock_typed bt (TimeHandler (client s))" by (rule clock.interleaved [OF assms(3)])
  then show ?thesis by (auto simp: clock_typed_def assms(4) split: if_splits)
qed

theorem clock_keeps_its_type_witness:
  "\<exists>s0 s. main_start sample_env (sample_loader 1) sample_flags sample_args 0 = (Return (), Some s0)
    \<and> (interleave sample_env any_outcome)\<^sup>*\<^sup>* ([], s0) ([], s) \<and> s = snd (Routes sample_env (Call_advance_time 9223372037) s0)
    \<and> (\<exists>fb. TimeHandler (client s) = FixedBlockTimeHandler fb \<and> in64 (fb_curBlockOffset fb))"
proof -
  obtain s0 where s0: "main_start sample_env (sample_loader 1) sample_flags sample_args 0 = (Return (), Some s0)"
    using sample_start by blast
  obtain r s where s: "Routes sample_env (Call_advance_time 9223372037) s0 = (r, s)" by fastforce
  then have "interleave sample_env any_outcome ([], s0) ([] @ left_running (fst (seqP (Routes sample_env (Call_advance_time 9223372037)) (ret None) s0)), s)"
    by (intro interleave.launches [where h = "Request (Call_advance_time 9223372037)"]) (cases r; simp add: run_seqP)
  then have x: "(interleave sample_env any_outcome)\<^sup>*\<^sup>* ([], s0) ([], s)" using s by (cases r) (auto simp: run_seqP)
  have "0 \<le> i64 (fl_block_time sample_flags * nano_millisecond)"
    by (simp add: sample_flags_def nano_millisecond_def in64_def)
  then show ?thesis
    using clock_keeps_its_type [OF sample_makes_blocks s0 x refl] s0 x s by (auto split: time_handler.splits)
qed

text \<open>
  Claim C37. Blocks that are asked for at the same time go back in time. The last block's time and the last proposer are
  read, and the time handler is asked, before the block mutex is taken. With a fixed block time and a pending advance of the
  clock, two blocks that are asked for at once (two broadcasts, or one and the loop of \<open>main\<close>) can both succeed so that the
  first is stamped with the last block's time plus the block time and the advance, and the second, one height
  later, only with the last block's time plus the block time: before the first by the whole advance, or at the same instant when
  there was none. Both have the same proposer.
\<close>

theorem racing_blocks_go_back_in_time:
  assumes "live_apps E" "live_lib E V" "ready E V ms (client s)" "\<not> blockMutex s"
    and "TimeHandler (client s) = FixedBlockTimeHandler f"
    and "st_LastBlockHeight (CurState (client s)) = h" "h + 2 < 2 ^ 63" and "hd_Time (blk_Header (LastBlock (client s))) = t0"
  shows "\<exists>s' b1 c1 st1 r1 b2 c2 st2 r2. (interleave E returned)\<^sup>*\<^sup>* ([Read_time [] 0, Read_time [] 0], s) ([], s')
    \<and> st_LastBlockHeight (CurState (client s')) = h + 2
    \<and> ms_entries (Storage (client s')) (h + 1) = Some (b1, c1, st1, r1)
    \<and> ms_entries (Storage (client s')) (h + 2) = Some (b2, c2, st2, r2)
    \<and> hd_Time (blk_Header b1) = t0 + i64 (fb_blockTime f + fb_curBlockOffset f)
    \<and> hd_Time (blk_Header b2) = t0 + i64 (fb_blockTime f)
    \<and> hd_ProposerAddress (blk_Header b2) = hd_ProposerAddress (blk_Header b1)"
proof -
  note A = assms(1,2)
  let ?p = "vs_Proposer (st_LastValidators (CurState (client s)))"
  let ?t1 = "t0 + i64 (fb_blockTime f + fb_curBlockOffset f)" and ?t2 = "t0 + i64 (fb_blockTime f)"
  obtain v where v: "?p = Some v" "val_Address v \<in> fst ` set ms" using readyD(6) [OF assms(3)] by (auto simp: set_ready_def)
  have h: "0 \<le> h" "st_LastBlockHeight (CurState (client s)) < 2 ^ 63 - 1" using readyD(13) [OF assms(3)] assms(6,7) by simp_all
  obtain th where x0: "(interleave E returned)\<^sup>*\<^sup>* ([Read_time [] 0, Read_time [] 0], s)
      ([Run_block ?t1 (Some v) [] 0, Run_block ?t2 (Some v) [] 0], s\<lparr>client := (client s)\<lparr>TimeHandler := th\<rparr>\<rparr>)"
    using both_ask [OF assms(5) h(2), of t0 "Some v" E] assms(8) v(1) by auto
  let ?u = "s\<lparr>client := (client s)\<lparr>TimeHandler := th\<rparr>\<rparr>"
  have u: "ready E V ms (client ?u)" "\<not> blockMutex ?u" "st_LastBlockHeight (CurState (client ?u)) = h"
    using assms(3,4,6) by (simp_all add: ready_TimeHandler)
  obtain s1 b1 c1 r1 where s1: "RunBlockWithTimeAndProposer E ?t1 (Some v) [] ?u = (Return (), s1)" "ready E V ms (client s1)"
      "\<not> blockMutex s1" "st_LastBlockHeight (CurState (client s1)) = h + 1"
      "ms_entries (Storage (client s1)) = (ms_entries (Storage (client ?u)))(h + 1 \<mapsto> (b1, c1, CurState (client ?u), r1))"
      "hd_Time (blk_Header b1) = ?t1" "hd_ProposerAddress (blk_Header b1) = val_Address v"
    by (rule timed_block [OF A u(1,2) v(2) u(3) h(1), of ?t1]) (use assms(7) in simp_all)
  obtain s2 b2 c2 r2 where s2: "RunBlockWithTimeAndProposer E ?t2 (Some v) [] s1 = (Return (), s2)"
      "st_LastBlockHeight (CurState (client s2)) = h + 1 + 1"
      "ms_entries (Storage (client s2)) = (ms_entries (Storage (client s1)))(h + 1 + 1 \<mapsto> (b2, c2, CurState (client s1), r2))"
      "hd_Time (blk_Header b2) = ?t2" "hd_ProposerAddress (blk_Header b2) = val_Address v"
    by (rule timed_block [OF A s1(2,3) v(2) s1(4), of ?t2]) (use assms(7) h(1) in simp_all)
  have "(interleave E returned)\<^sup>*\<^sup>* ([Run_block ?t1 (Some v) [] 0, Run_block ?t2 (Some v) [] 0], ?u) ([Run_block ?t2 (Some v) [] 0], s1)"
    by (rule first_thread_ends) (use h s1(1) u(3) in \<open>simp_all add: run_seqP assms(6)\<close>)
  moreover have "(interleave E returned)\<^sup>*\<^sup>* ([Run_block ?t2 (Some v) [] 0], s1) ([], s2)"
    by (rule first_thread_ends) (use assms(7) s1(4) s2(1) in \<open>simp_all add: run_seqP\<close>)
  ultimately have "(interleave E returned)\<^sup>*\<^sup>* ([Read_time [] 0, Read_time [] 0], s) ([], s2)" using x0 by (meson rtranclp_trans)
  then show ?thesis using s1(5-7) s2(2-5) by auto
qed

theorem racing_blocks_go_back_in_time_witness:
  "\<exists>s s' b1 c1 st1 r1 b2 c2 st2 r2. s = snd (route_AdvanceTime sample_env 60 sample_sys)
    \<and> (interleave sample_env returned)\<^sup>*\<^sup>* ([Read_time [] 0, Read_time [] 0], s) ([], s')
    \<and> ms_entries (Storage (client s')) 1 = Some (b1, c1, st1, r1) \<and> ms_entries (Storage (client s')) 2 = Some (b2, c2, st2, r2)
    \<and> hd_Time (blk_Header b1) = 10 + 60 * nano_second \<and> hd_Time (blk_Header b2) = 10"
proof -
  let ?f = "\<lparr>fb_blockTime = 10, fb_curBlockOffset = 60 * nano_second, fb_lastBlockTimestamp = zero_time\<rparr>"
  let ?s = "snd (route_AdvanceTime sample_env 60 sample_sys)"
  have th: "TimeHandler (client sample_sys) = FixedBlockTimeHandler \<lparr>fb_blockTime = 10, fb_curBlockOffset = 0, fb_lastBlockTimestamp = zero_time\<rparr>"
    by (simp add: sample_sys_def NewFixedBlockTimeHandler_def)
  have s: "?s = sample_sys\<lparr>client := (client sample_sys)\<lparr>TimeHandler := FixedBlockTimeHandler ?f\<rparr>\<rparr>"
    by (simp add: route_AdvanceTime_def AdvanceTime_def th fb_AdvanceTime_def Let_def run_bindP run_seqP nano_second_def in64_def)
  have "ready sample_env (\<lambda>_. True) [(''v1'', 10), (''v2'', 20)] (client ?s)" using sample_ready by (simp add: s ready_TimeHandler)
  moreover have "\<not> blockMutex ?s" "TimeHandler (client ?s) = FixedBlockTimeHandler ?f"
    "st_LastBlockHeight (CurState (client ?s)) = 0" "hd_Time (blk_Header (LastBlock (client ?s))) = 0"
    by (simp_all add: s) (simp_all add: sample_sys_def sample_state_def sample_block_def)
  ultimately show ?thesis
    using racing_blocks_go_back_in_time [OF sample_live_apps sample_live_lib, of "[(''v1'', 10), (''v2'', 20)]" ?s ?f 0 0]
    by (auto simp: nano_second_def in64_def)
qed

end
