(* ===== verification/Halted_Chain.thy ===== *)
theory Halted_Chain
  imports Concurrent
begin

text \<open>
  A chain that has come to an end. After a block that changed the number of validators, no last commit fits both the last validators, with
  which the proposal pairs it, and the current ones, with which \<open>ProcessProposal\<close> and FinalizeBlock do. This holds whatever the client's last commit is, so
  that failed attempts, which may overwrite it, do not help, and neither does anything else that can happen to the program: the
  halted state is an invariant of every interleaving.
\<close>

section \<open>The invariant\<close>

definition size_laws :: "'w env \<Rightarrow> bool" where
  "size_laws E \<longleftrightarrow> makes_blocks E \<and> commit_sizes E \<and> commits_complete E \<and> commits_of_height E"

lemma halted_blind:
  "halted a (c\<lparr>FreshTxQueue := q\<rparr>) = halted a c" "halted a (c\<lparr>signingStatus := sg\<rparr>) = halted a c"
  "halted a (c\<lparr>TimeHandler := th\<rparr>) = halted a c"
  by (simp_all add: halted_def)

lemma keeps_halted_block:
  "keeps (\<lambda>s. size_laws E \<and> mis_sized (CurState a) \<longrightarrow> halted a (client s)) (RunBlockWithTimeAndProposer E t p misb)"
proof (rule keepsI)
  fix s :: "'a sys"
  assume h: "size_laws E \<and> mis_sized (CurState a) \<longrightarrow> halted a (client s)"
  show "size_laws E \<and> mis_sized (CurState a) \<longrightarrow> halted a (client (snd (RunBlockWithTimeAndProposer E t p misb s)))"
    using h RunBlock_halted [of E a s t p misb "fst (RunBlockWithTimeAndProposer E t p misb s)" "snd (RunBlockWithTimeAndProposer E t p misb s)"]
    by (auto simp: size_laws_def)
qed

interpretation halting: clock_blind_invariant E "\<lambda>s. size_laws E \<and> mis_sized (CurState a) \<longrightarrow> halted a (client s)"
  for E :: "'w env" and a
proof (unfold_locales, goal_cases)
  case 1
  show ?case by (auto simp: read_blind_def env_blind_def halted_def same_reads_fields)
next
  case (5 x b)
  show ?case by (rule keepsI) (auto simp: SetSigningStatus_def run_bindP run_seqP halted_blind split: option.split)
next
  case (6 t p misb)
  show ?case by (rule keeps_halted_block)
qed (auto simp: halted_blind)

section \<open>Properties\<close>

text \<open>
  Claim C32. A validator set that changes its size halts the chain for good. Let a block succeed while the pending validator set has another
  number of validators than the current one, at the initial height or later. Then, whatever requests arrive, whatever blocks are attempted and however
  they end and are interleaved: the chain state, the last block and the stored entries never change again, and no attempt to run a
  block, with whatever time, proposer and misbehaviour, succeeds.
\<close>

theorem size_change_halts_chain:
  assumes "makes_blocks E" "commit_sizes E" "commits_complete E" "commits_of_height E"
    and "RunBlockWithTimeAndProposer E t p misb s = (Return (), s')"
    and "length (vs_Validators (st_NextValidators (CurState (client s))))
      \<noteq> length (vs_Validators (st_Validators (CurState (client s))))"
    and "0 \<le> st_LastBlockHeight (CurState (client s))" "st_LastBlockHeight (CurState (client s)) + 2 < 2 ^ 63"
    and "st_InitialHeight (CurState (client s)) \<le> st_LastBlockHeight (CurState (client s)) + 1"
    and "(interleave E any_outcome)\<^sup>*\<^sup>* (ths, s') (ths', s'')"
  shows "CurState (client s'') = CurState (client s') \<and> LastBlock (client s'') = LastBlock (client s')
    \<and> ms_entries (Storage (client s'')) = ms_entries (Storage (client s'))
    \<and> (\<forall>t' p' misb' s3. RunBlockWithTimeAndProposer E t' p' misb' s'' \<noteq> (Return (), s3))"
proof -
  have m: "mis_sized (CurState (client s'))" and h: "halted (client s') (client s')"
    using size_change_halts [OF assms(1,4,5,6,7,8,9)] by simp_all
  have "size_laws E \<and> mis_sized (CurState (client s')) \<longrightarrow> halted (client s') (client s'')"
    by (rule halting.interleaved [OF assms(10)]) (use h in simp)
  then have h'': "halted (client s') (client s'')" using assms(1-4) m by (simp add: size_laws_def)
  then have "RunBlockWithTimeAndProposer E t' p' misb' s'' \<noteq> (Return (), s3)" for t' p' misb' s3
    using RunBlock_halted [OF assms(1-4) m h''] by blast
  then show ?thesis using h'' by (simp add: halted_def)
qed

text \<open>The attempt of another block, which fails, and then no other one can succeed.\<close>

theorem size_change_halts_chain_witness:
  "\<exists>s' s''. RunBlockWithTimeAndProposer sample_env 10 (Some (sample_validator ''v1'' 10)) [] sample_growing = (Return (), s')
    \<and> (interleave sample_env any_outcome)\<^sup>*\<^sup>* ([Run_block 20 (Some (sample_validator ''v1'' 10)) [] 0], s') ([], s'')
    \<and> CurState (client s'') = CurState (client s')
    \<and> (\<forall>t p misb s3. RunBlockWithTimeAndProposer sample_env t p misb s'' \<noteq> (Return (), s3))"
proof -
  let ?p = "Some (sample_validator ''v1'' 10)"
  obtain s' where run: "RunBlockWithTimeAndProposer sample_env 10 ?p [] sample_growing = (Return (), s')"
    using sample_growing_runs by blast
  have n: "length (vs_Validators (st_NextValidators (CurState (client sample_growing))))
      \<noteq> length (vs_Validators (st_Validators (CurState (client sample_growing))))"
    "0 \<le> st_LastBlockHeight (CurState (client sample_growing))" "st_LastBlockHeight (CurState (client sample_growing)) + 2 < 2 ^ 63"
    "st_InitialHeight (CurState (client sample_growing)) \<le> st_LastBlockHeight (CurState (client sample_growing)) + 1"
    by (simp_all add: sample_growing_def sample_sys_def sample_state_def sample_valset_def sample_vals_def)
  note halts = size_change_halts_chain [OF sample_makes_blocks sample_commit_sizes sample_commits_complete
      sample_commits_of_height run n]
  obtain r s'' where b: "RunBlockWithTimeAndProposer sample_env 20 ?p [] s' = (r, s'')" by fastforce
  then have "r \<noteq> Return ()" using halts [OF rtranclp.rtrancl_refl] by blast
  then obtain q where q: "thread_step sample_env (Run_block 20 ?p [] 0) s' = (q, s'')" "left_running q = []"
    using b by (cases r) (auto simp: run_seqP)
  have "st_LastBlockHeight (CurState (client s')) = 1"
    using RunBlock_success [OF sample_makes_blocks run]
    by (auto simp: proposed_def sample_growing_def sample_sys_def sample_state_def in64_def)
  then have i: "(interleave sample_env any_outcome)\<^sup>*\<^sup>* ([Run_block 20 ?p [] 0], s') ([], s'')"
    using interleave.steps [of s' sample_env "Run_block 20 ?p [] 0" q s'' any_outcome "[]" "[]"] q by auto
  from halts [OF i] run i show ?thesis by blast
qed

end
