(* ===== verification/Schedule.thy ===== *)
theory Schedule
  imports Concurrent
begin

text \<open>
  Progress of the threads that run blocks. A schedule is the list of the scheduler's choices; every choice lets one of the
  threads that are still running do its next step. With applications and a library that behave, in a state that is ready, every schedule that is long enough
  finishes all of them.
\<close>

section \<open>Schedules\<close>

fun run_schedule :: "'w env \<Rightarrow> nat list \<Rightarrow> thread list \<times> 'w sys \<Rightarrow> thread list \<times> 'w sys" where
  "run_schedule E [] c = c"
| "run_schedule E (i # choices) (ths, s) =
     (if ths = [] then (ths, s)
      else let k = i mod length ths
           in case thread_step E (ths ! k) s of (r, t) \<Rightarrow>
                run_schedule E choices (take k ths @ left_running r @ drop (Suc k) ths, t))"

text \<open>What a thread has still to do.\<close>

fun steps_left :: "thread \<Rightarrow> nat" where
  "steps_left (Read_time misb n) = 4 * n + 4"
| "steps_left (Ask_time t misb n) = 4 * n + 3"
| "steps_left (Read_proposer t misb n) = 4 * n + 2"
| "steps_left (Run_block t p misb n) = 4 * n + 1"

fun blocks_left :: "thread \<Rightarrow> nat" where
  "blocks_left (Read_time misb n) = Suc n"
| "blocks_left (Ask_time t misb n) = Suc n"
| "blocks_left (Read_proposer t misb n) = Suc n"
| "blocks_left (Run_block t p misb n) = Suc n"

text \<open>A thread that runs blocks without evidence, by a proposer that is one of the members.\<close>

fun thread_ok :: "(bytes \<times> int) list \<Rightarrow> thread \<Rightarrow> bool" where
  "thread_ok ms (Read_time misb n) = (misb = [])"
| "thread_ok ms (Ask_time t misb n) = (misb = [])"
| "thread_ok ms (Read_proposer t misb n) = (misb = [])"
| "thread_ok ms (Run_block t p misb n) = (misb = [] \<and> (\<exists>v. p = Some v \<and> val_Address v \<in> fst ` set ms))"

lemma steps_left_pos: "0 < steps_left th" "0 < blocks_left th"
  by (cases th; simp)+

section \<open>One step\<close>

text \<open>Every step returns, keeps the state ready, and brings its thread nearer to its end.\<close>

lemma thread_step_progress:
  assumes A: "live_apps E" "live_lib E V" and s: "ready E V ms (client s)" "\<not> blockMutex s" and th: "thread_ok ms th"
    and h: "st_LastBlockHeight (CurState (client s)) + 1 < 2 ^ 63"
  obtains q t where "thread_step E th s = (Return q, t)" "ready E V ms (client t)" "\<not> blockMutex t"
    "list_all (thread_ok ms) (left_running (Return q))"
    "Suc (sum_list (map steps_left (left_running (Return q)))) = steps_left th"
    "st_LastBlockHeight (CurState (client t)) + int (sum_list (map blocks_left (left_running (Return q))))
      = st_LastBlockHeight (CurState (client s)) + int (blocks_left th)"
proof (cases th)
  case (Read_time misb n)
  then show thesis using that [of "Some (Ask_time (hd_Time (blk_Header (LastBlock (client s)))) misb n)" s] s th
    by (simp add: run_bindP ret_def)
next
  case (Ask_time lt misb n)
  obtain bt x u where u: "GetBlockTime E lt s = (Return bt, u)" "client u = (client s)\<lparr>TimeHandler := x\<rparr>"
      "blockMutex u = blockMutex s"
    by (rule GetBlockTime_run)
  then show thesis using that [of "Some (Read_proposer bt misb n)" u] s th Ask_time
    by (simp add: run_bindP ret_def ready_TimeHandler)
next
  case (Read_proposer bt misb n)
  obtain v where "vs_Proposer (st_LastValidators (CurState (client s))) = Some v" "val_Address v \<in> fst ` set ms"
    using readyD(6) [OF s(1)] by (auto simp: set_ready_def)
  then show thesis using that [of "Some (Run_block bt (Some v) misb n)" s] s th Read_proposer
    by (simp add: run_bindP ret_def last_proposer_def)
next
  case (Run_block bt p misb n)
  then obtain v where v: "p = Some v" "val_Address v \<in> fst ` set ms" "misb = []" using th by auto
  obtain t where "RunBlockWithTimeAndProposer E bt (Some v) [] s = (Return (), t)" "ready E V ms (client t)" "\<not> blockMutex t"
      "st_LastBlockHeight (CurState (client t)) = st_LastBlockHeight (CurState (client s)) + 1"
    using block_returns [OF A s v(2) h] by blast
  then show thesis using that [of "next_block n" t] Run_block v
    by (cases n) (simp_all add: run_seqP ret_def)
qed

section \<open>All steps\<close>

lemma schedule_finishes:
  assumes A: "live_apps E" "live_lib E V"
  shows "ready E V ms (client s) \<Longrightarrow> \<not> blockMutex s \<Longrightarrow> list_all (thread_ok ms) ths \<Longrightarrow>
    st_LastBlockHeight (CurState (client s)) + int (sum_list (map blocks_left ths)) < 2 ^ 63 \<Longrightarrow>
    sum_list (map steps_left ths) \<le> length choices \<Longrightarrow>
    \<exists>s'. run_schedule E choices (ths, s) = ([], s') \<and> (interleave E returned)\<^sup>*\<^sup>* (ths, s) ([], s') \<and> ready E V ms (client s') \<and> \<not> blockMutex s'
      \<and> st_LastBlockHeight (CurState (client s')) = st_LastBlockHeight (CurState (client s)) + int (sum_list (map blocks_left ths))"
proof (induction choices arbitrary: ths s)
  case Nil
  have "ths = []" using Nil.prems(5) steps_left_pos(1) [of "hd ths"] by (cases ths) auto
  then show ?case using Nil.prems by simp
next
  case (Cons i choices)
  show ?case
  proof (cases "ths = []")
    case True
    then show ?thesis using Cons.prems by simp
  next
    case False
    let ?k = "i mod length ths"
    define pre th post where "pre = take ?k ths" and "th = ths ! ?k" and "post = drop (Suc ?k) ths"
    have k: "?k < length ths" using False by simp
    have ths: "ths = pre @ th # post" using id_take_nth_drop [OF k] by (simp add: pre_def th_def post_def)
    have h: "st_LastBlockHeight (CurState (client s)) + 1 < 2 ^ 63"
      using Cons.prems(4) steps_left_pos(2) [of th] by (simp add: ths)
    have ok: "thread_ok ms th" using Cons.prems(3) by (simp add: ths)
    obtain q t where q: "thread_step E th s = (Return q, t)" "ready E V ms (client t)" "\<not> blockMutex t"
        "list_all (thread_ok ms) (left_running (Return q))"
        "Suc (sum_list (map steps_left (left_running (Return q)))) = steps_left th"
        "st_LastBlockHeight (CurState (client t)) + int (sum_list (map blocks_left (left_running (Return q))))
          = st_LastBlockHeight (CurState (client s)) + int (blocks_left th)"
      by (rule thread_step_progress [OF A Cons.prems(1,2) ok h])
    let ?rest = "pre @ left_running (Return q) @ post"
    have "list_all (thread_ok ms) ?rest"
      "st_LastBlockHeight (CurState (client t)) + int (sum_list (map blocks_left ?rest))
        = st_LastBlockHeight (CurState (client s)) + int (sum_list (map blocks_left ths))"
      "sum_list (map steps_left ?rest) \<le> length choices"
      using Cons.prems(3,5) q(4-6) by (simp_all add: ths)
    then obtain s' where s': "run_schedule E choices (?rest, t) = ([], s')" "(interleave E returned)\<^sup>*\<^sup>* (?rest, t) ([], s')"
        "ready E V ms (client s')" "\<not> blockMutex s'" "st_LastBlockHeight (CurState (client s'))
          = st_LastBlockHeight (CurState (client s)) + int (sum_list (map blocks_left ths))"
      using Cons.IH [OF q(2,3), of ?rest] Cons.prems(4) by auto
    have "interleave E returned (ths, s) (?rest, t)"
      unfolding ths by (rule interleave.steps [OF _ q(1)]) (use h in simp_all)
    then have "(interleave E returned)\<^sup>*\<^sup>* (ths, s) ([], s')" using s'(2) by (rule converse_rtranclp_into_rtranclp)
    moreover have "run_schedule E (i # choices) (ths, s) = ([], s')"
      using False q(1) s'(1) by (simp add: Let_def pre_def th_def post_def)
    ultimately show ?thesis using s'(3-5) by blast
  qed
qed

section \<open>Properties\<close>

text \<open>
  Claim C8. Every schedule finishes. With applications and a library as in \<open>blocks_keep_coming\<close>, let any number of threads be about to run blocks (the blocks of
  \<open>advance_blocks\<close> requests, of broadcasts, of the loop of \<open>main\<close>): \<open>Suc n\<close> blocks each. However the scheduler interleaves their steps, also unfairly, after at most four steps per
  block all of them are done; none failed, panicked or is stuck at a mutex; the chain has grown by exactly the blocks they were to run, and
  the state is ready for more.
\<close>

theorem every_schedule_finishes:
  assumes "live_apps E" "live_lib E V" "ready E V ms (client s)" "\<not> blockMutex s"
    and "st_LastBlockHeight (CurState (client s)) + int (sum_list (map Suc ns)) < 2 ^ 63"
    and "4 * sum_list (map Suc ns) \<le> length choices"
  shows "\<exists>s'. run_schedule E choices (map (Read_time []) ns, s) = ([], s')
    \<and> (interleave E returned)\<^sup>*\<^sup>* (map (Read_time []) ns, s) ([], s')
    \<and> st_LastBlockHeight (CurState (client s')) = st_LastBlockHeight (CurState (client s)) + int (sum_list (map Suc ns))
    \<and> ready E V ms (client s') \<and> \<not> blockMutex s'"
proof -
  have n: "sum_list (map blocks_left (map (Read_time []) ns)) = sum_list (map Suc ns)"
    "sum_list (map steps_left (map (Read_time []) ns)) = 4 * sum_list (map Suc ns)"
    by (induction ns) auto
  show ?thesis
    using schedule_finishes [OF assms(1-4), of "map (Read_time []) ns" choices] assms(5,6) unfolding n by (auto simp: list_all_iff)
qed

theorem every_schedule_finishes_witness:
  "\<exists>s'. run_schedule sample_env (replicate 20 1) (map (Read_time []) [2, 0], sample_sys) = ([], s')
    \<and> st_LastBlockHeight (CurState (client s')) = 4 \<and> \<not> blockMutex s'"
proof -
  have "\<not> blockMutex sample_sys" "st_LastBlockHeight (CurState (client sample_sys)) + int (sum_list (map Suc [2, 0])) < 2 ^ 63"
    "4 * sum_list (map Suc [2, 0]) \<le> length (replicate 20 (1 :: nat))" "st_LastBlockHeight (CurState (client sample_sys)) = 0"
    by (simp_all add: sample_sys_def sample_state_def)
  then show ?thesis
    using every_schedule_finishes [OF sample_live_apps sample_live_lib sample_ready, of "[2, 0]" "replicate 20 1"] by auto
qed

end
