(* ===== verification/Inclusion.thy ===== *)
theory Inclusion
  imports Progress Service
begin

text \<open>
  A transaction from its broadcast to the chain: the route checks and queues it and starts a block in the background, and that
  block contains it. Beside the applications and the library of theory \<open>Live_Env\<close>, the application that prepares the
  proposal has to leave the transactions in it.
\<close>

section \<open>Transactions of a proposal\<close>








section \<open>The background block\<close>






section \<open>Properties\<close>



end
