(* ===== verification/Spec2Isabelle.thy ===== *)
theory Spec2Isabelle
  imports Prelude Comet_Types Sample_Env Time_Handler Map_Storage Comet_Utils State_Update Abci_Client
    Abci_Calls Block_Proposal Evidence_Builder Run_Block Sample_Run Block_Frame Block_Success Block_Order
    Block_Properties Block_Faults Failed_Block Chain Downtime Misbehaviour Pagination Routes Route_Properties Startup Websocket
    Rpc_Server Service Live_Env Progress Concurrent Halted_Chain Schedule Inclusion Start_Progress
begin

text \<open>
  A verification development of CometMock, a drop-in replacement for CometBFT in end-to-end tests: one process that plays the
  consensus of all validators. It talks to one application per validator over ABCI, decides blocks by itself, keeps the chain in
  memory and serves the RPC interface of CometBFT together with some routes of its own (advance blocks or time, switch
  validators off, cause misbehaviour). The sources are under \<open>src/cometmock\<close>.

  \<^bold>\<open>The program.\<close> \<open>main.go\<close> reads flags, keys and the genesis file, connects to the applications, sends InitChain and runs the first
  block; then it produces blocks in a loop and starts the RPC server. \<open>abci_client/client.go\<close> is the core: \<open>runBlock_helper\<close> checks the
  queued transactions, builds evidence, lets an application prepare a proposal, has the others process it, signs the votes
  of the validators that are switched on, makes the commit, finalizes the block everywhere, stores it, updates the chain state and
  publishes events. \<open>abci_client/time_handler.go\<close> gives blocks their times, \<open>abci_client/counterparty.go\<close> describes a connected application,
  \<open>storage/storage.go\<close> holds blocks, commits, states and responses by height, \<open>utils\<close> has helper functions, and \<open>rpc_server\<close> has the
  routes, the websocket subscriptions and the HTTP server. The global client, its store and two locks (\<open>blockMutex\<close> and the
  store's \<open>stateUpdateMutex\<close>) are shared by all of them.

  \<^bold>\<open>How it is modelled.\<close> A Go function is a program of \<open>Prelude\<close>: a function from a state to an outcome and a new state. The outcome is a
  value, an error (a constructor of \<open>go_error\<close> for every error of the source), a panic (\<open>go_panic\<close>) or \<open>Blocked\<close>, a lock that is
  never granted; effects made before an error or a panic stay. Integers are mathematical ones with \<open>i64\<close>, \<open>i32\<close> and \<open>u32\<close> written where
  the source can wrap around (\<open>i64_eq_sint\<close> ties \<open>i64\<close> to 64-bit words). The state \<open>'w sys\<close> has the client, the block mutex, the
  number of background blocks asked for, the events published, a history of the ABCI calls, and the state \<open>'w\<close> of everything
  outside. What is outside (CometBFT's library, the applications, clock, indexers, the order in which Go visits a map) is the record \<open>'w env\<close>, an
  argument of every definition that uses it; documented behaviour that a property relies on is a named predicate on it, and
  \<open>sample_env\<close> shows in the witnesses that these hold together. Files and connections at start-up are the record \<open>loader\<close>, the event bus
  is \<open>event_bus\<close>. Loops over lists are structural recursion (\<open>foreach\<close>, \<open>collect\<close>), so every definition is total and no fuel is needed; the
  only endless loop, the production of blocks in \<open>main\<close>, is taken for its first \<open>n\<close> rounds, for every \<open>n\<close>, and the endless loop of a subscription
  runs over what it has received so far.

  \<^bold>\<open>The theories.\<close>
  \<^item> \<open>Prelude\<close>: programs, the machine integers, and three ways to reason: \<open>keeps\<close> (a predicate survives every outcome), \<open>wpR\<close> (the program
    returns, total correctness) and \<open>triple\<close> (returns and other outcomes told apart).
  \<^item> \<open>Comet_Types\<close>: the data of CometBFT that CometMock handles, errors and panics, and the environment; \<open>Sample_Env\<close>, \<open>Sample_Run\<close>: a
    concrete environment and system for the witnesses.
  \<^item> \<open>Time_Handler\<close> (time\_handler.go): both handlers as interpretations of the locale \<open>block_clock\<close>; exact block times, additive
    advances, and the reversed offset of the system clock handler.
  \<^item> \<open>Map_Storage\<close> (storage.go): the store with its lock as an interpretation of the locale \<open>entry_store\<close>; it refines a map from heights to
    complete entries.
  \<^item> \<open>Comet_Utils\<close> (utils), \<open>State_Update\<close> (\<open>UpdateState\<close>, \<open>validateValidatorUpdates\<close>, \<open>CreateInitChainRequest\<close>): what they compute on every branch.
  \<^item> \<open>Abci_Client\<close> (client state, queue, lookups, signing status), \<open>Abci_Calls\<close> (broadcasts, each an interpretation of the locale
    \<open>fan_out\<close>; InitChain), \<open>Block_Proposal\<close>, \<open>Evidence_Builder\<close>, \<open>Run_Block\<close>: the rest of client.go, \<open>runBlock_helper\<close> in the phases of the source.
  \<^item> \<open>Block_Frame\<close>, \<open>Block_Success\<close>, \<open>Block_Order\<close>: what the phases leave alone on every outcome, what a block that returned did, in which
    order applications were called. \<open>Block_Properties\<close>, \<open>Block_Faults\<close>, \<open>Downtime\<close>, \<open>Misbehaviour\<close>: the properties of blocks: functional behaviour,
    all or nothing, order of calls, no transaction lost, votes and downtime, evidence, and the error paths (mutex and store left
    locked, nil dereferences, changed validator sets). \<open>Failed_Block\<close>: a calculus for the errors of a program, and what a block that is not
    finalized leaves behind for the next one: its commit, an advance of the clock that is used up, queues without its transactions.
  \<^item> \<open>Chain\<close>: what it means that the stored chain and its commits are linked, that a block keeps both, and the times of blocks with a fixed
    block time.
  \<^item> \<open>Pagination\<close>, \<open>Routes\<close>, \<open>Route_Properties\<close> (routes.go): every handler; pages partition results, the routes serve what is stored, broadcasts
    queue the transaction. \<open>Websocket\<close> (websocket.go): subscriptions. \<open>Rpc_Server\<close> (rpc\_server.go): the start of the server, the
    logging handler and responses.
  \<^item> \<open>Startup\<close> (main.go): from flags and files to the first block; when a start succeeds and when it cannot.
  \<^item> \<open>Service\<close>: the route table, and what has to be shown of the operations so that a predicate is an invariant of the running program:
    the locale \<open>service_invariant\<close>, and \<open>clock_blind_invariant\<close> for predicates that do not look at the time handler, which gives the
    former as a sublocale. The interpretations are: a locked store stays locked, registrations and settings never change, the time
    handler keeps its type. Queries change nothing.
  \<^item> \<open>Live_Env\<close>, \<open>Progress\<close>: applications and a library that behave, states that are ready, and that blocks then keep coming.
    \<open>Start_Progress\<close>: from the command line on, a start returns and blocks keep coming. \<open>Inclusion\<close>: a broadcast transaction gets into the chain.
  \<^item> \<open>Concurrent\<close>: the running program as interleaved threads; the invariants hold under every interleaving, the steps of a thread
    that is not interrupted are its handler (lemma \<open>steps_make_up_handlers\<close>), and two blocks that race go back in time.
    \<open>Halted_Chain\<close>: after a change of the number of validators no block succeeds under any interleaving. \<open>Schedule\<close>: with applications and a library that behave, every
    schedule finishes all threads that run blocks.

  \<^bold>\<open>Hypotheses.\<close> Documented behaviour of the library: \<open>makes_blocks\<close>, \<open>commit_sizes\<close>, \<open>commits_complete\<close>, \<open>commits_of_height\<close>, \<open>records_votes\<close>,
  \<open>orders_maps\<close>, \<open>genesis_states\<close>, \<open>makes_valsets\<close>, and, for the properties that blocks succeed, \<open>live_lib\<close> and \<open>live_valsets\<close> (validator sets whose total power is within the
  library's maximum, \<open>power_bounded\<close>). Applications and files as an operator wants them: \<open>live_apps\<close> (every request is answered, the
  answers agree, proposals and vote extensions are accepted, and FinalizeBlock never changes validators or consensus parameters), \<open>live_services\<close>, \<open>live_init\<close>,
  \<open>arguments_ok\<close>, \<open>proposes_all\<close> and \<open>accepts_new\<close> (one transaction is accepted both times that CheckTx is asked about it as a new one). What CheckTx answers is
  otherwise free, and may change from call to call. Each is defined next to its first use and shown of the sample environment. Heights are assumed below
  \<open>2 ^ 63 - 1\<close> where a property needs that the next height does not wrap around.

  \<^bold>\<open>Concurrency.\<close> Handlers, background blocks and the loop of \<open>main\<close> run concurrently in Go. \<open>interleave\<close> of theory \<open>Concurrent\<close> is a step relation over
  the threads that run blocks: reading the time of the last block, asking the time handler, reading the last proposer and the section under
  the block mutex are a step each, with any number of threads and any order, and blocks of \<open>advance_blocks\<close> are separate. The section under the block
  mutex is one step: what other threads can change during it are signing statuses and the time handler, under their own mutexes. A
  request that runs no block, and the part of a request before its first block, is one step too. Data races of readers that take no lock with
  the section under the mutex are not represented. The theories before \<open>Concurrent\<close> speak of whole operations.

  \<^bold>\<open>Not modelled.\<close> Logging and printing; the timeouts of contexts; parsing of flags and of JSON; what the HTTP and RPC libraries do with the
  handlers and the route table that \<open>StartRPCServer\<close> gives them; the stub \<open>SyncApp\<close>; the end-to-end tests under \<open>src/e2e-tests\<close>.
  The panic of \<open>NewVoteSet\<close> at height 0 (a block has at least height 1 unless heights wrap around); nil elements in the list of transaction results of a response. \<open>sort.Slice\<close> is not stable, the
  sort of the model is: search results have no two entries of equal height and index.

  \<^bold>\<open>Plan.\<close> Still to come: the light client attack evidence as the light client of CometBFT checks it; signing statuses that change while a block is
  being signed.
\<close>

end
